(* ===== verification/Prelude.thy ===== *)
theory Prelude
  imports Main "HOL-Library.Word"
begin

text \<open>
  Shared vocabulary of the development: names for the fixed-width C integer types,
  the error values that stand for every way a C function of the program can fail to
  return normally, the sequencing of fallible steps, and generic lemmas on words and
  lists that the component theories use.
\<close>

unbundle bit_operations_syntax

section \<open>C integer types\<close>

type_synonym u8 = "8 word"
type_synonym u16 = "16 word"
type_synonym u32 = "32 word"
type_synonym u64 = "64 word"

section \<open>Failure values and sequencing\<close>

text \<open>
  \<open>Abort\<close> is a call of \<open>abort()\<close> or a failed \<open>assert\<close>; \<open>BadTypedef\<close> and \<open>BadAbi\<close> are the
  error codes \<open>FFI_BAD_TYPEDEF\<close> and \<open>FFI_BAD_ABI\<close>; \<open>Undefined\<close> is a step that C gives no
  meaning to (an access outside an object); \<open>OutOfFuel\<close> is the artefact of a bounded
  recursion, shown unreachable where it could occur.
\<close>

datatype failure = Abort | BadTypedef | BadAbi | Undefined | OutOfFuel

type_synonym 'a result = "failure + 'a"

definition bindR :: "'a result \<Rightarrow> ('a \<Rightarrow> 'b result) \<Rightarrow> 'b result" where
  "bindR m f = (case m of Inl e \<Rightarrow> Inl e | Inr x \<Rightarrow> f x)"

definition assertR :: "bool \<Rightarrow> unit result" where
  "assertR b = (if b then Inr () else Inl Abort)"

lemma bindR_simps [simp]:
  "bindR (Inl e) f = Inl e"
  "bindR (Inr x) f = f x"
  by (simp_all add: bindR_def)

lemma bindR_Inr_iff:
  "bindR m f = Inr y \<longleftrightarrow> (\<exists>x. m = Inr x \<and> f x = Inr y)"
  by (cases m) simp_all

lemma bindR_InrE [elim!]:
  assumes "bindR m f = Inr y"
  obtains x where "m = Inr x" "f x = Inr y"
  using assms by (auto simp: bindR_Inr_iff)

lemma bindR_Inl_iff: "bindR m f = Inl e \<longleftrightarrow> m = Inl e \<or> (\<exists>x. m = Inr x \<and> f x = Inl e)"
  by (cases m) simp_all

lemma bindR_assoc: "bindR (bindR m f) g = bindR m (\<lambda>x. bindR (f x) g)"
  by (cases m) simp_all

lemma assertR_simps [simp]:
  "assertR True = Inr ()"
  "assertR False = Inl Abort"
  "(assertR b = Inr u) \<longleftrightarrow> b"
  by (simp_all add: assertR_def)

lemma bindR_cong [fundef_cong]:
  assumes "m = m'" and "\<And>x. m' = Inr x \<Longrightarrow> f x = g x"
  shows "bindR m f = bindR m' g"
  using assms by (cases m') simp_all

section \<open>Bytes of a word\<close>

text \<open>
  The x86-64 host is little endian: byte \<open>k\<close> of an object that holds the 64-bit value
  \<open>v\<close> is made of the bits from \<open>8 * k\<close> up to \<open>8 * k + 7\<close>.
\<close>

definition get_byte :: "u64 \<Rightarrow> nat \<Rightarrow> u8" where
  "get_byte v k = ucast (drop_bit (8 * k) v)"

definition set_byte :: "u64 \<Rightarrow> nat \<Rightarrow> u8 \<Rightarrow> u64" where
  "set_byte v k b = (v AND NOT (push_bit (8 * k) 0xFF)) OR push_bit (8 * k) (ucast b)"

lemma bit_255_iff: "bit (255 :: int) n \<longleftrightarrow> n < 8"
proof -
  have "bit (mask 8 :: int) n \<longleftrightarrow> n < 8"
    unfolding bit_mask_iff by auto
  then show ?thesis
    by (simp add: mask_eq_exp_minus_1)
qed

lemma bit_get_byte: "bit (get_byte v k) n \<longleftrightarrow> n < 8 \<and> bit v (8 * k + n)"
  by (auto simp: get_byte_def bit_ucast_iff bit_drop_bit_eq)

lemma bit_set_byte:
  "k < 8 \<Longrightarrow> n < 64 \<Longrightarrow>
   bit (set_byte v k b) n = (if n div 8 = k then bit b (n mod 8) else bit v n)"
proof -
  assume k: "k < 8" and n: "n < 64"
  have d: "n div 8 = k \<longleftrightarrow> 8 * k \<le> n \<and> n < 8 * k + 8"
    by auto
  have m: "n - 8 * k = n mod 8" if "n div 8 = k"
    using that by (simp add: minus_div_mult_eq_mod [symmetric] mult.commute)
  have lt: "\<not> bit b i" if "8 \<le> i" for i
    using that bit_imp_le_length [of b i] by auto
  show ?thesis
    using n by (auto simp: set_byte_def bit_or_iff bit_and_iff bit_not_iff bit_push_bit_iff
        bit_255_iff bit_ucast_iff d m lt not_less dest: bit_imp_le_length)
qed

lemma get_set_byte [simp]:
  assumes "j < 8" "k < 8"
  shows "get_byte (set_byte v k b) j = (if j = k then b else get_byte v j)"
proof (rule bit_word_eqI)
  fix n
  assume n: "n < LENGTH(8)"
  with assms have "8 * j + n < 64" by simp
  moreover from n have "(8 * j + n) div 8 = j" "(8 * j + n) mod 8 = n" by simp_all
  ultimately show "bit (get_byte (set_byte v k b) j) n = bit (if j = k then b else get_byte v j) n"
    using assms n by (simp add: bit_get_byte bit_set_byte)
qed

lemma get_byte_0 [simp]: "get_byte 0 k = 0"
  by (simp add: get_byte_def)

section \<open>Lists\<close>

lemma take_Suc_eqD:
  assumes "take (Suc i) xs = take (Suc i) ys" "i < length ys"
  shows "i < length xs" "xs ! i = ys ! i" "take i xs = take i ys"
proof -
  have "length (take (Suc i) xs) = length (take (Suc i) ys)" using assms(1) by simp
  with assms(2) show i: "i < length xs" by auto
  have "take (Suc i) xs ! i = take (Suc i) ys ! i" using assms(1) by simp
  then show "xs ! i = ys ! i" by simp
  have "take i (take (Suc i) xs) = take i (take (Suc i) ys)" using assms(1) by simp
  then show "take i xs = take i ys" by (simp add: min_def)
qed

end
