(* ===== verification/Ffi_Type.thy ===== *)
theory Ffi_Type
  imports Prelude
begin

text \<open>
  The run-time type descriptions of the bridge (\<open>te_ffi.h\<close>, \<open>te_common.h\<close>, \<open>types.c\<close>) and
  the layout computation \<open>initialize_aggregate\<close> of \<open>aa_prep_cif.c\<close>.  A descriptor is a tree:
  an aggregate points to a NULL-terminated array of element descriptors.  The C code lets
  several elements of an array share one descriptor and initialises a shared descriptor in
  place, once; the tree holds a copy per element, each initialised in the same way.
\<close>

section \<open>Type codes and descriptors\<close>

definition FFI_TYPE_VOID :: nat where "FFI_TYPE_VOID = 0"
definition FFI_TYPE_INT :: nat where "FFI_TYPE_INT = 1"
definition FFI_TYPE_FLOAT :: nat where "FFI_TYPE_FLOAT = 2"
definition FFI_TYPE_DOUBLE :: nat where "FFI_TYPE_DOUBLE = 3"
definition FFI_TYPE_UINT8 :: nat where "FFI_TYPE_UINT8 = 5"
definition FFI_TYPE_SINT8 :: nat where "FFI_TYPE_SINT8 = 6"
definition FFI_TYPE_UINT16 :: nat where "FFI_TYPE_UINT16 = 7"
definition FFI_TYPE_SINT16 :: nat where "FFI_TYPE_SINT16 = 8"
definition FFI_TYPE_UINT32 :: nat where "FFI_TYPE_UINT32 = 9"
definition FFI_TYPE_SINT32 :: nat where "FFI_TYPE_SINT32 = 10"
definition FFI_TYPE_UINT64 :: nat where "FFI_TYPE_UINT64 = 11"
definition FFI_TYPE_SINT64 :: nat where "FFI_TYPE_SINT64 = 12"
definition FFI_TYPE_STRUCT :: nat where "FFI_TYPE_STRUCT = 13"
definition FFI_TYPE_POINTER :: nat where "FFI_TYPE_POINTER = 14"
definition FFI_TYPE_COMPLEX :: nat where "FFI_TYPE_COMPLEX = 15"

lemmas ffi_code_defs =
  FFI_TYPE_VOID_def FFI_TYPE_INT_def FFI_TYPE_FLOAT_def FFI_TYPE_DOUBLE_def FFI_TYPE_UINT8_def
  FFI_TYPE_SINT8_def FFI_TYPE_UINT16_def FFI_TYPE_SINT16_def FFI_TYPE_UINT32_def
  FFI_TYPE_SINT32_def FFI_TYPE_UINT64_def FFI_TYPE_SINT64_def FFI_TYPE_STRUCT_def
  FFI_TYPE_POINTER_def FFI_TYPE_COMPLEX_def

datatype ffi_type =
  Ffi (ffi_size: u64) (ffi_alignment: u16) (ffi_code: nat) (ffi_elements: "ffi_type list option")

definition ffi_type_void :: ffi_type where "ffi_type_void = Ffi 1 1 FFI_TYPE_VOID None"
definition ffi_type_uint8 :: ffi_type where "ffi_type_uint8 = Ffi 1 1 FFI_TYPE_UINT8 None"
definition ffi_type_sint8 :: ffi_type where "ffi_type_sint8 = Ffi 1 1 FFI_TYPE_SINT8 None"
definition ffi_type_uint16 :: ffi_type where "ffi_type_uint16 = Ffi 2 2 FFI_TYPE_UINT16 None"
definition ffi_type_sint16 :: ffi_type where "ffi_type_sint16 = Ffi 2 2 FFI_TYPE_SINT16 None"
definition ffi_type_uint32 :: ffi_type where "ffi_type_uint32 = Ffi 4 4 FFI_TYPE_UINT32 None"
definition ffi_type_sint32 :: ffi_type where "ffi_type_sint32 = Ffi 4 4 FFI_TYPE_SINT32 None"
definition ffi_type_uint64 :: ffi_type where "ffi_type_uint64 = Ffi 8 8 FFI_TYPE_UINT64 None"
definition ffi_type_sint64 :: ffi_type where "ffi_type_sint64 = Ffi 8 8 FFI_TYPE_SINT64 None"
definition ffi_type_pointer :: ffi_type where "ffi_type_pointer = Ffi 8 8 FFI_TYPE_POINTER None"
definition ffi_type_float :: ffi_type where "ffi_type_float = Ffi 4 4 FFI_TYPE_FLOAT None"
definition ffi_type_double :: ffi_type where "ffi_type_double = Ffi 8 8 FFI_TYPE_DOUBLE None"

lemmas ffi_basic_defs =
  ffi_type_void_def ffi_type_uint8_def ffi_type_sint8_def ffi_type_uint16_def ffi_type_sint16_def
  ffi_type_uint32_def ffi_type_sint32_def ffi_type_uint64_def ffi_type_sint64_def
  ffi_type_pointer_def ffi_type_float_def ffi_type_double_def

section \<open>Alignment and aggregate layout\<close>

definition FFI_ALIGN :: "u64 \<Rightarrow> u64 \<Rightarrow> u64" where
  "FFI_ALIGN v a = ((v - 1) OR (a - 1)) + 1"

text \<open>
  \<open>initialize_aggregate\<close> returns the descriptor with its size and alignment filled in and
  the offsets it stores through its second argument; \<open>None\<close> is \<open>FFI_BAD_TYPEDEF\<close>.
  \<open>initialize_elements\<close> is its loop over the elements, with the running \<open>arg->size\<close> and
  \<open>arg->alignment\<close>.
\<close>

fun initialize_aggregate :: "ffi_type \<Rightarrow> (ffi_type \<times> u64 list) option"
  and initialize_elements :: "ffi_type list \<Rightarrow> u64 \<Rightarrow> u16 \<Rightarrow> (ffi_type list \<times> u64 \<times> u16 \<times> u64 list) option"
where
  "initialize_aggregate (Ffi s a t els) =
     (case els of
        None \<Rightarrow> None
      | Some ptrs \<Rightarrow>
          (case initialize_elements ptrs 0 0 of
             None \<Rightarrow> None
           | Some (ptrs', sz, alignment, offsets) \<Rightarrow>
               (let sz' = FFI_ALIGN sz (ucast alignment) in
                if sz' = 0 then None
                else Some (Ffi sz' alignment t (Some ptrs'), offsets))))"
| "initialize_elements [] sz alignment = Some ([], sz, alignment, [])"
| "initialize_elements (ptr # ptrs) sz alignment =
     (case (if ffi_size ptr = 0 then map_option fst (initialize_aggregate ptr) else Some ptr) of
        None \<Rightarrow> None
      | Some ptr' \<Rightarrow>
          (let offset = FFI_ALIGN sz (ucast (ffi_alignment ptr'));
               alignment' = (if alignment > ffi_alignment ptr' then alignment
                             else ffi_alignment ptr')
           in case initialize_elements ptrs (offset + ffi_size ptr') alignment' of
                None \<Rightarrow> None
              | Some (ptrs', sz', alignment'', offsets) \<Rightarrow>
                  Some (ptr' # ptrs', sz', alignment'', offset # offsets)))"

section \<open>What \<open>FFI_ALIGN\<close> computes\<close>

definition align_up :: "nat \<Rightarrow> nat \<Rightarrow> nat" where
  "align_up n a = (n + a - 1) div a * a"

lemma align_up_dvd [simp]: "a dvd align_up n a"
  by (simp add: align_up_def)

lemma align_up_bounds:
  assumes "0 < a"
  shows "n \<le> align_up n a" "align_up n a < n + a"
proof -
  have "(n + a - 1) div a * a + (n + a - 1) mod a = n + a - 1"
    by simp
  moreover have "(n + a - 1) mod a < a" using assms by simp
  ultimately show "n \<le> align_up n a" "align_up n a < n + a"
    unfolding align_up_def using assms by linarith+
qed

lemma align_up_least:
  assumes "0 < a" "n \<le> m" "a dvd m"
  shows "align_up n a \<le> m"
proof -
  obtain q where m: "m = a * q" using assms(3) by (elim dvdE)
  have "(n + a - 1) div a \<le> (a * q + (a - 1)) div a"
    using assms(1,2) m by (intro div_le_mono) simp
  also have "\<dots> = q" using assms(1) by (subst div_mult_self4) simp_all
  finally show ?thesis by (simp add: align_up_def m mult.commute)
qed

lemma align_up_id: "0 < a \<Longrightarrow> a dvd n \<Longrightarrow> align_up n a = n"
  using align_up_least [of a n n] align_up_bounds(1) [of a n] by simp

lemma or_mask_nat: "(n :: nat) OR mask k = n div 2 ^ k * 2 ^ k + (2 ^ k - 1)"
proof -
  have "n OR mask k = push_bit k (drop_bit k n) OR mask k"
    by (rule bit_eqI) (auto simp: bit_simps)
  also have "\<dots> = push_bit k (drop_bit k n) + mask k"
    by (rule disjunctive_add_eq_or [symmetric], rule bit_eqI) (auto simp: bit_simps)
  finally show ?thesis
    by (simp add: push_bit_eq_mult drop_bit_eq_div mask_eq_exp_minus_1)
qed

lemma FFI_ALIGN_eq_align_up:
  assumes "k < 64" and "unat v + 2 ^ k \<le> 2 ^ 64"
  shows "unat (FFI_ALIGN v (2 ^ k)) = align_up (unat v) (2 ^ k)"
proof (cases "v = 0")
  case True
  have "align_up 0 (2 ^ k) = 0"
    by (rule align_up_id) simp_all
  with True show ?thesis by (simp add: FFI_ALIGN_def)
next
  case False
  define n where "n = unat v - 1"
  have v: "unat v = Suc n" using False by (simp add: n_def unat_gt_0)
  have n: "unat (v - 1) = n"
    using False by (simp add: n_def unat_minus_one)
  have "(2 :: u64) ^ k - 1 = mask k"
    by (simp add: mask_eq_exp_minus_1)
  moreover have "unat (mask k :: u64) = mask k"
    using assms(1) by (intro bit_eqI) (auto simp: bit_unsigned_iff bit_mask_iff)
  ultimately have or: "unat ((v - 1) OR (2 ^ k - 1)) = n div 2 ^ k * 2 ^ k + (2 ^ k - 1)"
    by (simp add: unsigned_or_eq n or_mask_nat)
  have au: "align_up (unat v) (2 ^ k) = n div 2 ^ k * 2 ^ k + 2 ^ k"
  proof -
    have "Suc n + 2 ^ k - 1 = n + 2 ^ k" by simp
    then show ?thesis by (simp add: align_up_def v div_add_self2 distrib_right)
  qed
  have lt: "n div 2 ^ k * 2 ^ k + 2 ^ k < 2 ^ 64"
    using align_up_bounds(2) [of "2 ^ k" "unat v"] assms(2) au by simp
  have pos: "(2 :: nat) ^ k - 1 + 1 = 2 ^ k" by simp
  have "unat ((v - 1) OR (2 ^ k - 1)) + 1 < 2 ^ LENGTH(64)"
    using or lt pos by simp
  then have "unat (FFI_ALIGN v (2 ^ k)) = unat ((v - 1) OR (2 ^ k - 1)) + 1"
    unfolding FFI_ALIGN_def by (subst unat_add_lem [THEN iffD1]) simp_all
  also have "\<dots> = n div 2 ^ k * 2 ^ k + 2 ^ k" using or pos by simp
  finally show ?thesis using au by simp
qed

section \<open>The layout of an aggregate\<close>

definition ok_align :: "u16 \<Rightarrow> bool" where
  "ok_align a \<longleftrightarrow> (\<exists>k\<in>{0..<16}. a = 2 ^ k)"

lemma ok_alignE:
  assumes "ok_align a"
  obtains k where "k < 16" "unat a = 2 ^ k" "(ucast a :: u64) = 2 ^ k"
proof -
  from assms obtain k where k: "k < 16" "a = 2 ^ k" by (auto simp: ok_align_def)
  have "bit a n \<longleftrightarrow> n = k" for n
    using k by (auto simp: bit_exp_iff dest: bit_imp_le_length)
  then have "unat a = 2 ^ k" "(ucast a :: u64) = 2 ^ k"
    using k(1) by (auto intro!: bit_eqI simp: bit_unsigned_iff bit_exp_iff possible_bit_def)
  with k that show thesis by blast
qed

lemma ok_align_pos: "ok_align a \<Longrightarrow> 0 < unat a"
  by (erule ok_alignE) simp

lemma ok_align_dvd:
  assumes "ok_align a" "ok_align b" "unat a \<le> unat b"
  shows "unat a dvd unat b"
proof -
  obtain i where i: "unat a = 2 ^ i" using assms(1) by (rule ok_alignE)
  obtain j where j: "unat b = 2 ^ j" using assms(2) by (rule ok_alignE)
  from assms(3) i j have "i \<le> j" by simp
  with i j show ?thesis by (simp add: le_imp_power_dvd)
qed

text \<open>
  The C layout rule over unbounded numbers: every member goes to the first multiple of its
  alignment at or behind the end of the previous one.
\<close>

fun packed :: "nat \<Rightarrow> ffi_type list \<Rightarrow> nat list \<Rightarrow> nat \<Rightarrow> bool" where
  "packed start [] [] stop \<longleftrightarrow> stop = start"
| "packed start (e # es) (p # ps) stop \<longleftrightarrow>
     p = align_up start (unat (ffi_alignment e)) \<and> packed (p + unat (ffi_size e)) es ps stop"
| "packed start _ _ stop \<longleftrightarrow> False"

definition room :: "ffi_type list \<Rightarrow> nat" where
  "room es = sum_list (map (\<lambda>e. unat (ffi_size e) + unat (ffi_alignment e)) es)"

lemma room_simps [simp]:
  "room [] = 0" "room (e # es) = unat (ffi_size e) + unat (ffi_alignment e) + room es"
  by (simp_all add: room_def)

lemma FFI_ALIGN_ok_align:
  assumes "ok_align a" and "unat v + unat a \<le> 2 ^ 64"
  shows "unat (FFI_ALIGN v (ucast a)) = align_up (unat v) (unat a)"
proof -
  obtain k where "k < 16" "unat a = 2 ^ k" "(ucast a :: u64) = 2 ^ k"
    using assms(1) by (rule ok_alignE)
  with assms(2) show ?thesis
    using FFI_ALIGN_eq_align_up [of k v] by simp
qed

lemma unat_add_bounded: "unat a + unat b < 2 ^ 64 \<Longrightarrow> unat (a + b :: u64) = unat a + unat b"
  by (simp add: unat_word_ariths)

lemma initialize_elements_packed:
  assumes "initialize_elements es sz al = Some (es', sz', al', offs)"
    and "\<forall>e\<in>set es'. ok_align (ffi_alignment e)"
    and "unat sz + room es' < 2 ^ 64"
  shows "packed (unat sz) es' (map unat offs) (unat sz') \<and> length es' = length es
    \<and> unat sz' \<le> unat sz + room es'"
  using assms
proof (induction es arbitrary: sz al es' offs)
  case Nil
  then show ?case by simp
next
  case (Cons e es)
  from Cons.prems(1) obtain e' ps ofs al1 where e':
    "(if ffi_size e = 0 then map_option fst (initialize_aggregate e) else Some e) = Some e'"
    and rec: "initialize_elements es (FFI_ALIGN sz (ucast (ffi_alignment e')) + ffi_size e') al1
        = Some (ps, sz', al', ofs)"
    and es': "es' = e' # ps" and offs: "offs = FFI_ALIGN sz (ucast (ffi_alignment e')) # ofs"
    by (auto simp: Let_def split: option.splits prod.splits)
  let ?o = "FFI_ALIGN sz (ucast (ffi_alignment e'))"
  have ok: "ok_align (ffi_alignment e')" using Cons.prems(2) es' by simp
  have o: "unat ?o = align_up (unat sz) (unat (ffi_alignment e'))"
    by (rule FFI_ALIGN_ok_align [OF ok]) (use Cons.prems(3) es' in simp)
  have lt: "unat ?o < unat sz + unat (ffi_alignment e')"
    unfolding o using ok_align_pos [OF ok] by (rule align_up_bounds(2))
  have sum: "unat (?o + ffi_size e') = unat ?o + unat (ffi_size e')"
    by (rule unat_add_bounded) (use lt Cons.prems(3) es' in simp)
  have "packed (unat (?o + ffi_size e')) ps (map unat ofs) (unat sz') \<and> length ps = length es
      \<and> unat sz' \<le> unat (?o + ffi_size e') + room ps"
    by (rule Cons.IH [OF rec]) (use Cons.prems(2,3) es' sum lt in simp_all)
  with o sum lt show ?case by (simp add: es' offs)
qed

lemma initialize_elements_alignment:
  assumes "initialize_elements es sz al = Some (es', sz', al', offs)"
  shows "unat al' = fold max (map (unat \<circ> ffi_alignment) es') (unat al)"
  using assms
proof (induction es arbitrary: sz al es' offs)
  case Nil
  then show ?case by simp
next
  case (Cons e es)
  from Cons.prems obtain e' ps ofs al1 where
    rec: "initialize_elements es (FFI_ALIGN sz (ucast (ffi_alignment e')) + ffi_size e') al1
        = Some (ps, sz', al', ofs)"
    and al1: "al1 = (if al > ffi_alignment e' then al else ffi_alignment e')"
    and es': "es' = e' # ps"
    by (auto simp: Let_def split: option.splits prod.splits)
  have "unat al1 = max (unat (ffi_alignment e')) (unat al)"
    by (auto simp: al1 max_def word_less_nat_alt)
  with Cons.IH [OF rec] show ?case by (simp add: es')
qed

lemma fold_max_upper: "x \<in> set xs \<Longrightarrow> x \<le> fold max xs (a :: nat)" "a \<le> fold max xs a"
proof -
  show "x \<in> set xs \<Longrightarrow> x \<le> fold max xs (a :: nat)"
    using Max.set_eq_fold [of a xs] by (metis List.finite_set Max_ge list.set_intros(2))
  show "a \<le> fold max xs a"
    using Max.set_eq_fold [of a xs] by (metis List.finite_set Max_ge list.set_intros(1))
qed

lemma fold_max_mem: "fold max xs (a :: nat) \<in> insert a (set xs)"
  using Max.set_eq_fold [of a xs] Max_in [of "set (a # xs)"] by simp

lemma packed_order:
  assumes "packed start es ps stop" "\<forall>e\<in>set es. 0 < unat (ffi_alignment e)"
  shows "length ps = length es" "start \<le> stop"
    "i < length es \<Longrightarrow> start \<le> ps ! i \<and> unat (ffi_alignment (es ! i)) dvd ps ! i
       \<and> ps ! i + unat (ffi_size (es ! i)) \<le> stop"
    "i < j \<Longrightarrow> j < length es \<Longrightarrow> ps ! i + unat (ffi_size (es ! i)) \<le> ps ! j"
proof -
  have "length ps = length es \<and> start \<le> stop
    \<and> (\<forall>i<length es. start \<le> ps ! i \<and> unat (ffi_alignment (es ! i)) dvd ps ! i
       \<and> ps ! i + unat (ffi_size (es ! i)) \<le> stop)
    \<and> (\<forall>j<length es. \<forall>i<j. ps ! i + unat (ffi_size (es ! i)) \<le> ps ! j)"
    using assms
  proof (induction start es ps stop rule: packed.induct)
    case (2 start e es p ps stop)
    have le: "start \<le> p"
      using "2.prems" by (simp add: align_up_bounds(1))
    have IH: "length ps = length es \<and> p + unat (ffi_size e) \<le> stop
      \<and> (\<forall>i<length es. p + unat (ffi_size e) \<le> ps ! i \<and> unat (ffi_alignment (es ! i)) dvd ps ! i
         \<and> ps ! i + unat (ffi_size (es ! i)) \<le> stop)
      \<and> (\<forall>j<length es. \<forall>i<j. ps ! i + unat (ffi_size (es ! i)) \<le> ps ! j)"
      by (rule "2.IH") (use "2.prems" in auto)
    have "unat (ffi_alignment e) dvd p" using "2.prems" by simp
    with IH le show ?case by (fastforce simp: less_Suc_eq_0_disj)
  qed simp_all
  then show "length ps = length es" "start \<le> stop"
    "i < length es \<Longrightarrow> start \<le> ps ! i \<and> unat (ffi_alignment (es ! i)) dvd ps ! i
       \<and> ps ! i + unat (ffi_size (es ! i)) \<le> stop"
    "i < j \<Longrightarrow> j < length es \<Longrightarrow> ps ! i + unat (ffi_size (es ! i)) \<le> ps ! j"
    by blast+
qed

lemma initialize_aggregate_elements:
  assumes "initialize_aggregate ty = Some (ty', offs)"
  obtains es es' sz where "ffi_elements ty = Some es" "ffi_elements ty' = Some es'"
    "initialize_elements es 0 0 = Some (es', sz, ffi_alignment ty', offs)"
    "ffi_size ty' = FFI_ALIGN sz (ucast (ffi_alignment ty'))" "ffi_size ty' \<noteq> 0"
    "ffi_code ty' = ffi_code ty"
  using assms by (cases ty) (auto simp: Let_def split: option.splits prod.splits if_splits)

lemma initialize_aggregate_max_alignment:
  assumes "initialize_aggregate ty = Some (ty', offs)" "ffi_elements ty' = Some es'"
    and "\<forall>e\<in>set es'. ok_align (ffi_alignment e)"
  shows "ok_align (ffi_alignment ty')" "\<forall>e\<in>set es'. ffi_alignment e \<le> ffi_alignment ty'"
proof -
  from assms(1,2) obtain es sz where el: "initialize_elements es 0 0 = Some (es', sz, ffi_alignment ty', offs)"
    and nz: "ffi_size ty' = FFI_ALIGN sz (ucast (ffi_alignment ty'))" "ffi_size ty' \<noteq> 0"
    by (auto elim: initialize_aggregate_elements)
  have al: "unat (ffi_alignment ty') = fold max (map (unat \<circ> ffi_alignment) es') 0"
    using initialize_elements_alignment [OF el] by simp
  have "ffi_alignment ty' \<noteq> 0"
    using nz by (auto simp: FFI_ALIGN_def)
  with al fold_max_mem [of "map (unat \<circ> ffi_alignment) es'" 0]
  obtain e where "e \<in> set es'" "unat (ffi_alignment ty') = unat (ffi_alignment e)"
    by (auto simp: unsigned_eq_0_iff)
  with assms(3) show "ok_align (ffi_alignment ty')"
    by (simp add: word_unat_eq_iff [symmetric])
  show "\<forall>e\<in>set es'. ffi_alignment e \<le> ffi_alignment ty'"
    using al fold_max_upper(1) [of _ "map (unat \<circ> ffi_alignment) es'" 0]
    by (auto simp: word_le_nat_alt)
qed


text \<open>Witness: \<open>struct { char c; double d; short s; }\<close>.\<close>

definition wit_struct :: ffi_type where
  "wit_struct = Ffi 0 0 FFI_TYPE_STRUCT (Some [ffi_type_sint8, ffi_type_double, ffi_type_sint16])"

lemma wit_struct_init:
  "initialize_aggregate wit_struct =
     Some (Ffi 24 8 FFI_TYPE_STRUCT (Some [ffi_type_sint8, ffi_type_double, ffi_type_sint16]), [0, 8, 16])"
  by (simp add: wit_struct_def ffi_basic_defs FFI_ALIGN_def)

lemma ok_align_numeral [simp]: "ok_align 1" "ok_align 2" "ok_align 4" "ok_align 8"
proof -
  have "(2 :: u16) ^ k = 2 ^ k" for k by simp
  show "ok_align 1" unfolding ok_align_def by (rule bexI [of _ 0]) simp_all
  show "ok_align 2" unfolding ok_align_def by (rule bexI [of _ 1]) simp_all
  show "ok_align 4" unfolding ok_align_def by (rule bexI [of _ 2]) simp_all
  show "ok_align 8" unfolding ok_align_def by (rule bexI [of _ 3]) simp_all
qed


end
