(* ===== verification/Abi_ArgInfo.thy ===== *)
theory Abi_ArgInfo
  imports Prelude
begin

text \<open>
  \<open>include/tcg/ABIArgInfo.h\<close> and the register enumerations \<open>aa_reg.h\<close>, \<open>xx_reg.h\<close>: where one
  argument or return value of a bridged call lives.  The eight bytes of \<open>ABIArgInfo.val\<close>
  are a C union in disguise: four (register, location info) byte pairs when the argument is
  in registers, a 32-bit stack offset and a 32-bit location info when it is in memory.
\<close>

section \<open>Register and flag enumerations\<close>

definition NoRegister :: nat where "NoRegister = 0"
definition TE_S :: "nat \<Rightarrow> nat" where "TE_S i = 1 + i"
definition TE_D :: "nat \<Rightarrow> nat" where "TE_D i = 9 + i"
definition TE_Q :: "nat \<Rightarrow> nat" where "TE_Q i = 17 + i"
definition TE_W :: "nat \<Rightarrow> nat" where "TE_W i = 25 + i"
definition TE_X :: "nat \<Rightarrow> nat" where "TE_X i = 33 + i"

definition xNoRegister :: nat where "xNoRegister = 0"
definition TE_RAX :: nat where "TE_RAX = 1"
definition TE_EAX :: nat where "TE_EAX = 2"
definition TE_AX :: nat where "TE_AX = 3"
definition TE_AL :: nat where "TE_AL = 4"
definition TE_RDI :: nat where "TE_RDI = 5"
definition TE_EDI :: nat where "TE_EDI = 6"
definition TE_RSI :: nat where "TE_RSI = 7"
definition TE_ESI :: nat where "TE_ESI = 8"
definition TE_RDX :: nat where "TE_RDX = 9"
definition TE_EDX :: nat where "TE_EDX = 10"
definition TE_DL :: nat where "TE_DL = 11"
definition TE_RCX :: nat where "TE_RCX = 12"
definition TE_ECX :: nat where "TE_ECX = 13"
definition TE_R8 :: nat where "TE_R8 = 14"
definition TE_R8D :: nat where "TE_R8D = 15"
definition TE_R9 :: nat where "TE_R9 = 16"
definition TE_R9D :: nat where "TE_R9D = 17"
definition TE_XMM :: "nat \<Rightarrow> nat" where "TE_XMM i = 18 + i"
definition TE_ST :: "nat \<Rightarrow> nat" where "TE_ST i = 26 + i"

lemmas te_reg_defs =
  NoRegister_def TE_S_def TE_D_def TE_Q_def TE_W_def TE_X_def
  xNoRegister_def TE_RAX_def TE_EAX_def TE_AX_def TE_AL_def TE_RDI_def TE_EDI_def TE_RSI_def
  TE_ESI_def TE_RDX_def TE_EDX_def TE_DL_def TE_RCX_def TE_ECX_def TE_R8_def TE_R8D_def
  TE_R9_def TE_R9D_def TE_XMM_def TE_ST_def

definition TE_MAX_REGS_FOR_ONE_ARG :: nat where "TE_MAX_REGS_FOR_ONE_ARG = 4"

definition TE_MASK_INDIRECT :: u32 where "TE_MASK_INDIRECT = 1"
definition TE_MASK_ISMEM :: u32 where "TE_MASK_ISMEM = 2"
definition TE_MASK_CALLBACK :: u32 where "TE_MASK_CALLBACK = 4"
definition TE_MASK_BLOCK :: u32 where "TE_MASK_BLOCK = 8"
definition TE_MASK_STFP :: u32 where "TE_MASK_STFP = 16"

lemmas te_mask_defs =
  TE_MASK_INDIRECT_def TE_MASK_ISMEM_def TE_MASK_CALLBACK_def TE_MASK_BLOCK_def TE_MASK_STFP_def

definition TE_NO_LOC_INFO :: nat where "TE_NO_LOC_INFO = 0"
definition TE_Full :: nat where "TE_Full = 1"
definition TE_BCvt :: nat where "TE_BCvt = 2"
definition TE_AExt :: nat where "TE_AExt = 3"
definition TE_SExt8_32 :: nat where "TE_SExt8_32 = 4"
definition TE_SExt16_32 :: nat where "TE_SExt16_32 = 5"
definition TE_ZExt8_32 :: nat where "TE_ZExt8_32 = 6"
definition TE_ZExt16_32 :: nat where "TE_ZExt16_32 = 7"

lemmas te_loc_defs =
  TE_NO_LOC_INFO_def TE_Full_def TE_BCvt_def TE_AExt_def
  TE_SExt8_32_def TE_SExt16_32_def TE_ZExt8_32_def TE_ZExt16_32_def

section \<open>One argument\<close>

record ABIArgInfo =
  ai_val :: u64
  ai_size :: u32
  ai_mask :: u32

definition te_is_mem :: "ABIArgInfo \<Rightarrow> bool" where
  "te_is_mem x = (ai_mask x AND TE_MASK_ISMEM \<noteq> 0)"

definition te_is_indirect :: "ABIArgInfo \<Rightarrow> bool" where
  "te_is_indirect x = (ai_mask x AND TE_MASK_INDIRECT \<noteq> 0)"

definition te_is_block :: "ABIArgInfo \<Rightarrow> bool" where
  "te_is_block x = (ai_mask x AND TE_MASK_BLOCK \<noteq> 0)"

definition te_is_callback :: "ABIArgInfo \<Rightarrow> bool" where
  "te_is_callback x = (ai_mask x AND TE_MASK_CALLBACK \<noteq> 0)"

definition te_is_stfp :: "ABIArgInfo \<Rightarrow> bool" where
  "te_is_stfp x = (ai_mask x AND TE_MASK_STFP \<noteq> 0)"

text \<open>
  The loop of \<open>te_num_of_reg\<close> reads the half-word \<open>reg[cnt]\<close> before it tests the bound, so
  with four registers in use it also reads the half-word behind \<open>val\<close>, which is the low
  half of the field \<open>size\<close>.  \<open>te_half\<close> is that read.
\<close>

definition te_half :: "ABIArgInfo \<Rightarrow> nat \<Rightarrow> u16" where
  "te_half x k =
     (if k < 4 then ucast (drop_bit (16 * k) (ai_val x)) else ucast (ai_size x))"

function te_num_of_reg_loop :: "ABIArgInfo \<Rightarrow> nat \<Rightarrow> nat" where
  "te_num_of_reg_loop x cnt =
     (if te_half x cnt \<noteq> 0 \<and> cnt < TE_MAX_REGS_FOR_ONE_ARG
      then te_num_of_reg_loop x (cnt + 1) else cnt)"
  by pat_completeness auto
termination
  by (relation "measure (\<lambda>(x, cnt). TE_MAX_REGS_FOR_ONE_ARG - cnt)") auto

declare te_num_of_reg_loop.simps [simp del]

definition te_num_of_reg :: "ABIArgInfo \<Rightarrow> nat" where
  "te_num_of_reg x = te_num_of_reg_loop x 0"

definition te_get_reg_locinfo :: "ABIArgInfo \<Rightarrow> nat \<Rightarrow> nat" where
  "te_get_reg_locinfo x idx = unat (get_byte (ai_val x) (idx * 2 + 1))"

definition te_get_reg :: "ABIArgInfo \<Rightarrow> nat \<Rightarrow> nat result" where
  "te_get_reg x idx =
     bindR (assertR (idx < TE_MAX_REGS_FOR_ONE_ARG)) (\<lambda>_.
     Inr (unat (get_byte (ai_val x) (idx * 2))))"

definition te_set_reg :: "ABIArgInfo \<Rightarrow> nat \<Rightarrow> nat \<Rightarrow> nat \<Rightarrow> ABIArgInfo result" where
  "te_set_reg x idx v info =
     bindR (assertR (idx < TE_MAX_REGS_FOR_ONE_ARG)) (\<lambda>_.
     Inr (x\<lparr>ai_val := set_byte (set_byte (ai_val x) (idx * 2) (of_nat v))
                               (idx * 2 + 1) (of_nat info)\<rparr>))"

definition te_get_mem_locinfo :: "ABIArgInfo \<Rightarrow> nat" where
  "te_get_mem_locinfo x = unat (ucast (drop_bit 32 (ai_val x)) :: u32)"

definition te_get_mem :: "ABIArgInfo \<Rightarrow> u32" where
  "te_get_mem x = ucast (ai_val x)"

definition te_set_mem :: "ABIArgInfo \<Rightarrow> u64 \<Rightarrow> nat \<Rightarrow> ABIArgInfo" where
  "te_set_mem x v info =
     x\<lparr>ai_val := ucast (ucast v :: u32) OR push_bit 32 (ucast (of_nat info :: u32))\<rparr>"

definition te_get_arg_size :: "ABIArgInfo \<Rightarrow> u32" where
  "te_get_arg_size x = ai_size x"

definition te_set_arg_size :: "ABIArgInfo \<Rightarrow> u64 \<Rightarrow> ABIArgInfo" where
  "te_set_arg_size x v = x\<lparr>ai_size := ucast v\<rparr>"

definition te_or_mask :: "ABIArgInfo \<Rightarrow> u32 \<Rightarrow> ABIArgInfo" where
  "te_or_mask x m = x\<lparr>ai_mask := ai_mask x OR m\<rparr>"

definition zeroArgInfo :: ABIArgInfo where
  "zeroArgInfo = \<lparr>ai_val = 0, ai_size = 0, ai_mask = 0\<rparr>"

section \<open>A whole signature\<close>

record ABIFnInfo =
  fi_ainfo :: "ABIArgInfo list"
  fi_rinfo :: ABIArgInfo
  fi_nargs :: nat
  fi_bytes :: u32
  fi_ssecount :: nat
  fi_isCxxStructor :: bool
  fi_variadic :: bool

text \<open>
  The loops \<open>for (idxElem = 0; idxElem < elems; ++idxElem) te_set_reg(...)\<close> of the two
  classifiers write a run of registers, all with the same location info.
\<close>

fun te_set_regs :: "ABIArgInfo \<Rightarrow> nat \<Rightarrow> nat list \<Rightarrow> nat \<Rightarrow> ABIArgInfo result" where
  "te_set_regs x idx [] info = Inr x"
| "te_set_regs x idx (r # rs) info =
     bindR (te_set_reg x idx r info) (\<lambda>x'. te_set_regs x' (idx + 1) rs info)"

section \<open>The register slots as an interface\<close>

text \<open>
  What the classifiers (writers) and the marshalling code (reader) rely on: a write changes
  its own slot only, an index past the last slot aborts, and a slot reads as empty exactly
  when nothing was written to it.
\<close>

locale reg_slots =
  fixes getr :: "'s \<Rightarrow> nat \<Rightarrow> nat result"
    and getl :: "'s \<Rightarrow> nat \<Rightarrow> nat"
    and setr :: "'s \<Rightarrow> nat \<Rightarrow> nat \<Rightarrow> nat \<Rightarrow> 's result"
    and slots :: nat
  assumes set_ok: "i < slots \<Longrightarrow> \<exists>x'. setr x i r l = Inr x'"
    and set_bad: "\<not> i < slots \<Longrightarrow> setr x i r l = Inl Abort"
    and get_bad: "\<not> i < slots \<Longrightarrow> getr x i = Inl Abort"
    and get_set: "setr x i r l = Inr x' \<Longrightarrow> r < 256 \<Longrightarrow> j < slots \<Longrightarrow>
      getr x' j = (if j = i then Inr r else getr x j)"
    and getl_set: "setr x i r l = Inr x' \<Longrightarrow> l < 256 \<Longrightarrow> j < slots \<Longrightarrow>
      getl x' j = (if j = i then l else getl x j)"
begin

fun set_run :: "'s \<Rightarrow> nat \<Rightarrow> nat list \<Rightarrow> nat \<Rightarrow> 's result" where
  "set_run x i [] l = Inr x"
| "set_run x i (r # rs) l = bindR (setr x i r l) (\<lambda>x'. set_run x' (i + 1) rs l)"

lemma set_run_ok: "i + length rs \<le> slots \<Longrightarrow> \<exists>x'. set_run x i rs l = Inr x'"
proof (induction rs arbitrary: x i)
  case Nil
  show ?case by simp
next
  case (Cons r rs)
  then obtain x1 where "setr x i r l = Inr x1"
    using set_ok [of i x r l] by auto
  with Cons show ?case by auto
qed

lemma set_run_Inr_bound:
  "set_run x i rs l = Inr x' \<Longrightarrow> rs \<noteq> [] \<Longrightarrow> i + length rs \<le> slots"
proof (induction rs arbitrary: x i)
  case Nil
  then show ?case by simp
next
  case (Cons r rs)
  then obtain x1 where x1: "setr x i r l = Inr x1" "set_run x1 (i + 1) rs l = Inr x'"
    by auto
  then have "i < slots"
    using set_bad [of i x r l] by (cases "i < slots") auto
  with Cons.IH [OF x1(2)] show ?case by (cases rs) auto
qed

lemma get_set_run:
  assumes "set_run x i rs l = Inr x'" "list_all (\<lambda>r. r < 256) rs" "j < slots"
  shows "getr x' j = (if i \<le> j \<and> j < i + length rs then Inr (rs ! (j - i)) else getr x j)"
  using assms
proof (induction rs arbitrary: x i)
  case Nil
  then show ?case by auto
next
  case (Cons r rs)
  then obtain x1 where x1: "setr x i r l = Inr x1" "set_run x1 (i + 1) rs l = Inr x'"
    by auto
  have "getr x' j = (if i + 1 \<le> j \<and> j < i + 1 + length rs then Inr (rs ! (j - (i + 1))) else getr x1 j)"
    using Cons.IH [OF x1(2)] Cons.prems by simp
  moreover have "getr x1 j = (if j = i then Inr r else getr x j)"
    using get_set [OF x1(1)] Cons.prems by simp
  ultimately show ?case
    by (auto simp: nth_Cons')
qed

lemma getl_set_run:
  assumes "set_run x i rs l = Inr x'" "l < 256" "j < slots"
  shows "getl x' j = (if i \<le> j \<and> j < i + length rs then l else getl x j)"
  using assms
proof (induction rs arbitrary: x i)
  case Nil
  then show ?case by auto
next
  case (Cons r rs)
  then obtain x1 where x1: "setr x i r l = Inr x1" "set_run x1 (i + 1) rs l = Inr x'"
    by auto
  have "getl x' j = (if i + 1 \<le> j \<and> j < i + 1 + length rs then l else getl x1 j)"
    using Cons.IH [OF x1(2)] Cons.prems by simp
  moreover have "getl x1 j = (if j = i then l else getl x j)"
    using getl_set [OF x1(1)] Cons.prems by simp
  ultimately show ?case by auto
qed

end

lemma te_set_reg_Inr:
  "te_set_reg x i r l = Inr x' \<longleftrightarrow>
   i < 4 \<and> x' = x\<lparr>ai_val := set_byte (set_byte (ai_val x) (i * 2) (of_nat r)) (i * 2 + 1) (of_nat l)\<rparr>"
  by (auto simp: te_set_reg_def bindR_Inr_iff TE_MAX_REGS_FOR_ONE_ARG_def)

lemma unat_of_nat_u8: "n < 256 \<Longrightarrow> unat (of_nat n :: u8) = n"
  by (simp add: unat_of_nat take_bit_nat_eq_self)

interpretation argregs: reg_slots te_get_reg te_get_reg_locinfo te_set_reg TE_MAX_REGS_FOR_ONE_ARG
proof unfold_locales
  fix i x r l
  show "i < TE_MAX_REGS_FOR_ONE_ARG \<Longrightarrow> \<exists>x'. te_set_reg x i r l = Inr x'"
    by (simp add: te_set_reg_def)
  show "\<not> i < TE_MAX_REGS_FOR_ONE_ARG \<Longrightarrow> te_set_reg x i r l = Inl Abort"
    by (simp add: te_set_reg_def)
  show "\<not> i < TE_MAX_REGS_FOR_ONE_ARG \<Longrightarrow> te_get_reg x i = Inl Abort"
    by (simp add: te_get_reg_def)
next
  fix x i r l x' j
  assume s: "te_set_reg x i r l = Inr x'" and j: "j < TE_MAX_REGS_FOR_ONE_ARG"
  have ij: "i < 4" "j < 4"
    using s j by (simp_all add: te_set_reg_Inr TE_MAX_REGS_FOR_ONE_ARG_def)
  have odd: "j * 2 \<noteq> i * 2 + 1" "j * 2 + 1 \<noteq> i * 2"
    by presburger+
  show "te_get_reg x' j = (if j = i then Inr r else te_get_reg x j)" if "r < 256"
    using s that j ij odd by (auto simp: te_set_reg_Inr te_get_reg_def unat_of_nat_u8)
  show "te_get_reg_locinfo x' j = (if j = i then l else te_get_reg_locinfo x j)" if "l < 256"
    using s that ij odd by (auto simp: te_set_reg_Inr te_get_reg_locinfo_def unat_of_nat_u8)
qed

lemma te_set_regs_run: "te_set_regs x i rs l = argregs.set_run x i rs l"
  by (induction x i rs l rule: te_set_regs.induct) (auto simp: bindR_def split: sum.splits)

lemma te_set_regs_frame:
  "te_set_regs x i rs l = Inr x' \<Longrightarrow> ai_size x' = ai_size x \<and> ai_mask x' = ai_mask x"
  by (induction x i rs l rule: te_set_regs.induct) (auto simp: te_set_reg_Inr)

section \<open>Counting the registers of an argument\<close>

lemma te_half_eq_0_iff:
  assumes "k < 4"
  shows "te_half x k = 0 \<longleftrightarrow> get_byte (ai_val x) (2 * k) = 0 \<and> get_byte (ai_val x) (2 * k + 1) = 0"
    (is "?L \<longleftrightarrow> ?R")
proof
  have eq: "bit (te_half x k) n \<longleftrightarrow> n < 16 \<and> bit (ai_val x) (16 * k + n)" for n
    using assms by (auto simp: te_half_def bit_ucast_iff bit_drop_bit_eq)
  show ?R if ?L
  proof -
    from that have *: "\<not> (n < 16 \<and> bit (ai_val x) (16 * k + n))" for n
      using eq [of n] by simp
    show ?thesis
    proof (intro conjI bit_word_eqI)
      fix n assume n: "n < LENGTH(8)"
      show "bit (get_byte (ai_val x) (2 * k)) n = bit (0 :: u8) n"
        using * [of n] n by (simp add: bit_get_byte)
      show "bit (get_byte (ai_val x) (2 * k + 1)) n = bit (0 :: u8) n"
        using * [of "8 + n"] n by (simp add: bit_get_byte ac_simps)
    qed
  qed
  show ?L if r: ?R
  proof (rule bit_word_eqI)
    fix n assume n: "n < LENGTH(16)"
    have lo: "\<not> bit (ai_val x) (8 * (2 * k) + m)" if "m < 8" for m
      using r that bit_get_byte [of "ai_val x" "2 * k" m] by simp
    have hi: "\<not> bit (ai_val x) (8 * (2 * k + 1) + m)" if "m < 8" for m
      using r that bit_get_byte [of "ai_val x" "2 * k + 1" m] by simp
    have "\<not> bit (ai_val x) (16 * k + n)"
    proof (cases "n < 8")
      case True
      then show ?thesis using lo [of n] by simp
    next
      case False
      then have "8 * (2 * k + 1) + (n - 8) = 16 * k + n" "n - 8 < 8"
        using n by simp_all
      then show ?thesis using hi [of "n - 8"] by metis
    qed
    then show "bit (te_half x k) n = bit 0 n"
      by (simp add: eq)
  qed
qed

lemma te_num_of_reg_loop_run:
  assumes "\<And>j. i \<le> j \<Longrightarrow> j < n \<Longrightarrow> te_half x j \<noteq> 0"
    and "n < 4 \<Longrightarrow> te_half x n = 0" and "i \<le> n" "n \<le> 4"
  shows "te_num_of_reg_loop x i = n"
  using assms
proof (induction "n - i" arbitrary: i)
  case 0
  then show ?case
    by (subst te_num_of_reg_loop.simps) (auto simp: TE_MAX_REGS_FOR_ONE_ARG_def)
next
  case (Suc d)
  then have "te_num_of_reg_loop x (i + 1) = n" and "te_half x i \<noteq> 0" and "i < 4"
    by auto
  then show ?case
    by (subst te_num_of_reg_loop.simps) (simp add: TE_MAX_REGS_FOR_ONE_ARG_def)
qed

lemma te_half_set_regs:
  assumes "te_set_regs x 0 rs l = Inr x'" "list_all (\<lambda>r. 0 < r \<and> r < 256) rs" "l < 256"
    "ai_val x = 0" "j < 4"
  shows "te_half x' j \<noteq> 0 \<longleftrightarrow> j < length rs"
proof -
  have run: "argregs.set_run x 0 rs l = Inr x'"
    using assms(1) by (simp add: te_set_regs_run)
  have j: "j < TE_MAX_REGS_FOR_ONE_ARG"
    using assms(5) by (simp add: TE_MAX_REGS_FOR_ONE_ARG_def)
  have r: "te_get_reg x' j = (if j < length rs then Inr (rs ! j) else te_get_reg x j)"
    using argregs.get_set_run [OF run _ j] assms(2) by (auto simp: list_all_iff)
  have l: "te_get_reg_locinfo x' j = (if j < length rs then l else te_get_reg_locinfo x j)"
    using argregs.getl_set_run [OF run assms(3) j] by simp
  show ?thesis
  proof (cases "j < length rs")
    case True
    then have "0 < rs ! j" using assms(2) by (simp add: list_all_length)
    with True r j have "get_byte (ai_val x') (2 * j) \<noteq> 0"
      by (auto simp: te_get_reg_def mult.commute)
    with True show ?thesis using assms(5) by (simp add: te_half_eq_0_iff)
  next
    case False
    with r l j assms(4) have "get_byte (ai_val x') (2 * j) = 0" "get_byte (ai_val x') (2 * j + 1) = 0"
      by (auto simp: te_get_reg_def te_get_reg_locinfo_def mult.commute unsigned_eq_0_iff)
    with False show ?thesis using assms(5) by (simp add: te_half_eq_0_iff)
  qed
qed

lemma te_num_of_reg_set_regs:
  assumes "te_set_regs x 0 rs l = Inr x'" "list_all (\<lambda>r. 0 < r \<and> r < 256) rs" "l < 256"
    "ai_val x = 0"
  shows "te_num_of_reg x' = length rs"
proof -
  have len: "length rs \<le> 4"
    using argregs.set_run_Inr_bound [of x 0 rs l x'] assms(1)
    by (cases "rs = []") (auto simp: te_set_regs_run TE_MAX_REGS_FOR_ONE_ARG_def)
  show ?thesis
    unfolding te_num_of_reg_def
    by (rule te_num_of_reg_loop_run)
      (use len te_half_set_regs [OF assms] in auto)
qed

lemma te_get_reg_set_regs:
  assumes "te_set_regs x 0 rs l = Inr x'" "list_all (\<lambda>r. 0 < r \<and> r < 256) rs" "j < length rs"
  shows "te_get_reg x' j = Inr (rs ! j)"
proof -
  have run: "argregs.set_run x 0 rs l = Inr x'"
    using assms(1) by (simp add: te_set_regs_run)
  have "length rs \<le> TE_MAX_REGS_FOR_ONE_ARG"
    using argregs.set_run_Inr_bound [OF run] by (cases "rs = []") auto
  with assms(3) have "j < TE_MAX_REGS_FOR_ONE_ARG" by simp
  from argregs.get_set_run [OF run _ this] assms(2,3) show ?thesis
    by (auto simp: list_all_iff)
qed

section \<open>Memory locations and masks\<close>

lemma te_get_set_mem:
  "te_get_mem (te_set_mem x v info) = ucast v"
  "info < 2 ^ 32 \<Longrightarrow> te_get_mem_locinfo (te_set_mem x v info) = info"
proof -
  show "te_get_mem (te_set_mem x v info) = ucast v"
    by (rule bit_word_eqI)
      (auto simp: te_get_mem_def te_set_mem_def bit_ucast_iff bit_or_iff bit_push_bit_iff)
  have "(ucast (drop_bit 32 (ai_val (te_set_mem x v info))) :: u32) = of_nat info"
    by (rule bit_word_eqI)
      (auto simp: te_set_mem_def bit_ucast_iff bit_or_iff bit_push_bit_iff bit_drop_bit_eq)
  then show "info < 2 ^ 32 \<Longrightarrow> te_get_mem_locinfo (te_set_mem x v info) = info"
    by (simp add: te_get_mem_locinfo_def unat_of_nat take_bit_nat_eq_self)
qed

lemma te_set_mem_frame [simp]:
  "ai_size (te_set_mem x v info) = ai_size x" "ai_mask (te_set_mem x v info) = ai_mask x"
  by (simp_all add: te_set_mem_def)

lemma te_set_arg_size_frame [simp]:
  "ai_val (te_set_arg_size x v) = ai_val x" "ai_mask (te_set_arg_size x v) = ai_mask x"
  "ai_size (te_set_arg_size x v) = ucast v"
  by (simp_all add: te_set_arg_size_def)

lemma te_or_mask_frame [simp]:
  "ai_val (te_or_mask x m) = ai_val x" "ai_size (te_or_mask x m) = ai_size x"
  "ai_mask (te_or_mask x m) = ai_mask x OR m"
  by (simp_all add: te_or_mask_def)

end
