(* ===== verification/Aa_Cif.thy ===== *)
theory Aa_Cif
  imports Ffi_Type Abi_ArgInfo
begin

text \<open>
  \<open>tcg/abibridge/type-encoding/aa_prep_cif.c\<close>: where the arguments and the result of a call
  live under Apple's variant of the AArch64 procedure call standard.  The file is compiled
  with \<open>__APPLE__\<close> defined and \<open>_M_ARM64\<close> undefined; inside it \<open>FFI_TYPE_LONGDOUBLE\<close> is the
  separate code 4.  The \<open>ABIFnInfo *\<close> argument may be NULL, which is \<open>None\<close> here.
\<close>

section \<open>Constants\<close>

definition FFI_TYPE_LONGDOUBLE :: nat where "FFI_TYPE_LONGDOUBLE = 4"

definition AARCH64_RET_VOID :: nat where "AARCH64_RET_VOID = 0"
definition AARCH64_RET_INT64 :: nat where "AARCH64_RET_INT64 = 1"
definition AARCH64_RET_INT128 :: nat where "AARCH64_RET_INT128 = 2"
definition AARCH64_RET_S4 :: nat where "AARCH64_RET_S4 = 8"
definition AARCH64_RET_D4 :: nat where "AARCH64_RET_D4 = 12"
definition AARCH64_RET_Q4 :: nat where "AARCH64_RET_Q4 = 16"
definition AARCH64_RET_UINT8 :: nat where "AARCH64_RET_UINT8 = 20"
definition AARCH64_RET_UINT16 :: nat where "AARCH64_RET_UINT16 = 22"
definition AARCH64_RET_UINT32 :: nat where "AARCH64_RET_UINT32 = 24"
definition AARCH64_RET_SINT8 :: nat where "AARCH64_RET_SINT8 = 26"
definition AARCH64_RET_SINT16 :: nat where "AARCH64_RET_SINT16 = 28"
definition AARCH64_RET_SINT32 :: nat where "AARCH64_RET_SINT32 = 30"
definition AARCH64_RET_IN_MEM :: nat where "AARCH64_RET_IN_MEM = 32"
definition N_X_ARG_REG :: nat where "N_X_ARG_REG = 8"
definition N_V_ARG_REG :: nat where "N_V_ARG_REG = 8"

lemmas aa_const_defs =
  FFI_TYPE_LONGDOUBLE_def AARCH64_RET_VOID_def AARCH64_RET_INT64_def AARCH64_RET_INT128_def
  AARCH64_RET_S4_def AARCH64_RET_D4_def AARCH64_RET_Q4_def AARCH64_RET_UINT8_def
  AARCH64_RET_UINT16_def AARCH64_RET_UINT32_def AARCH64_RET_SINT8_def AARCH64_RET_SINT16_def
  AARCH64_RET_SINT32_def AARCH64_RET_IN_MEM_def N_X_ARG_REG_def N_V_ARG_REG_def

definition fakeLocInfo :: nat where "fakeLocInfo = TE_NO_LOC_INFO"

definition STACK_ARG_SIZE :: "u64 \<Rightarrow> u64" where
  "STACK_ARG_SIZE x = FFI_ALIGN x 8"

record aa_fi_cif =
  aa_abi :: nat
  aa_nargs :: nat
  aa_arg_types :: "ffi_type list"
  aa_rtype :: ffi_type
  aa_bytes :: u32
  aa_flags :: nat
  aa_nfixedargs :: nat

definition AA_FI_SYSV :: nat where "AA_FI_SYSV = 1"

section \<open>Homogeneous floating-point aggregates\<close>

definition is_aggr :: "nat \<Rightarrow> bool" where
  "is_aggr t \<longleftrightarrow> t = FFI_TYPE_STRUCT \<or> t = FFI_TYPE_COMPLEX"

definition is_fp :: "nat \<Rightarrow> bool" where
  "is_fp t \<longleftrightarrow> t = FFI_TYPE_FLOAT \<or> t = FFI_TYPE_DOUBLE \<or> t = FFI_TYPE_LONGDOUBLE"

fun is_hfa0 :: "ffi_type \<Rightarrow> int" and is_hfa0_loop :: "ffi_type list \<Rightarrow> int \<Rightarrow> int" where
  "is_hfa0 (Ffi s a t els) = (case els of None \<Rightarrow> -1 | Some es \<Rightarrow> is_hfa0_loop es (-1))"
| "is_hfa0_loop [] ret = ret"
| "is_hfa0_loop (e # es) ret =
     (if is_aggr (ffi_code e)
      then (if is_hfa0 e < 0 then is_hfa0_loop es (is_hfa0 e) else is_hfa0 e)
      else int (ffi_code e))"

fun is_hfa1 :: "ffi_type \<Rightarrow> nat \<Rightarrow> bool" and is_hfa1_loop :: "ffi_type list \<Rightarrow> nat \<Rightarrow> bool" where
  "is_hfa1 (Ffi s a t els) candidate =
     (case els of None \<Rightarrow> True | Some es \<Rightarrow> is_hfa1_loop es candidate)"
| "is_hfa1_loop [] candidate = True"
| "is_hfa1_loop (e # es) candidate =
     (if is_aggr (ffi_code e)
      then (if \<not> is_hfa1 e candidate then False else is_hfa1_loop es candidate)
      else if ffi_code e \<noteq> candidate then False else is_hfa1_loop es candidate)"

text \<open>
  The loop \<open>for (i = 0;; ++i)\<close> of \<open>is_vfp_type\<close> that looks for the first scalar has no bound:
  at the NULL terminator it would dereference NULL.
\<close>

fun first_candidate :: "ffi_type list \<Rightarrow> nat result" where
  "first_candidate [] = Inl Undefined"
| "first_candidate (e # es) = (if is_hfa0 e \<ge> 0 then Inr (nat (is_hfa0 e)) else first_candidate es)"

definition fp_size :: "nat \<Rightarrow> u64" where
  "fp_size c = (if c = FFI_TYPE_FLOAT then 4 else if c = FFI_TYPE_DOUBLE then 8 else 16)"

definition is_vfp_type :: "ffi_type \<Rightarrow> nat result" where
  "is_vfp_type ty =
     (if is_fp (ffi_code ty) then Inr (ffi_code ty * 4 + (4 - 1))
      else if ffi_code ty = FFI_TYPE_COMPLEX then
        (case ffi_elements ty of
           Some (e # _) \<Rightarrow>
             (if is_fp (ffi_code e) then Inr (ffi_code e * 4 + (4 - 2)) else Inr 0)
         | _ \<Rightarrow> Inl Undefined)
      else if ffi_code ty \<noteq> FFI_TYPE_STRUCT then Inr 0
      else if ffi_size ty < 4 \<or> ffi_size ty > 64 then Inr 0
      else (case ffi_elements ty of
          Some (e # es) \<Rightarrow>
            bindR (if is_aggr (ffi_code e) then first_candidate (e # es) else Inr (ffi_code e))
              (\<lambda>candidate.
                if \<not> is_fp candidate then Inr 0
                else
                  (let ele_count = ffi_size ty div fp_size candidate in
                   if ffi_size ty \<noteq> ele_count * fp_size candidate then Inr 0
                   else if ele_count > 4 then Inr 0
                   else if \<not> is_hfa1_loop (e # es) candidate then Inr 0
                   else Inr (candidate * 4 + (4 - unat ele_count))))
        | _ \<Rightarrow> Inl Undefined))"

section \<open>Placing arguments and the result\<close>

text \<open>
  \<open>fn_arg_upd\<close> is a write to \<open>fnInfo->ainfo[i]\<close> guarded by \<open>if (fnInfo)\<close>; \<open>fn_ret_upd\<close> the
  same for \<open>fnInfo->rinfo\<close>.
\<close>

definition fn_arg_upd ::
  "ABIFnInfo option \<Rightarrow> nat \<Rightarrow> (ABIArgInfo \<Rightarrow> ABIArgInfo result) \<Rightarrow> ABIFnInfo option result" where
  "fn_arg_upd fnInfo i f =
     (case fnInfo of
        None \<Rightarrow> Inr None
      | Some fn \<Rightarrow>
          if i < length (fi_ainfo fn)
          then bindR (f (fi_ainfo fn ! i)) (\<lambda>x. Inr (Some (fn\<lparr>fi_ainfo := (fi_ainfo fn)[i := x]\<rparr>)))
          else Inl Undefined)"

definition fn_ret_upd ::
  "ABIFnInfo option \<Rightarrow> (ABIArgInfo \<Rightarrow> ABIArgInfo result) \<Rightarrow> ABIFnInfo option result" where
  "fn_ret_upd fnInfo f =
     (case fnInfo of
        None \<Rightarrow> Inr None
      | Some fn \<Rightarrow> bindR (f (fi_rinfo fn)) (\<lambda>x. Inr (Some (fn\<lparr>fi_rinfo := x\<rparr>))))"

definition pass_in_memory ::
  "u64 \<Rightarrow> u16 \<Rightarrow> u64 \<Rightarrow> ABIFnInfo option \<Rightarrow> nat \<Rightarrow> bool \<Rightarrow> (u64 \<times> ABIFnInfo option) result" where
  "pass_in_memory stack_offset alignment ty_size fnInfo argIdx allocating_variadic =
     (let alignment' = (if allocating_variadic \<and> alignment < 8 then 8 else alignment);
          stack_offset' = FFI_ALIGN stack_offset (ucast alignment')
      in bindR (fn_arg_upd fnInfo argIdx (\<lambda>x.
             Inr (te_set_mem (te_or_mask x TE_MASK_ISMEM) stack_offset' fakeLocInfo)))
           (\<lambda>fn. Inr (stack_offset' + ty_size, fn)))"

text \<open>The first \<open>switch\<close> of the machine-dependent part: how the result comes back.\<close>

definition aa_ret_flags :: "ffi_type \<Rightarrow> u64 \<Rightarrow> (nat \<times> u64) result" where
  "aa_ret_flags rtype bytes =
     (let t = ffi_code rtype in
      if t = FFI_TYPE_VOID then Inr (AARCH64_RET_VOID, bytes)
      else if t = FFI_TYPE_UINT8 then Inr (AARCH64_RET_UINT8, bytes)
      else if t = FFI_TYPE_UINT16 then Inr (AARCH64_RET_UINT16, bytes)
      else if t = FFI_TYPE_UINT32 then Inr (AARCH64_RET_UINT32, bytes)
      else if t = FFI_TYPE_SINT8 then Inr (AARCH64_RET_SINT8, bytes)
      else if t = FFI_TYPE_SINT16 then Inr (AARCH64_RET_SINT16, bytes)
      else if t = FFI_TYPE_INT \<or> t = FFI_TYPE_SINT32 then Inr (AARCH64_RET_SINT32, bytes)
      else if t = FFI_TYPE_SINT64 \<or> t = FFI_TYPE_UINT64 then Inr (AARCH64_RET_INT64, bytes)
      else if t = FFI_TYPE_POINTER then Inr (AARCH64_RET_INT64, bytes)
      else if is_fp t \<or> is_aggr t then
        bindR (is_vfp_type rtype) (\<lambda>flags.
          if flags \<noteq> 0 then Inr (flags, bytes)
          else if ffi_size rtype > 16 then Inr (AARCH64_RET_VOID + AARCH64_RET_IN_MEM, bytes + 8)
          else if ffi_size rtype = 16 then Inr (AARCH64_RET_INT128, bytes)
          else if ffi_size rtype = 8 then Inr (AARCH64_RET_INT64, bytes)
          else Inr (AARCH64_RET_INT128, bytes))
      else Inl Abort)"

text \<open>
  \<open>FNR_INFO reg n\<close> is the macro's cascade of falling-through cases, entered at the case for
  \<open>n\<close> registers: it fills the slots \<open>n - 1, ..., 0\<close>.
\<close>

fun FNR_INFO :: "(nat \<Rightarrow> nat) \<Rightarrow> nat \<Rightarrow> ABIArgInfo \<Rightarrow> ABIArgInfo result" where
  "FNR_INFO reg 0 x = Inr x"
| "FNR_INFO reg (Suc n) x = bindR (te_set_reg x n (reg n) fakeLocInfo) (FNR_INFO reg n)"

definition aa_store_ret :: "nat \<Rightarrow> ABIArgInfo \<Rightarrow> ABIArgInfo result" where
  "aa_store_ret flags x =
     (if flags = AARCH64_RET_VOID then te_set_reg x 0 NoRegister TE_NO_LOC_INFO
      else if flags = AARCH64_RET_INT64 then te_set_reg x 0 (TE_X 0) fakeLocInfo
      else if flags = AARCH64_RET_INT128 then
        bindR (te_set_reg x 0 (TE_X 0) fakeLocInfo) (\<lambda>x'. te_set_reg x' 1 (TE_X 1) fakeLocInfo)
      else if AARCH64_RET_S4 \<le> flags \<and> flags < AARCH64_RET_S4 + 4 then
        FNR_INFO TE_S (AARCH64_RET_S4 + 4 - flags) x
      else if AARCH64_RET_D4 \<le> flags \<and> flags < AARCH64_RET_D4 + 4 then
        FNR_INFO TE_D (AARCH64_RET_D4 + 4 - flags) x
      else if AARCH64_RET_Q4 \<le> flags \<and> flags < AARCH64_RET_Q4 + 4 then
        FNR_INFO TE_Q (AARCH64_RET_Q4 + 4 - flags) x
      else if flags = AARCH64_RET_UINT8 \<or> flags = AARCH64_RET_UINT16
          \<or> flags = AARCH64_RET_UINT32 \<or> flags = AARCH64_RET_SINT8
          \<or> flags = AARCH64_RET_SINT16 \<or> flags = AARCH64_RET_SINT32 then
        te_set_reg x 0 (TE_W 0) fakeLocInfo
      else
        bindR (assertR (flags = AARCH64_RET_VOID + AARCH64_RET_IN_MEM)) (\<lambda>_.
        te_set_reg (te_or_mask x TE_MASK_INDIRECT) 0 (TE_X 8) fakeLocInfo))"

record aa_alloc =
  gprcount :: nat
  ssecount :: nat
  stack_offset :: u64
  allocating_variadic :: bool
  aa_fn :: "ABIFnInfo option"

definition is_int_code :: "nat \<Rightarrow> bool" where
  "is_int_code t \<longleftrightarrow> t = FFI_TYPE_INT \<or> t = FFI_TYPE_UINT8 \<or> t = FFI_TYPE_SINT8
     \<or> t = FFI_TYPE_UINT16 \<or> t = FFI_TYPE_SINT16 \<or> t = FFI_TYPE_UINT32 \<or> t = FFI_TYPE_SINT32
     \<or> t = FFI_TYPE_UINT64 \<or> t = FFI_TYPE_SINT64 \<or> t = FFI_TYPE_POINTER"

text \<open>
  The body of the loop over the arguments, up to the \<open>switch\<close>'s end.  The tables
  \<open>gprcnt2reg\<close> and \<open>ssecnt2reg\<close> map a count to the register of that number.
\<close>

definition aa_mem_arg :: "aa_alloc \<Rightarrow> nat \<Rightarrow> u16 \<Rightarrow> u64 \<Rightarrow> aa_alloc result" where
  "aa_mem_arg st i alignment s =
     bindR (pass_in_memory (stack_offset st) alignment s (aa_fn st) i (allocating_variadic st))
       (\<lambda>(off, fn). Inr (st\<lparr>stack_offset := off, aa_fn := fn\<rparr>))"

definition aa_gpr_arg :: "aa_alloc \<Rightarrow> nat \<Rightarrow> u16 \<Rightarrow> u64 \<Rightarrow> aa_alloc result" where
  "aa_gpr_arg st i alignment s =
     (if gprcount st < N_X_ARG_REG then
        bindR (fn_arg_upd (aa_fn st) i (\<lambda>x. te_set_reg x 0 (TE_X (gprcount st)) fakeLocInfo))
          (\<lambda>fn. Inr (st\<lparr>aa_fn := fn, gprcount := gprcount st + 1\<rparr>))
      else
        bindR (aa_mem_arg st i alignment s) (\<lambda>st'. Inr (st'\<lparr>gprcount := N_X_ARG_REG\<rparr>)))"

definition aa_hfa_arg :: "aa_alloc \<Rightarrow> nat \<Rightarrow> ffi_type \<Rightarrow> nat \<Rightarrow> aa_alloc result" where
  "aa_hfa_arg st i ty h =
     (let elems = 4 - h mod 4 in
      if ssecount st + elems \<le> N_V_ARG_REG then
        bindR (fn_arg_upd (aa_fn st) i (\<lambda>x.
            te_set_regs x 0 (map TE_Q [ssecount st ..< ssecount st + elems]) fakeLocInfo))
          (\<lambda>fn. Inr (st\<lparr>aa_fn := fn, ssecount := ssecount st + elems\<rparr>))
      else aa_mem_arg (st\<lparr>ssecount := N_V_ARG_REG\<rparr>) i (ffi_alignment ty) (ffi_size ty))"

definition aa_ref_arg :: "aa_alloc \<Rightarrow> nat \<Rightarrow> ffi_type \<Rightarrow> aa_alloc result" where
  "aa_ref_arg st i ty =
     bindR (aa_gpr_arg st i (ffi_alignment ty) 8) (\<lambda>st1.
     bindR (fn_arg_upd (aa_fn st1) i (\<lambda>x. Inr (te_or_mask x TE_MASK_INDIRECT)))
       (\<lambda>fn. Inr (st1\<lparr>aa_fn := fn\<rparr>)))"

definition aa_comp_arg :: "aa_alloc \<Rightarrow> nat \<Rightarrow> ffi_type \<Rightarrow> aa_alloc result" where
  "aa_comp_arg st i ty =
     (let n = unat ((ffi_size ty + 7) div 8) in
      if gprcount st + n \<le> N_X_ARG_REG then
        bindR (fn_arg_upd (aa_fn st) i (\<lambda>x.
            te_set_regs x 0 (map TE_X [gprcount st ..< gprcount st + n]) fakeLocInfo))
          (\<lambda>fn. Inr (st\<lparr>aa_fn := fn, gprcount := gprcount st + n\<rparr>))
      else aa_mem_arg (st\<lparr>gprcount := N_X_ARG_REG\<rparr>) i (ffi_alignment ty) (ffi_size ty))"

definition aa_place_arg :: "aa_alloc \<Rightarrow> nat \<Rightarrow> ffi_type \<Rightarrow> aa_alloc result" where
  "aa_place_arg st i ty =
     (let s = ffi_size ty; t = ffi_code ty in
      bindR (fn_arg_upd (aa_fn st) i (\<lambda>x. Inr (te_set_arg_size x s))) (\<lambda>fn0.
      let st0 = st\<lparr>aa_fn := fn0\<rparr> in
      if t = FFI_TYPE_VOID then Inl Abort
      else if is_int_code t then aa_gpr_arg st0 i (ffi_alignment ty) s
      else if is_fp t \<or> is_aggr t then
        bindR (is_vfp_type ty) (\<lambda>h.
          if h \<noteq> 0 then aa_hfa_arg st0 i ty h
          else if s > 16 then aa_ref_arg st0 i ty
          else aa_comp_arg st0 i ty)
      else Inl Abort))"

fun aa_place_args :: "aa_alloc \<Rightarrow> nat \<Rightarrow> nat \<Rightarrow> ffi_type list \<Rightarrow> aa_alloc result" where
  "aa_place_args st nfixedargs i [] = Inr st"
| "aa_place_args st nfixedargs i (ty # tys) =
     bindR (aa_place_arg st i ty) (\<lambda>st1.
     let st2 = (if i + 1 = nfixedargs
                then st1\<lparr>gprcount := N_X_ARG_REG, ssecount := N_V_ARG_REG, allocating_variadic := True\<rparr>
                else st1)
     in aa_place_args st2 nfixedargs (i + 1) tys)"

definition my_aa_fi_prep_cif_machdep ::
  "aa_fi_cif \<Rightarrow> ABIFnInfo option \<Rightarrow> (aa_fi_cif \<times> ABIFnInfo option) result" where
  "my_aa_fi_prep_cif_machdep cif fnInfo =
     bindR (aa_ret_flags (aa_rtype cif) (ucast (aa_bytes cif))) (\<lambda>(flags, bytes).
     bindR (fn_ret_upd fnInfo (aa_store_ret flags)) (\<lambda>fn0.
     bindR (aa_place_args \<lparr>gprcount = 0, ssecount = 0, stack_offset = 0,
                            allocating_variadic = False, aa_fn = fn0\<rparr>
              (aa_nfixedargs cif) 0 (aa_arg_types cif)) (\<lambda>st.
     Inr (cif\<lparr>aa_bytes := ucast (FFI_ALIGN bytes 16), aa_flags := flags, aa_nfixedargs := 0\<rparr>,
          map_option (\<lambda>fn. fn\<lparr>fi_bytes := ucast (stack_offset st)\<rparr>) (aa_fn st)))))"

definition my_aa_fi_prep_cif_machdep_var ::
  "aa_fi_cif \<Rightarrow> nat \<Rightarrow> nat \<Rightarrow> ABIFnInfo option \<Rightarrow> (aa_fi_cif \<times> ABIFnInfo option) result" where
  "my_aa_fi_prep_cif_machdep_var cif nfixedargs ntotalargs fnInfo =
     my_aa_fi_prep_cif_machdep (cif\<lparr>aa_nfixedargs := nfixedargs\<rparr>) fnInfo"

section \<open>Machine-independent preparation\<close>

text \<open>\<open>if (ty->size == 0 && initialize_aggregate(ty) != FFI_OK) return FFI_BAD_TYPEDEF\<close>\<close>

definition init_type :: "ffi_type \<Rightarrow> ffi_type result" where
  "init_type ty =
     (if ffi_size ty = 0
      then (case initialize_aggregate ty of None \<Rightarrow> Inl BadTypedef | Some (ty', _) \<Rightarrow> Inr ty')
      else Inr ty)"

fun aa_init_args :: "ffi_type list \<Rightarrow> u32 \<Rightarrow> (ffi_type list \<times> u32) result" where
  "aa_init_args [] bytes = Inr ([], bytes)"
| "aa_init_args (ptr # ptrs) bytes =
     bindR (init_type ptr) (\<lambda>ptr'.
     let bytes1 = (if (ucast (ffi_alignment ptr') - 1) AND bytes \<noteq> 0
                   then ucast (FFI_ALIGN (ucast bytes) (ucast (ffi_alignment ptr')))
                   else bytes);
         bytes2 = bytes1 + ucast (STACK_ARG_SIZE (ffi_size ptr'))
     in bindR (aa_init_args ptrs bytes2) (\<lambda>(ptrs', bytes'). Inr (ptr' # ptrs', bytes')))"

definition my_aa_fi_prep_cif_core ::
  "nat \<Rightarrow> bool \<Rightarrow> nat \<Rightarrow> nat \<Rightarrow> ffi_type \<Rightarrow> ffi_type list \<Rightarrow> ABIFnInfo option
   \<Rightarrow> (aa_fi_cif \<times> ABIFnInfo option) result" where
  "my_aa_fi_prep_cif_core abi isvariadic nfixedargs ntotalargs rtype atypes fnInfo =
     bindR (assertR (isvariadic \<longrightarrow> nfixedargs \<ge> 1)) (\<lambda>_.
     bindR (assertR (nfixedargs \<le> ntotalargs)) (\<lambda>_.
     if \<not> (abi > 0 \<and> abi < 2) then Inl BadAbi
     else
       bindR (init_type rtype) (\<lambda>rtype'.
       let bytes0 = (if ffi_code rtype' = FFI_TYPE_STRUCT then ucast (STACK_ARG_SIZE 8) else 0) in
       bindR (aa_init_args atypes bytes0) (\<lambda>(atypes', bytes).
       let cif = \<lparr>aa_abi = abi, aa_nargs = ntotalargs, aa_arg_types = atypes', aa_rtype = rtype',
                  aa_bytes = bytes, aa_flags = 0, aa_nfixedargs = 0\<rparr>
       in if isvariadic then my_aa_fi_prep_cif_machdep_var cif nfixedargs ntotalargs fnInfo
          else my_aa_fi_prep_cif_machdep cif fnInfo))))"

definition my_aa_fi_prep_cif ::
  "nat \<Rightarrow> nat \<Rightarrow> ffi_type \<Rightarrow> ffi_type list \<Rightarrow> ABIFnInfo option
   \<Rightarrow> (aa_fi_cif \<times> ABIFnInfo option) result" where
  "my_aa_fi_prep_cif abi nargs rtype atypes fnInfo =
     my_aa_fi_prep_cif_core abi False nargs nargs rtype atypes fnInfo"

definition my_aa_fi_prep_cif_var ::
  "nat \<Rightarrow> nat \<Rightarrow> nat \<Rightarrow> ffi_type \<Rightarrow> ffi_type list \<Rightarrow> ABIFnInfo option
   \<Rightarrow> (aa_fi_cif \<times> ABIFnInfo option) result" where
  "my_aa_fi_prep_cif_var abi nfixed ntotal rtype atypes fnInfo =
     my_aa_fi_prep_cif_core abi True nfixed ntotal rtype atypes fnInfo"

end
