(* ===== verification/Aa_Hfa.thy ===== *)
theory Aa_Hfa
  imports Aa_Cif
begin

text \<open>
  The test for homogeneous floating-point aggregates in \<open>aa_prep_cif.c\<close>, which works on
  sizes and on two recursive searches, against its definition: the scalar members of the
  structure, nested ones included, are between one and four and of one floating-point type.
\<close>

section \<open>The scalar members of a type\<close>

fun leaves :: "ffi_type \<Rightarrow> nat list" where
  "leaves (Ffi s a t els) =
     (if is_aggr t then (case els of None \<Rightarrow> [] | Some es \<Rightarrow> concat (map leaves es)) else [t])"

definition hfa :: "nat list \<Rightarrow> bool" where
  "hfa ls \<longleftrightarrow> ls \<noteq> [] \<and> length ls \<le> 4 \<and> is_fp (hd ls) \<and> (\<forall>l\<in>set ls. l = hd ls)"

text \<open>
  Type descriptors as the parser builds them: scalars have their size, structures have size
  zero until they are laid out.
\<close>

fun plain :: "ffi_type \<Rightarrow> bool" where
  "plain (Ffi s a t els) =
     (if is_aggr t then s = 0 \<and> t = FFI_TYPE_STRUCT \<and> (case els of None \<Rightarrow> False | Some es \<Rightarrow> list_all plain es)
      else s \<noteq> 0 \<and> (is_fp t \<longrightarrow> s = fp_size t \<and> ucast a = fp_size t))"

fun inhabited :: "ffi_type \<Rightarrow> bool" where
  "inhabited (Ffi s a t els) =
     (is_aggr t \<longrightarrow> (case els of None \<Rightarrow> False | Some es \<Rightarrow> es \<noteq> [] \<and> list_all inhabited es))"

lemma plain_size: "plain ty \<Longrightarrow> ffi_size ty = 0 \<longleftrightarrow> is_aggr (ffi_code ty)"
  by (cases ty) (auto split: if_splits)

lemma is_fp_not_aggr: "is_fp t \<Longrightarrow> \<not> is_aggr t"
  by (auto simp: is_fp_def is_aggr_def ffi_code_defs FFI_TYPE_LONGDOUBLE_def)

lemma initialize_leaves:
  "initialize_aggregate ty = Some (ty', offs) \<Longrightarrow> plain ty \<Longrightarrow> is_aggr (ffi_code ty) \<Longrightarrow>
     leaves ty' = leaves ty \<and> inhabited ty' \<and> ffi_code ty' = ffi_code ty"
  "initialize_elements es sz al = Some (es', sz', al', offs) \<Longrightarrow> list_all plain es \<Longrightarrow>
     concat (map leaves es') = concat (map leaves es) \<and> list_all inhabited es' \<and> length es' = length es"
proof (induction ty and es sz al arbitrary: ty' offs and es' sz' al' offs
    rule: initialize_aggregate_initialize_elements.induct)
  case (1 s a t els)
  from "1.prems"(1) obtain ptrs ptrs' sz al where *: "els = Some ptrs"
    "initialize_elements ptrs 0 0 = Some (ptrs', sz, al, offs)" "FFI_ALIGN sz (ucast al) \<noteq> 0"
    "ty' = Ffi (FFI_ALIGN sz (ucast al)) al t (Some ptrs')"
    by (auto simp: Let_def split: option.splits if_splits)
  have "ptrs' \<noteq> []"
  proof
    assume "ptrs' = []"
    with *(2) have "ptrs = []" by (cases ptrs) (auto simp: Let_def split: option.splits)
    with *(2,3) show False by (simp add: FFI_ALIGN_def)
  qed
  with * "1.IH" [OF *(1,2)] "1.prems"(2,3) show ?case by (simp add: list_all_iff)
next
  case (3 ptr ptrs sz al)
  from "3.prems"(1) obtain ptr' ptrs' offs' where *:
    "(if ffi_size ptr = 0 then map_option fst (initialize_aggregate ptr) else Some ptr) = Some ptr'"
    "initialize_elements ptrs (FFI_ALIGN sz (ucast (ffi_alignment ptr')) + ffi_size ptr')
       (if al > ffi_alignment ptr' then al else ffi_alignment ptr') = Some (ptrs', sz', al', offs')"
    "es' = ptr' # ptrs'"
    by (auto simp: Let_def split: option.splits)
  have "leaves ptr' = leaves ptr \<and> inhabited ptr'"
  proof (cases "is_aggr (ffi_code ptr)")
    case True
    then have z: "ffi_size ptr = 0" using "3.prems"(2) plain_size [of ptr] by simp
    with * (1) obtain o' where "initialize_aggregate ptr = Some (ptr', o')" by auto
    from "3.IH"(1) [OF z this] "3.prems"(2) True show ?thesis by simp
  next
    case False
    then have "ptr' = ptr" using * (1) "3.prems"(2) plain_size [of ptr] by auto
    with False show ?thesis by (cases ptr) auto
  qed
  with "3.IH"(2) [OF * (1) refl refl * (2)] "3.prems"(2) * (3) show ?case by simp
qed simp

section \<open>The two searches\<close>

lemma inhabited_leaves:
  "inhabited ty \<Longrightarrow> leaves ty \<noteq> []"
proof (induction ty)
  case (Ffi s a t els)
  show ?case
  proof (cases "is_aggr t")
    case True
    with Ffi.prems obtain e es where "els = Some (e # es)" "inhabited e"
      by (auto simp: neq_Nil_conv split: option.splits)
    with Ffi.IH [of "e # es" e] True show ?thesis by simp
  qed simp
qed

lemma is_hfa0_leaves:
  "inhabited ty \<Longrightarrow> is_aggr (ffi_code ty) \<Longrightarrow> is_hfa0 ty = int (hd (leaves ty))"
  "es \<noteq> [] \<Longrightarrow> list_all inhabited es \<Longrightarrow> is_hfa0_loop es r = int (hd (concat (map leaves es)))"
proof (induction ty and es r rule: is_hfa0_is_hfa0_loop.induct)
  case (3 e es ret)
  have "leaves e \<noteq> []" using "3.prems" inhabited_leaves by simp
  moreover have "\<not> is_aggr (ffi_code e) \<Longrightarrow> leaves e = [ffi_code e]" by (cases e) simp
  ultimately show ?case
    using "3.prems" "3.IH"(1) by (cases "is_aggr (ffi_code e)") (simp_all add: hd_append)
qed (auto split: option.splits)

lemma is_hfa1_leaves:
  "inhabited ty \<Longrightarrow> is_aggr (ffi_code ty) \<Longrightarrow> is_hfa1 ty c \<longleftrightarrow> (\<forall>l\<in>set (leaves ty). l = c)"
  "list_all inhabited es \<Longrightarrow> is_hfa1_loop es c \<longleftrightarrow> (\<forall>l\<in>set (concat (map leaves es)). l = c)"
proof (induction ty c and es c rule: is_hfa1_is_hfa1_loop.induct)
  case (3 e es c)
  have "\<not> is_aggr (ffi_code e) \<Longrightarrow> leaves e = [ffi_code e]" by (cases e) simp
  with "3.prems" "3.IH" show ?case by (cases "is_aggr (ffi_code e)") auto
qed (auto split: option.splits)

section \<open>The size of an aggregate of one floating-point type\<close>

lemma fp_size_align:
  assumes "is_fp c" "ucast (a :: u16) = fp_size c"
  shows "ok_align a" "unat a = unat (fp_size c)"
proof -
  have "a = ucast (ucast a :: u64)" by (rule bit_word_eqI) (simp add: bit_simps)
  then have "a = ucast (fp_size c)" using assms(2) by simp
  moreover have "ok_align 16" unfolding ok_align_def by (rule bexI [of _ 4]) simp_all
  ultimately show "ok_align a" "unat a = unat (fp_size c)"
    using assms by (auto simp: is_fp_def fp_size_def)
qed

lemma FFI_ALIGN_multiple:
  assumes "is_fp c" "ucast (a :: u16) = fp_size c" "unat v = n * unat (fp_size c)" "unat v < 2 ^ 40"
  shows "FFI_ALIGN v (ucast a) = v"
proof -
  note a = fp_size_align [OF assms(1,2)]
  have "unat a \<le> 2 ^ 16" using unsigned_less [of a, where 'a = nat] by simp
  then have "unat (FFI_ALIGN v (ucast a)) = align_up (unat v) (unat a)"
    using assms(4) by (intro FFI_ALIGN_ok_align [OF a(1)]) simp
  also have "\<dots> = unat v"
    using ok_align_pos [OF a(1)] by (intro align_up_id) (simp_all add: assms(3) a(2))
  finally show ?thesis by (simp add: word_unat_eq_iff)
qed

lemma scalar_leaf:
  assumes "plain e" "\<not> is_aggr (ffi_code e)" "is_fp c" "\<forall>l\<in>set (leaves e). l = c"
  shows "leaves e = [c]" "ffi_size e = fp_size c" "ucast (ffi_alignment e) = fp_size c"
  using assms by (cases e; simp)+

lemma initialize_hfa_size:
  "is_fp c \<Longrightarrow> initialize_aggregate ty = Some (ty', offs) \<Longrightarrow> plain ty \<Longrightarrow> is_aggr (ffi_code ty) \<Longrightarrow>
     \<forall>l\<in>set (leaves ty). l = c \<Longrightarrow> length (leaves ty) < 2 ^ 32 \<Longrightarrow>
     unat (ffi_size ty') = length (leaves ty) * unat (fp_size c) \<and> ucast (ffi_alignment ty') = fp_size c"
  "is_fp c \<Longrightarrow> initialize_elements es sz al = Some (es', sz', al', offs) \<Longrightarrow> list_all plain es \<Longrightarrow>
     \<forall>l\<in>set (concat (map leaves es)). l = c \<Longrightarrow> unat sz = n * unat (fp_size c) \<Longrightarrow>
     al = 0 \<or> ucast al = fp_size c \<Longrightarrow> n + length (concat (map leaves es)) < 2 ^ 32 \<Longrightarrow>
     unat sz' = (n + length (concat (map leaves es))) * unat (fp_size c)
     \<and> (ucast al' = fp_size c \<or> es = [] \<and> al' = al)"
proof (induction ty and es sz al arbitrary: ty' offs and es' sz' al' offs n
    rule: initialize_aggregate_initialize_elements.induct)
  case (1 s a t els)
  from "1.prems"(2) obtain ptrs ptrs' sz al where *: "els = Some ptrs"
    "initialize_elements ptrs 0 0 = Some (ptrs', sz, al, offs)" "FFI_ALIGN sz (ucast al) \<noteq> 0"
    "ty' = Ffi (FFI_ALIGN sz (ucast al)) al t (Some ptrs')"
    by (auto simp: Let_def split: option.splits if_splits)
  have ne: "ptrs \<noteq> []" using * (2,3) by (auto simp: FFI_ALIGN_def)
  have aggr: "is_aggr t" using "1.prems"(4) by simp
  with "1.prems"(3,5,6) * (1) "1.IH" [OF * (1) "1.prems"(1) * (2), of 0] ne
  have sz: "unat sz = length (leaves (Ffi s a t els)) * unat (fp_size c)" "ucast al = fp_size c"
    by simp_all
  have "unat sz < 2 ^ 40"
    using sz(1) "1.prems"(1,6) by (auto simp: is_fp_def fp_size_def)
  with FFI_ALIGN_multiple [OF "1.prems"(1) sz(2) sz(1)] * (4) sz show ?case by simp
next
  case (3 ptr ptrs sz al)
  from "3.prems"(2) obtain ptr' ptrs' offs' where *:
    "(if ffi_size ptr = 0 then map_option fst (initialize_aggregate ptr) else Some ptr) = Some ptr'"
    "initialize_elements ptrs (FFI_ALIGN sz (ucast (ffi_alignment ptr')) + ffi_size ptr')
       (if al > ffi_alignment ptr' then al else ffi_alignment ptr') = Some (ptrs', sz', al', offs')"
    "es' = ptr' # ptrs'"
    by (auto simp: Let_def split: option.splits)
  have p: "unat (ffi_size ptr') = length (leaves ptr) * unat (fp_size c) \<and> ucast (ffi_alignment ptr') = fp_size c"
  proof (cases "is_aggr (ffi_code ptr)")
    case True
    then have z: "ffi_size ptr = 0" using "3.prems"(3) plain_size [of ptr] by simp
    with * (1) obtain o' where "initialize_aggregate ptr = Some (ptr', o')" by auto
    from "3.IH"(1) [OF z "3.prems"(1) this] "3.prems" True show ?thesis by simp
  next
    case False
    then have "ptr' = ptr" using * (1) "3.prems"(3) plain_size [of ptr] by auto
    moreover have "plain ptr" "\<forall>l\<in>set (leaves ptr). l = c" using "3.prems"(3,4) by simp_all
    note scalar_leaf [OF this(1) False "3.prems"(1) this(2)]
    ultimately show ?thesis by simp
  qed
  have F: "unat (fp_size c) \<le> 16" using "3.prems"(1) by (auto simp: is_fp_def fp_size_def)
  have bnd: "k * unat (fp_size c) < 2 ^ 40" if "k < 2 ^ 32" for k
    using mult_le_mono [OF less_imp_le [OF that] F] by simp
  have "unat sz < 2 ^ 40" using bnd [of n] "3.prems"(5,7) by simp
  with FFI_ALIGN_multiple [OF "3.prems"(1) conjunct2 [OF p] "3.prems"(5)]
  have off: "FFI_ALIGN sz (ucast (ffi_alignment ptr')) = sz" by simp
  have sum: "unat (sz + ffi_size ptr') = (n + length (leaves ptr)) * unat (fp_size c)"
    using p "3.prems"(5,7) bnd [of "n + length (leaves ptr)"]
    by (subst unat_add_bounded) (simp_all add: add_mult_distrib)
  have "unat sz' = (n + length (leaves ptr) + length (concat (map leaves ptrs))) * unat (fp_size c)
      \<and> (ucast al' = fp_size c \<or> ptrs = []
           \<and> al' = (if al > ffi_alignment ptr' then al else ffi_alignment ptr'))"
  proof (rule "3.IH"(2) [OF * (1) refl refl "3.prems"(1) * (2)])
    show "list_all plain ptrs" using "3.prems"(3) by simp
    show "\<forall>l\<in>set (concat (map leaves ptrs)). l = c" 
      using "3.prems"(4) [unfolded list.map concat.simps set_append ball_Un] by blast
    show "unat (FFI_ALIGN sz (ucast (ffi_alignment ptr')) + ffi_size ptr') = (n + length (leaves ptr)) * unat (fp_size c)"
      using sum off by simp
    show "n + length (leaves ptr) + length (concat (map leaves ptrs)) < 2 ^ 32"
      using "3.prems"(7) by simp
    show "(if al > ffi_alignment ptr' then al else ffi_alignment ptr') = 0
        \<or> ucast (if al > ffi_alignment ptr' then al else ffi_alignment ptr') = fp_size c"
      using p "3.prems"(6) by auto
  qed
  with p "3.prems"(6) show ?case by (auto simp: add.assoc split: if_splits)
qed simp

section \<open>The test is right\<close>

lemma candidate_leaves:
  assumes "list_all inhabited (e # es)"
  shows "(if is_aggr (ffi_code e) then first_candidate (e # es) else Inr (ffi_code e))
    = Inr (hd (concat (map leaves (e # es))))"
proof -
  have "leaves e \<noteq> []" using assms inhabited_leaves by simp
  moreover have "\<not> is_aggr (ffi_code e) \<Longrightarrow> leaves e = [ffi_code e]" by (cases e) simp
  ultimately show ?thesis using assms is_hfa0_leaves(1) [of e] by (auto simp: hd_append)
qed

lemma is_vfp_type_struct:
  assumes "list_all inhabited (e # es)" and ls: "ls = concat (map leaves (e # es))"
  shows "is_vfp_type (Ffi s a FFI_TYPE_STRUCT (Some (e # es))) = Inr
    (if s < 4 \<or> s > 64 \<or> \<not> is_fp (hd ls) \<or> s \<noteq> s div fp_size (hd ls) * fp_size (hd ls)
        \<or> s div fp_size (hd ls) > 4 \<or> \<not> (\<forall>l\<in>set ls. l = hd ls)
     then 0 else hd ls * 4 + (4 - unat (s div fp_size (hd ls))))"
proof -
  have "\<not> is_fp FFI_TYPE_STRUCT" "FFI_TYPE_STRUCT \<noteq> FFI_TYPE_COMPLEX"
    by (simp_all add: is_fp_def ffi_code_defs FFI_TYPE_LONGDOUBLE_def)
  then show ?thesis
    using candidate_leaves [OF assms(1)] is_hfa1_leaves(2) [OF assms(1)]
    unfolding is_vfp_type_def ls ffi_type.sel
    by (simp only: if_False option.case list.case bindR_simps Let_def refl simp_thms) auto
qed

lemma hfa_size_div:
  assumes "is_fp c" "unat s = n * unat (fp_size c)" "0 < n" "n < 2 ^ 32"
  shows "unat (s div fp_size c) = n" "s = s div fp_size c * fp_size c"
    "s < 4 \<or> s > 64 \<or> s div fp_size c > 4 \<longleftrightarrow> 4 < n"
proof -
  have F: "unat (fp_size c) \<in> {4, 8, 16}" using assms(1) by (auto simp: is_fp_def fp_size_def)
  then show d: "unat (s div fp_size c) = n" using assms(2) by (auto simp: unat_div)
  show "s = s div fp_size c * fp_size c"
    using d assms(2) by (metis unat_mult_lem unsigned_less word_unat_eq_iff)
  show "s < 4 \<or> s > 64 \<or> s div fp_size c > 4 \<longleftrightarrow> 4 < n"
    using d assms(2,3) F by (auto simp: word_less_nat_alt)
qed

text \<open>
  C4.  For a structure that layout has just been computed for, \<open>is_vfp_type\<close> answers non-zero
  exactly when the scalar members of the structure, those of nested structures included, are
  one to four members of one floating-point type, and its answer then encodes that type and
  the number of members.
\<close>

theorem is_vfp_type_iff_hfa:
  assumes init: "initialize_aggregate ty = Some (ty', offs)" and pl: "plain ty"
    and st: "ffi_code ty = FFI_TYPE_STRUCT" and few: "length (leaves ty) < 2 ^ 32"
  shows "is_vfp_type ty' =
    Inr (if hfa (leaves ty) then hd (leaves ty) * 4 + (4 - length (leaves ty)) else 0)"
proof -
  have ag: "is_aggr (ffi_code ty)" by (simp add: st is_aggr_def)
  have l: "leaves ty' = leaves ty" "inhabited ty'" "ffi_code ty' = FFI_TYPE_STRUCT"
    using initialize_leaves(1) [OF init pl ag] st by simp_all
  then obtain s a e es where ty': "ty' = Ffi s a FFI_TYPE_STRUCT (Some (e # es))"
    and inh: "list_all inhabited (e # es)" and ls: "leaves ty = concat (map leaves (e # es))"
    using ag st by (cases ty') (auto simp: neq_Nil_conv split: option.splits)
  note v = is_vfp_type_struct [OF inh ls, of s a]
  have ne: "leaves ty \<noteq> []" using inhabited_leaves [OF l(2)] l(1) by simp
  show ?thesis
  proof (cases "is_fp (hd (leaves ty)) \<and> (\<forall>l\<in>set (leaves ty). l = hd (leaves ty))")
    case True
    then have sz: "unat s = length (leaves ty) * unat (fp_size (hd (leaves ty)))"
      using initialize_hfa_size(1) [OF _ init pl ag _ few] ty' by simp
    have "0 < length (leaves ty)" using ne by simp
    note d = hfa_size_div [OF conjunct1 [OF True] sz this few]
    show ?thesis
      unfolding ty' v hfa_def using True ne d by auto
  next
    case False
    then show ?thesis unfolding ty' v hfa_def by auto
  qed
qed

definition wit_nested :: ffi_type where
  "wit_nested = Ffi 0 0 FFI_TYPE_STRUCT (Some [ffi_type_double,
     Ffi 0 0 FFI_TYPE_STRUCT (Some [ffi_type_double, ffi_type_double])])"

text \<open>Witness: \<open>struct { double x; struct { double y, z; } p; }\<close> is three doubles.\<close>

theorem is_vfp_type_iff_hfa_witness:
  "initialize_aggregate wit_nested = Some (Ffi 24 8 FFI_TYPE_STRUCT (Some [ffi_type_double,
      Ffi 16 8 FFI_TYPE_STRUCT (Some [ffi_type_double, ffi_type_double])]), [0, 8])
   \<and> is_vfp_type (Ffi 24 8 FFI_TYPE_STRUCT (Some [ffi_type_double,
      Ffi 16 8 FFI_TYPE_STRUCT (Some [ffi_type_double, ffi_type_double])])) = Inr (FFI_TYPE_DOUBLE * 4 + 1)"
proof -
  have i: "initialize_aggregate wit_nested = Some (Ffi 24 8 FFI_TYPE_STRUCT (Some [ffi_type_double,
      Ffi 16 8 FFI_TYPE_STRUCT (Some [ffi_type_double, ffi_type_double])]), [0, 8])"
    by (simp add: wit_nested_def ffi_basic_defs FFI_ALIGN_def)
  have "plain wit_nested" "ffi_code wit_nested = FFI_TYPE_STRUCT"
    "leaves wit_nested = [FFI_TYPE_DOUBLE, FFI_TYPE_DOUBLE, FFI_TYPE_DOUBLE]"
    by (simp_all add: wit_nested_def ffi_basic_defs is_aggr_def is_fp_def fp_size_def ffi_code_defs)
  with is_vfp_type_iff_hfa [OF i] i show ?thesis by (simp add: hfa_def is_fp_def)
qed

end
