(* ===== verification/Aa_Alloc.thy ===== *)
theory Aa_Alloc
  imports Aa_Cif
begin

text \<open>
  The argument allocation of \<open>aa_prep_cif.c\<close> against an abstract statement of the AArch64
  rules: the next general register number, the next vector register number and the next
  stack address, all unbounded numbers, and symbolic locations instead of packed bytes.
\<close>

section \<open>Abstract locations\<close>

datatype loc = LRegs "nat list" | LMem nat

definition te_regs :: "ABIArgInfo \<Rightarrow> nat list" where
  "te_regs x = map (\<lambda>j. unat (get_byte (ai_val x) (2 * j))) [0..<te_num_of_reg x]"

definition loc_of :: "ABIArgInfo \<Rightarrow> loc" where
  "loc_of x = (if te_is_mem x then LMem (unat (te_get_mem x)) else LRegs (te_regs x))"

section \<open>The allocation rules\<close>

datatype kind = KInt | KHfa nat | KRef | KComp nat

definition kind_of :: "ffi_type \<Rightarrow> kind result" where
  "kind_of ty =
     (if is_int_code (ffi_code ty) then Inr KInt
      else if is_fp (ffi_code ty) \<or> is_aggr (ffi_code ty) then
        bindR (is_vfp_type ty) (\<lambda>h.
          if h \<noteq> 0 then Inr (KHfa (4 - h mod 4))
          else if ffi_size ty > 16 then Inr KRef
          else Inr (KComp (unat ((ffi_size ty + 7) div 8))))
      else Inl Abort)"

record nstate =
  ngrn :: nat
  nsrn :: nat
  nsaa :: nat
  varargs :: bool

definition to_stack :: "nstate \<Rightarrow> nat \<Rightarrow> nat \<Rightarrow> nstate \<times> loc" where
  "to_stack s sz al =
     (let p = align_up (nsaa s) (if varargs s then max 8 al else al)
      in (s\<lparr>nsaa := p + sz\<rparr>, LMem p))"

fun alloc :: "nstate \<Rightarrow> kind \<Rightarrow> nat \<Rightarrow> nat \<Rightarrow> nstate \<times> loc" where
  "alloc s KInt sz al =
     (if ngrn s < 8 then (s\<lparr>ngrn := ngrn s + 1\<rparr>, LRegs [TE_X (ngrn s)])
      else to_stack (s\<lparr>ngrn := 8\<rparr>) sz al)"
| "alloc s KRef sz al =
     (if ngrn s < 8 then (s\<lparr>ngrn := ngrn s + 1\<rparr>, LRegs [TE_X (ngrn s)])
      else to_stack (s\<lparr>ngrn := 8\<rparr>) 8 al)"
| "alloc s (KHfa n) sz al =
     (if nsrn s + n \<le> 8 then (s\<lparr>nsrn := nsrn s + n\<rparr>, LRegs (map TE_Q [nsrn s ..< nsrn s + n]))
      else to_stack (s\<lparr>nsrn := 8\<rparr>) sz al)"
| "alloc s (KComp n) sz al =
     (if ngrn s + n \<le> 8 then (s\<lparr>ngrn := ngrn s + n\<rparr>, LRegs (map TE_X [ngrn s ..< ngrn s + n]))
      else to_stack (s\<lparr>ngrn := 8\<rparr>) sz al)"

definition end_fixed :: "nat \<Rightarrow> nat \<Rightarrow> nstate \<Rightarrow> nstate" where
  "end_fixed nfixed i s =
     (if i + 1 = nfixed then s\<lparr>ngrn := 8, nsrn := 8, varargs := True\<rparr> else s)"

text \<open>An abstract argument is its kind, size and alignment.\<close>

fun alloc_all :: "nstate \<Rightarrow> nat \<Rightarrow> nat \<Rightarrow> (kind \<times> nat \<times> nat) list \<Rightarrow> nstate \<times> loc list" where
  "alloc_all s nfixed i [] = (s, [])"
| "alloc_all s nfixed i ((k, sz, al) # as) =
     (let (s1, l) = alloc s k sz al; (s2, ls) = alloc_all (end_fixed nfixed i s1) nfixed (i + 1) as
      in (s2, l # ls))"

section \<open>Reading a location back from its packed form\<close>

lemma te_set_reg_run: "te_set_reg x 0 r l = te_set_regs x 0 [r] l"
  by (simp add: bindR_def split: sum.splits)

lemma te_regs_set_regs:
  assumes "te_set_regs x 0 rs l = Inr x'" "list_all (\<lambda>r. 0 < r \<and> r < 256) rs" "l < 256"
    "ai_val x = 0"
  shows "te_regs x' = rs"
proof (rule nth_equalityI)
  have n: "te_num_of_reg x' = length rs"
    using assms by (rule te_num_of_reg_set_regs)
  then show "length (te_regs x') = length rs"
    by (simp add: te_regs_def)
  fix j
  assume "j < length (te_regs x')"
  then have j: "j < length rs" by (simp add: te_regs_def n)
  have "te_get_reg x' j = Inr (rs ! j)"
    using assms(1,2) j by (rule te_get_reg_set_regs)
  then have "unat (get_byte (ai_val x') (2 * j)) = rs ! j"
    by (auto simp: te_get_reg_def mult.commute)
  then show "te_regs x' ! j = rs ! j"
    using j by (simp add: te_regs_def n)
qed

lemma is_mem_or_mask:
  "te_is_mem (te_or_mask x TE_MASK_ISMEM)"
  "te_is_mem (te_or_mask x TE_MASK_INDIRECT) = te_is_mem x"
  "te_is_indirect (te_or_mask x TE_MASK_INDIRECT)"
  "te_is_indirect (te_or_mask x TE_MASK_ISMEM) = te_is_indirect x"
proof -
  have "(m OR 2) AND 2 = (2 :: u32)" "(m OR 1) AND 2 = m AND (2 :: u32)"
    "(m OR 1) AND 1 = (1 :: u32)" "(m OR 2) AND 1 = m AND (1 :: u32)" for m
    by (simp_all add: bit.conj_disj_distrib2)
  then show
    "te_is_mem (te_or_mask x TE_MASK_ISMEM)"
    "te_is_mem (te_or_mask x TE_MASK_INDIRECT) = te_is_mem x"
    "te_is_indirect (te_or_mask x TE_MASK_INDIRECT)"
    "te_is_indirect (te_or_mask x TE_MASK_ISMEM) = te_is_indirect x"
    by (simp_all add: te_is_mem_def te_is_indirect_def te_mask_defs)
qed

lemma te_num_of_reg_cong:
  assumes "ai_val x = ai_val y" "ai_size x = ai_size y"
  shows "te_num_of_reg x = te_num_of_reg y"
proof -
  have half: "te_half x k = te_half y k" for k
    using assms by (simp add: te_half_def)
  have "te_num_of_reg_loop x n = te_num_of_reg_loop y n" for n
    by (induction "TE_MAX_REGS_FOR_ONE_ARG - n" arbitrary: n)
      (subst (1 2) te_num_of_reg_loop.simps, simp add: half)+
  then show ?thesis by (simp add: te_num_of_reg_def)
qed

lemma loc_of_indirect [simp]: "loc_of (te_or_mask x TE_MASK_INDIRECT) = loc_of x"
  using te_num_of_reg_cong [of "te_or_mask x TE_MASK_INDIRECT" x]
  by (simp add: loc_of_def is_mem_or_mask te_get_mem_def te_regs_def)

lemma te_is_mem_set_mem [simp]:
  "te_is_mem (te_set_mem x v i) = te_is_mem x"
  "te_is_indirect (te_set_mem x v i) = te_is_indirect x"
  by (simp_all add: te_is_mem_def te_is_indirect_def)

lemma loc_of_mem:
  "unat v < 2 ^ 32 \<Longrightarrow> loc_of (te_set_mem (te_or_mask x TE_MASK_ISMEM) v i) = LMem (unat v)"
  by (simp add: loc_of_def is_mem_or_mask te_get_set_mem unsigned_ucast_eq
      unsigned_take_bit_eq take_bit_nat_eq_self)

lemma loc_of_regs:
  assumes "te_set_regs x 0 rs l = Inr x'" "list_all (\<lambda>r. 0 < r \<and> r < 256) rs" "l < 256"
    "ai_val x = 0" "ai_mask x = 0"
  shows "loc_of x' = LRegs rs"
  using te_regs_set_regs [OF assms(1-4)] te_set_regs_frame [OF assms(1)] assms(5)
  by (simp add: loc_of_def te_is_mem_def)

section \<open>One argument\<close>

definition abs_st :: "aa_alloc \<Rightarrow> nstate" where
  "abs_st st = \<lparr>ngrn = gprcount st, nsrn = ssecount st, nsaa = unat (stack_offset st),
               varargs = allocating_variadic st\<rparr>"

lemma fn_arg_upd_Some:
  "fn_arg_upd (Some fn) i f = Inr fn' \<longleftrightarrow>
   i < length (fi_ainfo fn) \<and>
   (\<exists>x. f (fi_ainfo fn ! i) = Inr x \<and> fn' = Some (fn\<lparr>fi_ainfo := (fi_ainfo fn)[i := x]\<rparr>))"
  by (auto simp: fn_arg_upd_def bindR_Inr_iff)

lemma ok_align_bound: "ok_align a \<Longrightarrow> unat a \<le> 2 ^ 15"
proof (erule ok_alignE)
  fix k assume "k < 16" "unat a = 2 ^ k"
  then show ?thesis using power_increasing [of k 15 "2 :: nat"] by simp
qed

lemma aa_mem_arg_refines:
  assumes "aa_mem_arg st i al s = Inr st'" "aa_fn st = Some fn" "ok_align al"
    and bound: "unat (stack_offset st) + unat s + 2 ^ 15 < 2 ^ 32"
  shows "\<exists>off. aa_fn st' = Some (fn\<lparr>fi_ainfo := (fi_ainfo fn)
              [i := te_set_mem (te_or_mask (fi_ainfo fn ! i) TE_MASK_ISMEM) off fakeLocInfo]\<rparr>)
    \<and> i < length (fi_ainfo fn) \<and> unat off < 2 ^ 32
    \<and> to_stack (abs_st st) (unat s) (unat al) = (abs_st st', LMem (unat off))"
proof -
  define al' :: u16 where "al' = (if allocating_variadic st \<and> al < 8 then 8 else al)"
  define off where "off = FFI_ALIGN (stack_offset st) (ucast al')"
  have ok: "ok_align al'" using assms(3) by (simp add: al'_def)
  have al': "unat al' = (if allocating_variadic st then max 8 (unat al) else unat al)"
    by (auto simp: al'_def word_less_nat_alt)
  have off: "unat off = align_up (unat (stack_offset st)) (unat al')"
    unfolding off_def by (rule FFI_ALIGN_ok_align [OF ok]) (use bound ok_align_bound [OF ok] in simp)
  have lt: "unat off < unat (stack_offset st) + unat al'"
    unfolding off using ok_align_pos [OF ok] by (rule align_up_bounds(2))
  have sum: "unat (off + s) = unat off + unat s"
    by (rule unat_add_bounded) (use lt bound ok_align_bound [OF ok] in simp)
  from assms(1,2) have st': "st' = st\<lparr>stack_offset := off + s,
      aa_fn := Some (fn\<lparr>fi_ainfo := (fi_ainfo fn)
              [i := te_set_mem (te_or_mask (fi_ainfo fn ! i) TE_MASK_ISMEM) off fakeLocInfo]\<rparr>)\<rparr>"
    and i: "i < length (fi_ainfo fn)"
    by (auto simp: aa_mem_arg_def pass_in_memory_def Let_def bindR_Inr_iff fn_arg_upd_Some
        al'_def [symmetric] off_def [symmetric])
  have "to_stack (abs_st st) (unat s) (unat al) = (abs_st st', LMem (unat off))"
    by (auto simp: to_stack_def Let_def abs_st_def st' sum off al')
  with i lt bound ok_align_bound [OF ok] show ?thesis
    by (intro exI [of _ off]) (simp add: st')
qed

definition placed :: "ABIArgInfo \<Rightarrow> ffi_type \<Rightarrow> kind \<Rightarrow> loc \<Rightarrow> bool" where
  "placed x ty k l \<longleftrightarrow>
     loc_of x = l \<and> ai_size x = ucast (ffi_size ty) \<and> (te_is_indirect x \<longleftrightarrow> k = KRef)"

lemma placed_mem:
  "unat off < 2 ^ 32 \<Longrightarrow> ai_size x = ucast (ffi_size ty) \<Longrightarrow> \<not> te_is_indirect x \<Longrightarrow> k \<noteq> KRef \<Longrightarrow>
   placed (te_set_mem (te_or_mask x TE_MASK_ISMEM) off i) ty k (LMem (unat off))"
  by (simp add: placed_def loc_of_mem is_mem_or_mask)

lemma placed_regs:
  assumes "te_set_regs x 0 rs fakeLocInfo = Inr x'" "list_all (\<lambda>r. 0 < r \<and> r < 256) rs"
    "ai_val x = 0" "ai_mask x = 0" "ai_size x = ucast (ffi_size ty)" "k \<noteq> KRef"
  shows "placed x' ty k (LRegs rs)"
proof -
  have "fakeLocInfo < 256" by (simp add: fakeLocInfo_def te_loc_defs)
  from loc_of_regs [OF assms(1,2) this assms(3,4)] te_set_regs_frame [OF assms(1)] assms(4-6)
  show ?thesis by (simp add: placed_def te_is_indirect_def)
qed

lemma placed_KRef:
  "placed x ty KInt l \<Longrightarrow> placed (te_or_mask x TE_MASK_INDIRECT) ty KRef l"
  by (simp add: placed_def is_mem_or_mask)

text \<open>
  \<open>fresh_arg\<close>: argument \<open>i\<close> holds only its size so far, and there is room on the stack.
  \<open>step_ok\<close>: placing it took the abstract step for its kind.
\<close>

definition fresh_arg :: "aa_alloc \<Rightarrow> ABIFnInfo \<Rightarrow> nat \<Rightarrow> ffi_type \<Rightarrow> bool" where
  "fresh_arg st fn i ty \<longleftrightarrow> aa_fn st = Some fn \<and> ok_align (ffi_alignment ty)
     \<and> unat (stack_offset st) + unat (ffi_size ty) + 8 + 2 ^ 15 < 2 ^ 32
     \<and> ai_val (fi_ainfo fn ! i) = 0 \<and> ai_mask (fi_ainfo fn ! i) = 0
     \<and> ai_size (fi_ainfo fn ! i) = ucast (ffi_size ty)"

definition step_ok ::
  "aa_alloc \<Rightarrow> ABIFnInfo \<Rightarrow> nat \<Rightarrow> ffi_type \<Rightarrow> kind \<Rightarrow> (nstate \<times> loc) \<Rightarrow> aa_alloc \<Rightarrow> bool" where
  "step_ok st fn i ty k r st' \<longleftrightarrow> i < length (fi_ainfo fn) \<and>
     (\<exists>x l. aa_fn st' = Some (fn\<lparr>fi_ainfo := (fi_ainfo fn)[i := x]\<rparr>) \<and> placed x ty k l \<and> r = (abs_st st', l))"

lemma mem_step:
  assumes "aa_mem_arg st i (ffi_alignment ty) s = Inr st'" "fresh_arg st fn i ty" "k \<noteq> KRef"
    and "unat s \<le> unat (ffi_size ty) + 8"
  shows "step_ok st fn i ty k (to_stack (abs_st st) (unat s) (unat (ffi_alignment ty))) st'"
proof -
  from assms obtain off where off:
    "aa_fn st' = Some (fn\<lparr>fi_ainfo := (fi_ainfo fn)
        [i := te_set_mem (te_or_mask (fi_ainfo fn ! i) TE_MASK_ISMEM) off fakeLocInfo]\<rparr>)"
    "i < length (fi_ainfo fn)" "unat off < 2 ^ 32"
    "to_stack (abs_st st) (unat s) (unat (ffi_alignment ty)) = (abs_st st', LMem (unat off))"
    using aa_mem_arg_refines [OF assms(1), of fn] by (fastforce simp: fresh_arg_def)
  have "placed (te_set_mem (te_or_mask (fi_ainfo fn ! i) TE_MASK_ISMEM) off fakeLocInfo) ty k
      (LMem (unat off))"
    by (rule placed_mem [OF off(3)]) (use assms(2,3) in \<open>simp_all add: fresh_arg_def te_is_indirect_def\<close>)
  with off show ?thesis by (auto simp: step_ok_def)
qed

lemma regs_step:
  assumes "fn_arg_upd (Some fn) i (\<lambda>x. te_set_regs x 0 rs fakeLocInfo) = Inr fn'"
    "fresh_arg st fn i ty" "k \<noteq> KRef" "list_all (\<lambda>r. 0 < r \<and> r < 256) rs" "aa_fn st' = fn'"
  shows "step_ok st fn i ty k (abs_st st', LRegs rs) st'"
proof -
  from assms(1) obtain x where x: "i < length (fi_ainfo fn)"
    "te_set_regs (fi_ainfo fn ! i) 0 rs fakeLocInfo = Inr x"
    "fn' = Some (fn\<lparr>fi_ainfo := (fi_ainfo fn)[i := x]\<rparr>)"
    by (auto simp: fn_arg_upd_Some)
  have "placed x ty k (LRegs rs)"
    by (rule placed_regs [OF x(2) assms(4)]) (use assms(2,3) in \<open>simp_all add: fresh_arg_def\<close>)
  with x assms(5) show ?thesis by (auto simp: step_ok_def)
qed

lemma step_ok_cong:
  "step_ok st fn i ty k r st' \<Longrightarrow> r = r' \<Longrightarrow> step_ok st2 fn i ty k r' st'"
  by (simp add: step_ok_def)

lemma aa_gpr_arg_refines:
  assumes "aa_gpr_arg st i (ffi_alignment ty) s = Inr st'" "fresh_arg st fn i ty"
    and "unat s \<le> unat (ffi_size ty) + 8"
  shows "step_ok st fn i ty KInt (alloc (abs_st st) KInt (unat s) (unat (ffi_alignment ty))) st'"
proof (cases "gprcount st < 8")
  case True
  with assms(1,2) obtain fn' where fn':
    "fn_arg_upd (Some fn) i (\<lambda>x. te_set_regs x 0 [TE_X (gprcount st)] fakeLocInfo) = Inr fn'"
    "st' = st\<lparr>aa_fn := fn', gprcount := gprcount st + 1\<rparr>"
    by (auto simp: aa_gpr_arg_def N_X_ARG_REG_def te_set_reg_run fresh_arg_def simp del: te_set_regs.simps)
  have "step_ok st fn i ty KInt (abs_st st', LRegs [TE_X (gprcount st)]) st'"
    by (rule regs_step [OF fn'(1) assms(2)]) (use True fn'(2) in \<open>simp_all add: te_reg_defs\<close>)
  then show ?thesis using True fn'(2) by (simp add: abs_st_def)
next
  case False
  with assms(1) obtain st1 where st1: "aa_mem_arg st i (ffi_alignment ty) s = Inr st1"
    "st' = st1\<lparr>gprcount := 8\<rparr>"
    by (auto simp: aa_gpr_arg_def N_X_ARG_REG_def)
  have "step_ok st fn i ty KInt (to_stack (abs_st st) (unat s) (unat (ffi_alignment ty))) st1"
    by (rule mem_step [OF st1(1) assms(2) _ assms(3)]) simp
  then show ?thesis
    using False st1(2) by (auto simp: step_ok_def abs_st_def to_stack_def Let_def)
qed

lemma aa_hfa_arg_refines:
  assumes "aa_hfa_arg st i ty h = Inr st'" "fresh_arg st fn i ty"
  shows "step_ok st fn i ty (KHfa (4 - h mod 4))
    (alloc (abs_st st) (KHfa (4 - h mod 4)) (unat (ffi_size ty)) (unat (ffi_alignment ty))) st'"
proof (cases "ssecount st + (4 - h mod 4) \<le> 8")
  case True
  let ?rs = "map TE_Q [ssecount st ..< ssecount st + (4 - h mod 4)]"
  from True assms obtain fn' where fn':
    "fn_arg_upd (Some fn) i (\<lambda>x. te_set_regs x 0 ?rs fakeLocInfo) = Inr fn'"
    "st' = st\<lparr>aa_fn := fn', ssecount := ssecount st + (4 - h mod 4)\<rparr>"
    by (auto simp: aa_hfa_arg_def N_V_ARG_REG_def fresh_arg_def Let_def)
  have "step_ok st fn i ty (KHfa (4 - h mod 4)) (abs_st st', LRegs ?rs) st'"
    by (rule regs_step [OF fn'(1) assms(2)]) (use True fn'(2) in \<open>auto simp: list_all_iff te_reg_defs\<close>)
  then show ?thesis using True fn'(2) by (simp add: abs_st_def)
next
  case False
  with assms(1) have m: "aa_mem_arg (st\<lparr>ssecount := 8\<rparr>) i (ffi_alignment ty) (ffi_size ty) = Inr st'"
    by (simp add: aa_hfa_arg_def N_V_ARG_REG_def Let_def)
  show ?thesis
    by (rule step_ok_cong [OF mem_step [OF m]])
      (use assms(2) False in \<open>simp_all add: fresh_arg_def abs_st_def\<close>)
qed

lemma aa_comp_arg_refines:
  assumes "aa_comp_arg st i ty = Inr st'" "fresh_arg st fn i ty"
  shows "step_ok st fn i ty (KComp (unat ((ffi_size ty + 7) div 8)))
    (alloc (abs_st st) (KComp (unat ((ffi_size ty + 7) div 8)))
      (unat (ffi_size ty)) (unat (ffi_alignment ty))) st'"
proof -
  define n where "n = unat ((ffi_size ty + 7) div 8)"
  show ?thesis
    unfolding n_def [symmetric]
  proof (cases "gprcount st + n \<le> 8")
    case True
    let ?rs = "map TE_X [gprcount st ..< gprcount st + n]"
    from True assms obtain fn' where fn':
      "fn_arg_upd (Some fn) i (\<lambda>x. te_set_regs x 0 ?rs fakeLocInfo) = Inr fn'"
      "st' = st\<lparr>aa_fn := fn', gprcount := gprcount st + n\<rparr>"
      by (auto simp: aa_comp_arg_def N_X_ARG_REG_def fresh_arg_def Let_def n_def)
    have "step_ok st fn i ty (KComp n) (abs_st st', LRegs ?rs) st'"
      by (rule regs_step [OF fn'(1) assms(2)]) (use True fn'(2) in \<open>auto simp: list_all_iff te_reg_defs\<close>)
    then show "step_ok st fn i ty (KComp n) (alloc (abs_st st) (KComp n)
        (unat (ffi_size ty)) (unat (ffi_alignment ty))) st'"
      using True fn'(2) by (simp add: abs_st_def)
  next
    case False
    with assms(1) have m: "aa_mem_arg (st\<lparr>gprcount := 8\<rparr>) i (ffi_alignment ty) (ffi_size ty) = Inr st'"
      by (simp add: aa_comp_arg_def N_X_ARG_REG_def Let_def n_def)
    show "step_ok st fn i ty (KComp n) (alloc (abs_st st) (KComp n)
        (unat (ffi_size ty)) (unat (ffi_alignment ty))) st'"
      by (rule step_ok_cong [OF mem_step [OF m]])
        (use assms(2) False in \<open>simp_all add: fresh_arg_def abs_st_def\<close>)
  qed
qed

lemma aa_ref_arg_refines:
  assumes "aa_ref_arg st i ty = Inr st'" "fresh_arg st fn i ty"
  shows "step_ok st fn i ty KRef
    (alloc (abs_st st) KRef (unat (ffi_size ty)) (unat (ffi_alignment ty))) st'"
proof -
  from assms(1) obtain st1 fn1 where st1: "aa_gpr_arg st i (ffi_alignment ty) 8 = Inr st1"
    "fn_arg_upd (aa_fn st1) i (\<lambda>x. Inr (te_or_mask x TE_MASK_INDIRECT)) = Inr fn1"
    "st' = st1\<lparr>aa_fn := fn1\<rparr>"
    by (auto simp: aa_ref_arg_def)
  from aa_gpr_arg_refines [OF st1(1) assms(2)] obtain x l where x: "i < length (fi_ainfo fn)"
    "aa_fn st1 = Some (fn\<lparr>fi_ainfo := (fi_ainfo fn)[i := x]\<rparr>)" "placed x ty KInt l"
    "alloc (abs_st st) KInt 8 (unat (ffi_alignment ty)) = (abs_st st1, l)"
    by (auto simp: step_ok_def)
  have "aa_fn st' = Some (fn\<lparr>fi_ainfo := (fi_ainfo fn)[i := te_or_mask x TE_MASK_INDIRECT]\<rparr>)"
    using st1(2,3) x(1,2) by (auto simp: fn_arg_upd_Some)
  moreover have "alloc (abs_st st) KRef (unat (ffi_size ty)) (unat (ffi_alignment ty)) = (abs_st st', l)"
    using x(4) st1(3) by (auto simp: abs_st_def)
  ultimately show ?thesis
    using placed_KRef [OF x(3)] x(1) by (auto simp: step_ok_def)
qed

lemma is_fp_not_int: "is_fp t \<or> is_aggr t \<Longrightarrow> \<not> is_int_code t \<and> t \<noteq> FFI_TYPE_VOID"
  by (auto simp: is_fp_def is_aggr_def is_int_code_def ffi_code_defs FFI_TYPE_LONGDOUBLE_def)

lemma aa_place_arg_refines:
  assumes place: "aa_place_arg st i ty = Inr st'" and fn: "aa_fn st = Some fn"
    and zero: "fi_ainfo fn ! i = zeroArgInfo" and ok: "ok_align (ffi_alignment ty)"
    and bound: "unat (stack_offset st) + unat (ffi_size ty) + 8 + 2 ^ 15 < 2 ^ 32"
  shows "\<exists>k. kind_of ty = Inr k \<and> step_ok st fn i ty k
    (alloc (abs_st st) k (unat (ffi_size ty)) (unat (ffi_alignment ty))) st'"
proof -
  define fn0 where "fn0 = fn\<lparr>fi_ainfo := (fi_ainfo fn)[i := te_set_arg_size zeroArgInfo (ffi_size ty)]\<rparr>"
  define st0 where "st0 = st\<lparr>aa_fn := Some fn0\<rparr>"
  from place fn zero have i: "i < length (fi_ainfo fn)"
    by (auto simp: aa_place_arg_def Let_def bindR_Inr_iff fn_arg_upd_Some)
  have upd: "fn_arg_upd (Some fn) i (\<lambda>x. Inr (te_set_arg_size x (ffi_size ty))) = Inr (Some fn0)"
    using i zero by (simp add: fn_arg_upd_Some fn0_def)
  have fresh: "fresh_arg st0 fn0 i ty"
    using i bound ok by (simp add: fresh_arg_def st0_def fn0_def zeroArgInfo_def)
  have eq: "step_ok st0 fn0 i ty k (alloc (abs_st st0) k n m) st' \<Longrightarrow>
      step_ok st fn i ty k (alloc (abs_st st) k n m) st'" for k n m
    by (simp add: step_ok_def fn0_def abs_st_def st0_def)
  consider (int) "is_int_code (ffi_code ty)" | (agg) "is_fp (ffi_code ty) \<or> is_aggr (ffi_code ty)"
    using place upd fn by (auto simp: aa_place_arg_def Let_def split: if_splits)
  then show ?thesis
  proof cases
    case int
    then have "ffi_code ty \<noteq> FFI_TYPE_VOID" by (auto simp: is_int_code_def ffi_code_defs)
    with int place upd fn have "aa_gpr_arg st0 i (ffi_alignment ty) (ffi_size ty) = Inr st'"
      by (simp add: aa_place_arg_def Let_def st0_def)
    from eq [OF aa_gpr_arg_refines [OF this fresh]] int show ?thesis
      by (simp add: kind_of_def)
  next
    case agg
    note ni = is_fp_not_int [OF agg]
    from agg ni place upd fn obtain h where h: "is_vfp_type ty = Inr h"
      and r: "(if h \<noteq> 0 then aa_hfa_arg (st\<lparr>aa_fn := Some fn0\<rparr>) i ty h
         else if ffi_size ty > 16 then aa_ref_arg (st\<lparr>aa_fn := Some fn0\<rparr>) i ty
         else aa_comp_arg (st\<lparr>aa_fn := Some fn0\<rparr>) i ty) = Inr st'"
      by (auto simp: aa_place_arg_def Let_def)
    note r' = r [folded st0_def]
    have k: "kind_of ty = Inr (if h \<noteq> 0 then KHfa (4 - h mod 4) else if ffi_size ty > 16 then KRef
        else KComp (unat ((ffi_size ty + 7) div 8)))"
      using agg ni h by (simp add: kind_of_def)
    show ?thesis
      using k r' eq aa_hfa_arg_refines [OF _ fresh] aa_ref_arg_refines [OF _ fresh]
        aa_comp_arg_refines [OF _ fresh] by (auto split: if_splits simp del: alloc.simps)
  qed
qed

section \<open>All arguments\<close>

definition arg_room :: "ffi_type \<Rightarrow> nat" where
  "arg_room ty = unat (ffi_size ty) + 8 + 2 ^ 15"

definition abs_arg :: "kind \<Rightarrow> ffi_type \<Rightarrow> kind \<times> nat \<times> nat" where
  "abs_arg k ty = (k, unat (ffi_size ty), unat (ffi_alignment ty))"

definition slot_size :: "kind \<Rightarrow> nat \<Rightarrow> nat" where
  "slot_size k sz = (if k = KRef then 8 else sz)"

lemma to_stack_nsaa:
  assumes "to_stack s sz al = (s', l)" "0 < al"
  shows "nsaa s \<le> nsaa s'" "nsaa s' < nsaa s + sz + max 8 al"
    "l = LMem (nsaa s' - sz) \<and> sz \<le> nsaa s' \<and> nsaa s \<le> nsaa s' - sz"
proof -
  let ?al = "if varargs s then max 8 al else al"
  have al: "0 < ?al" "?al \<le> max 8 al" using assms(2) by auto
  note b = align_up_bounds [OF al(1), of "nsaa s"]
  from assms(1) have "s' = s\<lparr>nsaa := align_up (nsaa s) ?al + sz\<rparr>" "l = LMem (align_up (nsaa s) ?al)"
    by (auto simp: to_stack_def Let_def)
  with b al show "nsaa s \<le> nsaa s'" "nsaa s' < nsaa s + sz + max 8 al"
    "l = LMem (nsaa s' - sz) \<and> sz \<le> nsaa s' \<and> nsaa s \<le> nsaa s' - sz"
    by simp_all
qed

lemma alloc_nsaa:
  assumes "alloc s k sz al = (s', l)" "0 < al"
  shows "nsaa s \<le> nsaa s'" "nsaa s' \<le> nsaa s + slot_size k sz + max 8 al"
    "l = LMem p \<Longrightarrow> nsaa s \<le> p \<and> p + slot_size k sz \<le> nsaa s'"
  using assms(1)
  by (cases k; fastforce simp: slot_size_def split: if_splits dest: to_stack_nsaa [OF _ assms(2)])+

lemma end_fixed_abs:
  "end_fixed nfixed i (abs_st st) = abs_st (if i + 1 = nfixed
     then st\<lparr>gprcount := N_X_ARG_REG, ssecount := N_V_ARG_REG, allocating_variadic := True\<rparr> else st)"
  by (simp add: end_fixed_def abs_st_def N_X_ARG_REG_def N_V_ARG_REG_def)

text \<open>The placed arguments form a list that agrees with types, kinds and locations.\<close>

definition all_placed ::
  "ABIArgInfo list \<Rightarrow> ffi_type list \<Rightarrow> kind list \<Rightarrow> loc list \<Rightarrow> bool" where
  "all_placed xs tys ks ls \<longleftrightarrow> length xs = length tys \<and> length ks = length tys \<and> length ls = length tys
     \<and> (\<forall>j<length tys. kind_of (tys ! j) = Inr (ks ! j) \<and> placed (xs ! j) (tys ! j) (ks ! j) (ls ! j))"

lemma all_placed_Cons:
  "all_placed (x # xs) (ty # tys) (k # ks) (l # ls) \<longleftrightarrow>
   kind_of ty = Inr k \<and> placed x ty k l \<and> all_placed xs tys ks ls"
  by (auto simp: all_placed_def nth_Cons' less_Suc_eq_0_disj)

lemma aa_place_args_refines:
  assumes "aa_place_args st nfixed i tys = Inr st'" "aa_fn st = Some fn"
    and "length (fi_ainfo fn) = i + length tys"
    and "\<forall>j. i \<le> j \<longrightarrow> j < length (fi_ainfo fn) \<longrightarrow> fi_ainfo fn ! j = zeroArgInfo"
    and "\<forall>ty\<in>set tys. ok_align (ffi_alignment ty)"
    and "unat (stack_offset st) + sum_list (map arg_room tys) < 2 ^ 32"
  shows "\<exists>ks ls fn'. aa_fn st' = Some fn' \<and> take i (fi_ainfo fn') = take i (fi_ainfo fn)
    \<and> fn'\<lparr>fi_ainfo := []\<rparr> = fn\<lparr>fi_ainfo := []\<rparr>
    \<and> all_placed (drop i (fi_ainfo fn')) tys ks ls
    \<and> alloc_all (abs_st st) nfixed i (map2 abs_arg ks tys) = (abs_st st', ls)
    \<and> unat (stack_offset st') \<le> unat (stack_offset st) + sum_list (map arg_room tys)"
  using assms
proof (induction tys arbitrary: st i fn)
  case Nil
  then show ?case by (auto simp: all_placed_def)
next
  case (Cons ty tys)
  from Cons.prems(1) obtain st1 where st1: "aa_place_arg st i ty = Inr st1"
    and rec: "aa_place_args (if i + 1 = nfixed then st1\<lparr>gprcount := N_X_ARG_REG,
        ssecount := N_V_ARG_REG, allocating_variadic := True\<rparr> else st1) nfixed (i + 1) tys = Inr st'"
    (is "aa_place_args ?st2 _ _ _ = _")
    by (auto simp: Let_def)
  from aa_place_arg_refines [OF st1 Cons.prems(2)] Cons.prems
  obtain k where k: "kind_of ty = Inr k" and step: "step_ok st fn i ty k
      (alloc (abs_st st) k (unat (ffi_size ty)) (unat (ffi_alignment ty))) st1"
    by (auto simp: arg_room_def)
  then obtain x l where x: "i < length (fi_ainfo fn)"
    "aa_fn st1 = Some (fn\<lparr>fi_ainfo := (fi_ainfo fn)[i := x]\<rparr>)" "placed x ty k l"
    "alloc (abs_st st) k (unat (ffi_size ty)) (unat (ffi_alignment ty)) = (abs_st st1, l)"
    by (auto simp: step_ok_def)
  let ?fn1 = "fn\<lparr>fi_ainfo := (fi_ainfo fn)[i := x]\<rparr>"
  have ok: "ok_align (ffi_alignment ty)" using Cons.prems(5) by simp
  have "unat (stack_offset st1) \<le> unat (stack_offset st) + slot_size k (unat (ffi_size ty))
      + max 8 (unat (ffi_alignment ty))"
    using alloc_nsaa(2) [OF x(4) ok_align_pos [OF ok]] by (simp add: abs_st_def)
  also have "\<dots> \<le> unat (stack_offset st) + arg_room ty"
    using ok_align_bound [OF ok] by (auto simp: slot_size_def arg_room_def)
  finally have off: "unat (stack_offset ?st2) \<le> unat (stack_offset st) + arg_room ty"
    by simp
  have "\<exists>ks ls fn'. aa_fn st' = Some fn' \<and> take (i + 1) (fi_ainfo fn') = take (i + 1) (fi_ainfo ?fn1)
    \<and> fn'\<lparr>fi_ainfo := []\<rparr> = ?fn1\<lparr>fi_ainfo := []\<rparr>
    \<and> all_placed (drop (i + 1) (fi_ainfo fn')) tys ks ls
    \<and> alloc_all (abs_st ?st2) nfixed (i + 1) (map2 abs_arg ks tys) = (abs_st st', ls)
    \<and> unat (stack_offset st') \<le> unat (stack_offset ?st2) + sum_list (map arg_room tys)"
    by (rule Cons.IH [OF rec]) (use x Cons.prems off in auto)
  then obtain ks ls fn' where r: "aa_fn st' = Some fn'"
    "take (i + 1) (fi_ainfo fn') = take (i + 1) (fi_ainfo ?fn1)"
    "fn'\<lparr>fi_ainfo := []\<rparr> = ?fn1\<lparr>fi_ainfo := []\<rparr>"
    "all_placed (drop (i + 1) (fi_ainfo fn')) tys ks ls"
    "alloc_all (end_fixed nfixed i (abs_st st1)) nfixed (i + 1) (map2 abs_arg ks tys) = (abs_st st', ls)"
    "unat (stack_offset st') \<le> unat (stack_offset ?st2) + sum_list (map arg_room tys)"
    unfolding end_fixed_abs by blast
  have fn': "i < length (fi_ainfo fn')" "fi_ainfo fn' ! i = x" "take i (fi_ainfo fn') = take i (fi_ainfo fn)"
    using take_Suc_eqD [of i "fi_ainfo fn'" "fi_ainfo ?fn1"] r(2) x(1) by auto
  have "drop i (fi_ainfo fn') = x # drop (i + 1) (fi_ainfo fn')"
    using fn'(1,2) by (metis Cons_nth_drop_Suc Suc_eq_plus1)
  moreover have "alloc_all (abs_st st) nfixed i (map2 abs_arg (k # ks) (ty # tys)) = (abs_st st', l # ls)"
    using x(4) r(5) by (simp add: abs_arg_def)
  ultimately show ?case
    using r fn' k x(3) off by (intro exI [of _ "k # ks"] exI [of _ "l # ls"] exI [of _ fn']) (simp add: all_placed_Cons)
qed

section \<open>Consequences of the allocation rules\<close>

fun loc_regs :: "loc \<Rightarrow> nat list" where
  "loc_regs (LRegs rs) = rs"
| "loc_regs (LMem p) = []"

definition free_regs :: "nstate \<Rightarrow> nat set" where
  "free_regs s = TE_X ` {ngrn s ..< 8} \<union> TE_Q ` {nsrn s ..< 8}"

lemma TE_X_eq_iff [simp]: "TE_X a = TE_X b \<longleftrightarrow> a = b" and TE_Q_eq_iff [simp]: "TE_Q a = TE_Q b \<longleftrightarrow> a = b"
  by (simp_all add: te_reg_defs)

lemma TE_X_neq_TE_Q: "a < 8 \<Longrightarrow> b < 8 \<Longrightarrow> TE_X a \<noteq> TE_Q b"
  by (simp add: te_reg_defs)

definition takes :: "nstate \<Rightarrow> nstate \<times> loc \<Rightarrow> bool" where
  "takes s r \<longleftrightarrow> distinct (loc_regs (snd r)) \<and> set (loc_regs (snd r)) \<subseteq> free_regs s
     \<and> free_regs (fst r) \<subseteq> free_regs s - set (loc_regs (snd r)) \<and> ngrn (fst r) \<le> 8 \<and> nsrn (fst r) \<le> 8"

lemma takes_stack: "takes (s\<lparr>ngrn := 8\<rparr>) (to_stack (s\<lparr>ngrn := 8\<rparr>) sz al)" if "nsrn s \<le> 8"
  using that by (auto simp: takes_def to_stack_def Let_def free_regs_def)

lemma takes_stack_v: "takes (s\<lparr>nsrn := 8\<rparr>) (to_stack (s\<lparr>nsrn := 8\<rparr>) sz al)" if "ngrn s \<le> 8"
  using that by (auto simp: takes_def to_stack_def Let_def free_regs_def)

lemma TE_X_TE_Q_disjoint: "TE_X ` {a ..< 8} \<inter> TE_Q ` {b ..< 8} = {}"
  using TE_X_neq_TE_Q by auto

lemma takes_X:
  assumes "ngrn s + n \<le> 8" "nsrn s \<le> 8"
  shows "takes s (s\<lparr>ngrn := ngrn s + n\<rparr>, LRegs (map TE_X [ngrn s ..< ngrn s + n]))"
proof -
  have "TE_X ` {ngrn s ..< ngrn s + n} \<subseteq> TE_X ` {ngrn s ..< 8}"
    "TE_X ` {ngrn s + n ..< 8} \<subseteq> TE_X ` {ngrn s ..< 8} - TE_X ` {ngrn s ..< ngrn s + n}"
    using assms by auto
  then show ?thesis
    using assms TE_X_TE_Q_disjoint [of "ngrn s" "nsrn s"]
    by (simp add: takes_def free_regs_def distinct_map inj_on_def) blast
qed

lemma takes_Q:
  assumes "nsrn s + n \<le> 8" "ngrn s \<le> 8"
  shows "takes s (s\<lparr>nsrn := nsrn s + n\<rparr>, LRegs (map TE_Q [nsrn s ..< nsrn s + n]))"
proof -
  have "TE_Q ` {nsrn s ..< nsrn s + n} \<subseteq> TE_Q ` {nsrn s ..< 8}"
    "TE_Q ` {nsrn s + n ..< 8} \<subseteq> TE_Q ` {nsrn s ..< 8} - TE_Q ` {nsrn s ..< nsrn s + n}"
    using assms by auto
  then show ?thesis
    using assms TE_X_TE_Q_disjoint [of "ngrn s" "nsrn s"]
    by (simp add: takes_def free_regs_def distinct_map inj_on_def) blast
qed

lemma takes_weaken: "takes s1 r \<Longrightarrow> free_regs s1 \<subseteq> free_regs s \<Longrightarrow> takes s r"
  by (auto simp: takes_def)

lemma alloc_takes:
  assumes "ngrn s \<le> 8" "nsrn s \<le> 8"
  shows "takes s (alloc s k sz al)"
proof -
  have w: "free_regs (s\<lparr>ngrn := 8\<rparr>) \<subseteq> free_regs s" "free_regs (s\<lparr>nsrn := 8\<rparr>) \<subseteq> free_regs s"
    by (auto simp: free_regs_def)
  note st = takes_weaken [OF takes_stack [OF assms(2)] w(1)]
    and stv = takes_weaken [OF takes_stack_v [OF assms(1)] w(2)]
  show ?thesis
    using assms takes_X [of s 1] st stv takes_X takes_Q
    by (cases k) (simp_all add: upt_rec)
qed

lemma alloc_regs:
  assumes "alloc s k sz al = (s', l)" "ngrn s \<le> 8" "nsrn s \<le> 8"
  shows "distinct (loc_regs l)" "set (loc_regs l) \<subseteq> free_regs s"
    "free_regs s' \<subseteq> free_regs s - set (loc_regs l)" "ngrn s' \<le> 8" "nsrn s' \<le> 8"
  using alloc_takes [OF assms(2,3), of k sz al] assms(1) by (simp_all add: takes_def)

lemma end_fixed_regs:
  "free_regs (end_fixed n i s) \<subseteq> free_regs s"
  "ngrn s \<le> 8 \<Longrightarrow> ngrn (end_fixed n i s) \<le> 8" "nsrn s \<le> 8 \<Longrightarrow> nsrn (end_fixed n i s) \<le> 8"
  "nsaa (end_fixed n i s) = nsaa s"
  by (auto simp: end_fixed_def free_regs_def)

lemma alloc_all_regs:
  assumes "alloc_all s nfixed i as = (s', ls)" "ngrn s \<le> 8" "nsrn s \<le> 8"
  shows "distinct (concat (map loc_regs ls)) \<and> set (concat (map loc_regs ls)) \<subseteq> free_regs s"
  using assms
proof (induction as arbitrary: s i ls)
  case Nil
  then show ?case by simp
next
  case (Cons ksa as)
  obtain k sz al where ksa: "ksa = (k, sz, al)" by (cases ksa)
  obtain s1 l where a: "alloc s k sz al = (s1, l)" by fastforce
  obtain s2 ls1 where b: "alloc_all (end_fixed nfixed i s1) nfixed (i + 1) as = (s2, ls1)" by fastforce
  note r = alloc_regs [OF a Cons.prems(2,3)]
  have "distinct (concat (map loc_regs ls1))
      \<and> set (concat (map loc_regs ls1)) \<subseteq> free_regs (end_fixed nfixed i s1)"
    by (rule Cons.IH) (use b end_fixed_regs(2,3) r(4,5) Cons.prems(1) a ksa in auto)
  then have "distinct (concat (map loc_regs ls1))" "set (concat (map loc_regs ls1)) \<subseteq> free_regs s1"
    using end_fixed_regs(1) by blast+
  moreover have "ls = l # ls1" using Cons.prems(1) a b ksa by simp
  ultimately show ?case using r by auto
qed

text \<open>Stack slots in order between \<open>lo\<close> and \<open>hi\<close>.\<close>

fun slots :: "nat \<Rightarrow> (kind \<times> nat \<times> nat) list \<Rightarrow> loc list \<Rightarrow> nat \<Rightarrow> bool" where
  "slots lo [] [] hi \<longleftrightarrow> lo \<le> hi"
| "slots lo (a # as) (LMem p # ls) hi \<longleftrightarrow>
     lo \<le> p \<and> slots (p + slot_size (fst a) (fst (snd a))) as ls hi"
| "slots lo (a # as) (LRegs rs # ls) hi \<longleftrightarrow> slots lo as ls hi"
| "slots lo _ _ hi \<longleftrightarrow> False"

lemma slots_mono: "slots lo as ls hi \<Longrightarrow> lo' \<le> lo \<Longrightarrow> slots lo' as ls hi"
  by (induction lo as ls hi arbitrary: lo' rule: slots.induct) auto

lemma slots_le: "slots lo as ls hi \<Longrightarrow> lo \<le> hi"
  by (induction lo as ls hi rule: slots.induct) auto

lemma slots_order:
  assumes "slots lo as ls hi"
  shows "length ls = length as" "lo \<le> hi"
    "i < length as \<Longrightarrow> ls ! i = LMem p \<Longrightarrow> lo \<le> p \<and> p + slot_size (fst (as ! i)) (fst (snd (as ! i))) \<le> hi"
    "i < j \<Longrightarrow> j < length as \<Longrightarrow> ls ! i = LMem p \<Longrightarrow> ls ! j = LMem q \<Longrightarrow>
      p + slot_size (fst (as ! i)) (fst (snd (as ! i))) \<le> q"
proof -
  have *: "length ls = length as \<and> lo \<le> hi"
    using assms by (induction lo as ls hi rule: slots.induct) auto
  then show "length ls = length as" "lo \<le> hi" by simp_all
  have bound: "lo \<le> p \<and> p + slot_size (fst (as ! i)) (fst (snd (as ! i))) \<le> hi"
    if "slots lo as ls hi" "i < length as" "ls ! i = LMem p" for lo as ls hi i p
    using that
  proof (induction lo as ls hi arbitrary: i rule: slots.induct)
    case (2 lo a as p' ls hi)
    have "p' + slot_size (fst a) (fst (snd a)) \<le> hi"
      using "2.prems"(1) slots_le by auto
    with "2" show ?case by (cases i) fastforce+
  next
    case (3 lo a as rs ls hi)
    then show ?case by (cases i) auto
  qed auto
  then show "i < length as \<Longrightarrow> ls ! i = LMem p \<Longrightarrow>
      lo \<le> p \<and> p + slot_size (fst (as ! i)) (fst (snd (as ! i))) \<le> hi"
    using assms by blast
  show "p + slot_size (fst (as ! i)) (fst (snd (as ! i))) \<le> q"
    if "i < j" "j < length as" "ls ! i = LMem p" "ls ! j = LMem q"
    using assms that
  proof (induction lo as ls hi arbitrary: i j rule: slots.induct)
    case (2 lo a as p' ls hi)
    then obtain j' where j: "j = Suc j'" by (cases j) auto
    show ?case
    proof (cases i)
      case 0
      with "2.prems" j bound [of "p' + slot_size (fst a) (fst (snd a))" as ls hi j' q] show ?thesis by auto
    next
      case (Suc i')
      with "2.prems" j show ?thesis by (auto intro: "2.IH")
    qed
  next
    case (3 lo a as rs ls hi)
    then obtain i' j' where "i = Suc i'" "j = Suc j'" by (cases i; cases j) auto
    with "3" show ?case by auto
  qed auto
qed

lemma alloc_all_slots:
  assumes "alloc_all s nfixed i as = (s', ls)" "\<forall>a\<in>set as. 0 < snd (snd a)"
  shows "slots (nsaa s) as ls (nsaa s')"
  using assms
proof (induction as arbitrary: s i ls)
  case Nil
  then show ?case by simp
next
  case (Cons ksa as)
  obtain k sz al where ksa: "ksa = (k, sz, al)" by (cases ksa)
  obtain s1 l where a: "alloc s k sz al = (s1, l)" by fastforce
  obtain s2 ls1 where b: "alloc_all (end_fixed nfixed i s1) nfixed (i + 1) as = (s2, ls1)" by fastforce
  have eq: "s' = s2" "ls = l # ls1" using Cons.prems(1) a b ksa by auto
  have pos: "0 < al" using Cons.prems(2) ksa by auto
  have IH: "slots (nsaa s1) as ls1 (nsaa s2)"
    using Cons.IH [of "end_fixed nfixed i s1" "i + 1" ls1] b eq Cons.prems(2)
    by (simp add: end_fixed_regs(4))
  note n = alloc_nsaa [OF a pos]
  show ?case
  proof (cases l)
    case (LRegs rs)
    with slots_mono [OF IH n(1)] show ?thesis by (simp add: eq)
  next
    case (LMem p)
    with n(3) [OF LMem] slots_mono [OF IH] show ?thesis by (simp add: eq ksa)
  qed
qed

end
