(* ===== verification/Aa_Locations.thy ===== *)
theory Aa_Locations
  imports Aa_Alloc
begin

text \<open>
  What \<open>aa_prep_cif.c\<close> computes for a whole signature: the locations follow the abstract
  allocation rules, no two arguments share storage, variable arguments are on the stack.
\<close>

section \<open>The locations of a whole signature\<close>

definition init_nstate :: nstate where
  "init_nstate = \<lparr>ngrn = 0, nsrn = 0, nsaa = 0, varargs = False\<rparr>"

definition arg_regs :: "ABIArgInfo \<Rightarrow> nat list" where
  "arg_regs x = (if te_is_mem x then [] else te_regs x)"

definition stack_slot :: "ABIArgInfo \<Rightarrow> nat" where
  "stack_slot x = (if te_is_indirect x then 8 else unat (te_get_arg_size x))"

lemma init_type_nonzero: "init_type ty = Inr ty' \<Longrightarrow> ffi_size ty' \<noteq> 0"
  by (auto simp: init_type_def split: if_splits option.splits elim: initialize_aggregate_elements)

lemma aa_init_args_Inr:
  "aa_init_args tys b = Inr (tys', b') \<Longrightarrow>
   length tys' = length tys \<and> (\<forall>j<length tys. init_type (tys ! j) = Inr (tys' ! j))"
proof (induction tys arbitrary: b tys')
  case (Cons ty tys)
  then show ?case by (fastforce simp: Let_def less_Suc_eq_0_disj)
qed simp

lemma prep_core_Inr:
  assumes "my_aa_fi_prep_cif_core abi isv nfixed ntotal rtype atypes fn0 = Inr (cif, fn)"
  obtains st flags fn1 b b' where
    "aa_init_args atypes b = Inr (aa_arg_types cif, b')"
    "init_type rtype = Inr (aa_rtype cif)"
    "fn_ret_upd fn0 (aa_store_ret flags) = Inr fn1" "aa_flags cif = flags"
    "aa_place_args \<lparr>gprcount = 0, ssecount = 0, stack_offset = 0, allocating_variadic = False, aa_fn = fn1\<rparr>
        (if isv then nfixed else 0) 0 (aa_arg_types cif) = Inr st"
    "fn = map_option (\<lambda>f. f\<lparr>fi_bytes := ucast (stack_offset st)\<rparr>) (aa_fn st)"
    "isv \<longrightarrow> 1 \<le> nfixed" "nfixed \<le> ntotal"
  using assms
  by (auto simp: my_aa_fi_prep_cif_core_def my_aa_fi_prep_cif_machdep_var_def
      my_aa_fi_prep_cif_machdep_def Let_def split: if_splits)

lemma prep_core_refines:
  assumes prep: "my_aa_fi_prep_cif_core abi isv nfixed (length atypes) rtype atypes (Some fn0) = Inr (cif, Some fn)"
    and zero: "fi_ainfo fn0 = replicate (length atypes) zeroArgInfo"
    and ok: "\<forall>ty\<in>set (aa_arg_types cif). ok_align (ffi_alignment ty)"
    and room: "sum_list (map arg_room (aa_arg_types cif)) < 2 ^ 32"
  shows "\<exists>ks s ls. all_placed (fi_ainfo fn) (aa_arg_types cif) ks ls
    \<and> alloc_all init_nstate (if isv then nfixed else 0) 0 (map2 abs_arg ks (aa_arg_types cif)) = (s, ls)
    \<and> unat (fi_bytes fn) = nsaa s \<and> nsaa s \<le> sum_list (map arg_room (aa_arg_types cif))"
proof -
  from prep obtain st flags fn1 b b' where
    a: "aa_init_args atypes b = Inr (aa_arg_types cif, b')"
    and r: "fn_ret_upd (Some fn0) (aa_store_ret flags) = Inr fn1"
    and p: "aa_place_args \<lparr>gprcount = 0, ssecount = 0, stack_offset = 0, allocating_variadic = False, aa_fn = fn1\<rparr>
        (if isv then nfixed else 0) 0 (aa_arg_types cif) = Inr st"
    and f: "Some fn = map_option (\<lambda>f. f\<lparr>fi_bytes := ucast (stack_offset st)\<rparr>) (aa_fn st)"
    by (auto elim: prep_core_Inr)
  from r obtain ri where fn1: "fn1 = Some (fn0\<lparr>fi_rinfo := ri\<rparr>)"
    by (auto simp: fn_ret_upd_def bindR_Inr_iff)
  have len: "length (aa_arg_types cif) = length atypes"
    using aa_init_args_Inr [OF a] by simp
  from aa_place_args_refines [OF p, of "fn0\<lparr>fi_rinfo := ri\<rparr>"] fn1 zero len ok room
  obtain ks ls fn' where fn': "aa_fn st = Some fn'" "all_placed (fi_ainfo fn') (aa_arg_types cif) ks ls"
    "alloc_all init_nstate (if isv then nfixed else 0) 0 (map2 abs_arg ks (aa_arg_types cif)) = (abs_st st, ls)"
    and le: "unat (stack_offset st) \<le> sum_list (map arg_room (aa_arg_types cif))"
    by (auto simp: abs_st_def init_nstate_def)
  have fn: "fi_ainfo fn = fi_ainfo fn'" "fi_bytes fn = ucast (stack_offset st)"
    using f fn'(1) by simp_all
  have "unat (stack_offset st) < 2 ^ 32"
    using le room by simp
  then have "unat (fi_bytes fn) = nsaa (abs_st st)"
    by (simp add: fn abs_st_def unsigned_ucast_eq unsigned_take_bit_eq take_bit_nat_eq_self)
  moreover have "nsaa (abs_st st) \<le> sum_list (map arg_room (aa_arg_types cif))"
    using le by (simp add: abs_st_def)
  ultimately show ?thesis using fn fn' by metis
qed


lemma placed_arg_regs: "placed x ty k l \<Longrightarrow> arg_regs x = loc_regs l"
  by (auto simp: placed_def arg_regs_def loc_of_def)

lemma all_placed_arg_regs:
  assumes "all_placed xs tys ks ls"
  shows "map arg_regs xs = map loc_regs ls"
proof (rule nth_equalityI)
  fix i assume "i < length (map arg_regs xs)"
  then show "map arg_regs xs ! i = map loc_regs ls ! i"
    using assms placed_arg_regs [of "xs ! i" "tys ! i" "ks ! i" "ls ! i"]
    by (simp add: all_placed_def)
qed (use assms in \<open>simp add: all_placed_def\<close>)

lemma placed_slot:
  assumes "placed x ty k l" "te_is_mem x" "unat (ffi_size ty) < 2 ^ 32"
  shows "l = LMem (unat (te_get_mem x))" "stack_slot x = slot_size k (unat (ffi_size ty))"
  using assms
  by (auto simp: placed_def loc_of_def stack_slot_def slot_size_def te_get_arg_size_def
      unsigned_ucast_eq unsigned_take_bit_eq take_bit_nat_eq_self)

lemma sum_arg_room_bound: "ty \<in> set tys \<Longrightarrow> unat (ffi_size ty) < sum_list (map arg_room tys)"
  using member_le_sum_list [of "arg_room ty" "map arg_room tys"] by (simp add: arg_room_def)

text \<open>
  C3.  Every argument that \<open>my_aa_fi_prep_cif\<close> and its variadic variant place has storage of
  its own: the registers handed out are X0 to X7 and Q0 to Q7, each at most once over the
  whole signature; the stack slots follow one another without overlap, and the byte count
  stored in the result covers all of them.
\<close>

theorem aa_locations_disjoint:
  assumes prep: "my_aa_fi_prep_cif_core abi isv nfixed (length atypes) rtype atypes (Some fn0) = Inr (cif, Some fn)"
    and zero: "fi_ainfo fn0 = replicate (length atypes) zeroArgInfo"
    and ok: "\<forall>ty\<in>set (aa_arg_types cif). ok_align (ffi_alignment ty)"
    and room: "sum_list (map arg_room (aa_arg_types cif)) < 2 ^ 32"
  shows "distinct (concat (map arg_regs (fi_ainfo fn)))
    \<and> set (concat (map arg_regs (fi_ainfo fn))) \<subseteq> TE_X ` {0..<8} \<union> TE_Q ` {0..<8}
    \<and> (\<forall>i<length atypes. te_is_mem (fi_ainfo fn ! i) \<longrightarrow>
         unat (te_get_mem (fi_ainfo fn ! i)) + stack_slot (fi_ainfo fn ! i) \<le> unat (fi_bytes fn))
    \<and> (\<forall>j<length atypes. \<forall>i<j. te_is_mem (fi_ainfo fn ! i) \<longrightarrow> te_is_mem (fi_ainfo fn ! j) \<longrightarrow>
         unat (te_get_mem (fi_ainfo fn ! i)) + stack_slot (fi_ainfo fn ! i)
           \<le> unat (te_get_mem (fi_ainfo fn ! j)))"
proof -
  obtain ks s ls where pl: "all_placed (fi_ainfo fn) (aa_arg_types cif) ks ls"
    and al: "alloc_all init_nstate (if isv then nfixed else 0) 0 (map2 abs_arg ks (aa_arg_types cif)) = (s, ls)"
    and bytes: "unat (fi_bytes fn) = nsaa s"
    using prep_core_refines [OF assms] by blast
  let ?as = "map2 abs_arg ks (aa_arg_types cif)"
  have len: "length (aa_arg_types cif) = length atypes"
    using prep by (auto elim!: prep_core_Inr dest: aa_init_args_Inr)
  have lens: "length (fi_ainfo fn) = length atypes" "length ks = length atypes" "length ls = length atypes"
    using pl len by (simp_all add: all_placed_def)
  have "map arg_regs (fi_ainfo fn) = map loc_regs ls"
    by (rule all_placed_arg_regs [OF pl])
  moreover have "distinct (concat (map loc_regs ls)) \<and> set (concat (map loc_regs ls)) \<subseteq> free_regs init_nstate"
    by (rule alloc_all_regs [OF al]) (simp_all add: init_nstate_def)
  moreover have sl: "slots 0 ?as ls (nsaa s)"
  proof -
    have "0 < unat (ffi_alignment ty)" if "ty \<in> set (aa_arg_types cif)" for ty
      using ok ok_align_pos that by blast
    then have "\<forall>a\<in>set ?as. 0 < snd (snd a)"
      by (auto simp: set_zip abs_arg_def)
    from alloc_all_slots [OF al this] show ?thesis by (simp add: init_nstate_def)
  qed
  have mem: "ls ! i = LMem (unat (te_get_mem (fi_ainfo fn ! i)))"
    "stack_slot (fi_ainfo fn ! i) = slot_size (fst (?as ! i)) (fst (snd (?as ! i)))"
    if "i < length atypes" "te_is_mem (fi_ainfo fn ! i)" for i
  proof -
    have "unat (ffi_size (aa_arg_types cif ! i)) < 2 ^ 32"
      using sum_arg_room_bound [of "aa_arg_types cif ! i" "aa_arg_types cif"] that len room by simp
    with placed_slot [of "fi_ainfo fn ! i" "aa_arg_types cif ! i" "ks ! i" "ls ! i"] that pl len lens
    show "ls ! i = LMem (unat (te_get_mem (fi_ainfo fn ! i)))"
      "stack_slot (fi_ainfo fn ! i) = slot_size (fst (?as ! i)) (fst (snd (?as ! i)))"
      by (auto simp: all_placed_def abs_arg_def)
  qed
  moreover note slots_order(3,4) [OF sl]
  ultimately show ?thesis
    using len lens by (simp add: bytes init_nstate_def free_regs_def)
qed

section \<open>Variable arguments\<close>

fun kind_pos :: "kind \<Rightarrow> bool" where
  "kind_pos (KHfa n) \<longleftrightarrow> 0 < n"
| "kind_pos (KComp n) \<longleftrightarrow> 0 < n"
| "kind_pos _ \<longleftrightarrow> True"

lemma kind_of_pos:
  assumes "kind_of ty = Inr k" "ffi_size ty \<noteq> 0"
  shows "kind_pos k"
proof -
  have "0 < unat ((ffi_size ty + 7) div 8)" if "\<not> ffi_size ty > 16"
  proof -
    have u: "unat (ffi_size ty) \<le> 16" "0 < unat (ffi_size ty)"
      using that assms(2) by (simp_all add: word_le_nat_alt not_less unat_gt_0)
    then have "unat (ffi_size ty + 7) = unat (ffi_size ty) + 7"
      by (simp add: unat_word_ariths)
    with u show ?thesis by (simp add: unat_div)
  qed
  with assms(1) show ?thesis
    by (auto simp: kind_of_def split: if_splits)
qed

lemma ok_align_dvd8: "ok_align a \<Longrightarrow> 8 dvd max 8 (unat a)"
proof -
  assume "ok_align a"
  then obtain k where k: "unat a = 2 ^ k" by (rule ok_alignE)
  show ?thesis
  proof (cases "k \<le> 3")
    case True
    then have "(2 :: nat) ^ k \<le> 2 ^ 3" by (intro power_increasing) simp_all
    then show ?thesis by (simp add: k max_absorb1)
  next
    case False
    then have "(8 :: nat) dvd 2 ^ k" using le_imp_power_dvd [of 3 k 2] by simp
    then show ?thesis by (simp add: k max_def)
  qed
qed

lemma alloc_varargs:
  assumes "varargs s" "ngrn s = 8" "nsrn s = 8" "kind_pos k" "8 dvd max 8 al" "0 < al"
    "alloc s k sz al = (s', l)"
  shows "varargs s' \<and> ngrn s' = 8 \<and> nsrn s' = 8 \<and> (\<exists>p. l = LMem p \<and> 8 dvd p)"
proof -
  have "8 dvd align_up n (max 8 al)" for n
    using assms(5) by (auto simp: align_up_def intro: dvd_trans)
  with assms show ?thesis by (cases k) (auto simp: to_stack_def Let_def)
qed

lemma alloc_all_varargs:
  assumes "alloc_all s nfixed i as = (s', ls)" "i < nfixed \<or> varargs s \<and> ngrn s = 8 \<and> nsrn s = 8"
    "\<forall>a\<in>set as. kind_pos (fst a) \<and> 8 dvd max 8 (snd (snd a)) \<and> 0 < snd (snd a)"
    "j < length as" "nfixed \<le> i + j"
  shows "\<exists>p. ls ! j = LMem p \<and> 8 dvd p"
  using assms
proof (induction as arbitrary: s i ls j)
  case (Cons ksa as)
  obtain k sz al where ksa: "ksa = (k, sz, al)" by (cases ksa)
  obtain s1 l where a: "alloc s k sz al = (s1, l)" by fastforce
  obtain s2 ls1 where b: "alloc_all (end_fixed nfixed i s1) nfixed (i + 1) as = (s2, ls1)" by fastforce
  have eq: "s' = s2" "ls = l # ls1" using Cons.prems(1) a b ksa by auto
  have hd: "kind_pos k" "8 dvd max 8 al" "0 < al" using Cons.prems(3) ksa by auto
  note st = alloc_varargs [OF _ _ _ hd a]
  show ?case
  proof (cases j)
    case 0
    with Cons.prems(2,5) st eq show ?thesis by auto
  next
    case (Suc j')
    have "i + 1 < nfixed \<or> varargs (end_fixed nfixed i s1) \<and> ngrn (end_fixed nfixed i s1) = 8
        \<and> nsrn (end_fixed nfixed i s1) = 8"
      using Cons.prems(2) st by (auto simp: end_fixed_def)
    with Cons.IH [OF b [folded eq(1)] this, of j'] Cons.prems(3-5) eq Suc show ?thesis by simp
  qed
qed simp

text \<open>
  C5.  On this platform variable arguments live on the stack only: every argument after the
  \<open>nfixed\<close> named ones is given a stack location, at an offset divisible by eight.
\<close>

theorem aa_varargs_on_stack:
  assumes prep: "my_aa_fi_prep_cif_var abi nfixed (length atypes) rtype atypes (Some fn0) = Inr (cif, Some fn)"
    and zero: "fi_ainfo fn0 = replicate (length atypes) zeroArgInfo"
    and ok: "\<forall>ty\<in>set (aa_arg_types cif). ok_align (ffi_alignment ty)"
    and room: "sum_list (map arg_room (aa_arg_types cif)) < 2 ^ 32"
    and j: "nfixed \<le> j" "j < length atypes"
  shows "te_is_mem (fi_ainfo fn ! j) \<and> 8 dvd unat (te_get_mem (fi_ainfo fn ! j))"
proof -
  note core = prep [unfolded my_aa_fi_prep_cif_var_def]
  obtain ks s ls where pl: "all_placed (fi_ainfo fn) (aa_arg_types cif) ks ls"
    and al: "alloc_all init_nstate nfixed 0 (map2 abs_arg ks (aa_arg_types cif)) = (s, ls)"
    using prep_core_refines [OF core zero ok room] by auto
  have n1: "1 \<le> nfixed" and len: "length (aa_arg_types cif) = length atypes"
    and it: "\<forall>i<length atypes. init_type (atypes ! i) = Inr (aa_arg_types cif ! i)"
    using core by (auto elim!: prep_core_Inr dest!: aa_init_args_Inr)
  have kp: "kind_pos (ks ! i)" if "i < length atypes" for i
    using pl len that it init_type_nonzero [of "atypes ! i"]
    by (intro kind_of_pos [of "aa_arg_types cif ! i"]) (simp_all add: all_placed_def)
  have "\<forall>a\<in>set (map2 abs_arg ks (aa_arg_types cif)). kind_pos (fst a)
      \<and> 8 dvd max 8 (snd (snd a)) \<and> 0 < snd (snd a)"
    using kp ok len ok_align_pos ok_align_dvd8 by (fastforce simp: set_zip abs_arg_def in_set_conv_nth)
  then obtain p where p: "ls ! j = LMem p" "8 dvd p"
    using alloc_all_varargs [OF al, of j] j n1 pl len by (auto simp: all_placed_def)
  have "placed (fi_ainfo fn ! j) (aa_arg_types cif ! j) (ks ! j) (ls ! j)"
    using pl j len by (simp add: all_placed_def)
  with p show ?thesis
    by (auto simp: placed_def loc_of_def split: if_splits)
qed

section \<open>Witnesses\<close>

definition wit_hfa :: ffi_type where
  "wit_hfa = Ffi 0 0 FFI_TYPE_STRUCT (Some [ffi_type_double, ffi_type_double, ffi_type_double])"

definition wit_args :: "ffi_type list" where
  "wit_args = [ffi_type_pointer, wit_hfa, wit_struct, wit_hfa, wit_hfa]"

definition wit_fn :: "nat \<Rightarrow> ABIFnInfo" where
  "wit_fn n = \<lparr>fi_ainfo = replicate n zeroArgInfo, fi_rinfo = zeroArgInfo, fi_nargs = n, fi_bytes = 0,
     fi_ssecount = 0, fi_isCxxStructor = False, fi_variadic = False\<rparr>"

definition wit_types :: "ffi_type list" where
  "wit_types = (let h = Ffi 24 8 FFI_TYPE_STRUCT (ffi_elements wit_hfa) in
     [ffi_type_pointer, h, Ffi 24 8 FFI_TYPE_STRUCT (ffi_elements wit_struct), h, h])"

lemma wit_types_ok:
  "\<forall>ty\<in>set wit_types. ok_align (ffi_alignment ty)"
  "sum_list (map arg_room wit_types) < 2 ^ 32"
  by (simp_all add: wit_types_def Let_def ffi_basic_defs arg_room_def)

lemma wit_fixed:
  "case my_aa_fi_prep_cif_core 1 False 5 5 ffi_type_double wit_args (Some (wit_fn 5)) of
     Inr (cif, Some fn) \<Rightarrow> aa_arg_types cif = wit_types
       \<and> map arg_regs (fi_ainfo fn) = [[TE_X 0], map TE_Q [0..<3], [TE_X 1], map TE_Q [3..<6], []]
       \<and> te_get_mem (fi_ainfo fn ! 4) = 0 \<and> fi_bytes fn = 24
   | _ \<Rightarrow> False"
  by code_simp

definition wit_vargs :: "ffi_type list" where
  "wit_vargs = [ffi_type_pointer, ffi_type_sint8, ffi_type_double]"

lemma wit_vargs_ok:
  "\<forall>ty\<in>set wit_vargs. ok_align (ffi_alignment ty)"
  "sum_list (map arg_room wit_vargs) < 2 ^ 32"
  by (simp_all add: wit_vargs_def Let_def ffi_basic_defs arg_room_def)

lemma wit_var:
  "case my_aa_fi_prep_cif_var 1 1 3 ffi_type_sint32 wit_vargs (Some (wit_fn 3)) of
     Inr (cif, Some fn) \<Rightarrow> aa_arg_types cif = wit_vargs
   | _ \<Rightarrow> False"
  by code_simp

lemma wit_lengths: "length wit_args = 5" "length wit_vargs = 3" "fi_ainfo (wit_fn n) = replicate n zeroArgInfo"
  by (simp_all add: wit_args_def wit_vargs_def wit_fn_def)

lemma wit_result:
  assumes "case m of Inr (cif, Some fn) \<Rightarrow> P cif fn | _ \<Rightarrow> False"
  obtains cif fn where "m = Inr (cif, Some fn)" "P cif fn"
  using assms by (auto split: sum.splits option.splits prod.splits)


theorem aa_locations_disjoint_witness:
  "\<exists>cif fn. my_aa_fi_prep_cif_core 1 False 5 5 ffi_type_double wit_args (Some (wit_fn 5)) = Inr (cif, Some fn)
    \<and> distinct (concat (map arg_regs (fi_ainfo fn)))
    \<and> map arg_regs (fi_ainfo fn) = [[TE_X 0], map TE_Q [0..<3], [TE_X 1], map TE_Q [3..<6], []]"
proof -
  obtain cif fn where r: "my_aa_fi_prep_cif_core 1 False 5 (length wit_args) ffi_type_double wit_args (Some (wit_fn 5)) = Inr (cif, Some fn)"
    "aa_arg_types cif = wit_types"
    "map arg_regs (fi_ainfo fn) = [[TE_X 0], map TE_Q [0..<3], [TE_X 1], map TE_Q [3..<6], []]"
    using wit_fixed unfolding wit_lengths by (rule wit_result) metis
  have "distinct (concat (map arg_regs (fi_ainfo fn)))"
    using aa_locations_disjoint [OF r(1)] wit_types_ok r(2) by (simp add: wit_lengths)
  with r show ?thesis unfolding wit_lengths by metis
qed

theorem aa_varargs_on_stack_witness:
  "\<exists>cif fn. my_aa_fi_prep_cif_var 1 1 3 ffi_type_sint32 wit_vargs (Some (wit_fn 3)) = Inr (cif, Some fn)
    \<and> te_is_mem (fi_ainfo fn ! 2) \<and> 8 dvd unat (te_get_mem (fi_ainfo fn ! 2))"
proof -
  obtain cif fn where r: "my_aa_fi_prep_cif_var 1 1 (length wit_vargs) ffi_type_sint32 wit_vargs (Some (wit_fn 3)) = Inr (cif, Some fn)"
    "aa_arg_types cif = wit_vargs"
    using wit_var unfolding wit_lengths by (rule wit_result) blast
  have "te_is_mem (fi_ainfo fn ! 2) \<and> 8 dvd unat (te_get_mem (fi_ainfo fn ! 2))"
    using aa_varargs_on_stack [OF r(1)] wit_vargs_ok r(2) by (simp add: wit_lengths)
  with r show ?thesis unfolding wit_lengths by metis
qed

section \<open>The stack slot of an indirect argument\<close>

text \<open>
  A structure of more than sixteen bytes is replaced by a pointer.  When the registers are used
  up, the pointer is placed with the alignment of the structure instead of its own: with a
  \<open>char\<close> already on the stack, the pointer to a structure of seventeen \<open>char\<close>s is stored at
  offset one.
\<close>

lemma te_get_mem_or_mask [simp]: "te_get_mem (te_or_mask x m) = te_get_mem x"
  by (simp add: te_get_mem_def)

theorem aa_indirect_pointer_unaligned:
  "\<exists>st fn. aa_ref_arg \<lparr>gprcount = 8, ssecount = 0, stack_offset = 1, allocating_variadic = False,
        aa_fn = Some (wit_fn 1)\<rparr> 0
      (Ffi 17 1 FFI_TYPE_STRUCT (Some (replicate 17 ffi_type_sint8))) = Inr st
    \<and> aa_fn st = Some fn \<and> te_is_mem (fi_ainfo fn ! 0) \<and> te_is_indirect (fi_ainfo fn ! 0)
    \<and> te_get_mem (fi_ainfo fn ! 0) = 1"
  by (simp add: aa_ref_arg_def aa_gpr_arg_def aa_mem_arg_def pass_in_memory_def fn_arg_upd_def wit_fn_def
      FFI_ALIGN_def N_X_ARG_REG_def is_mem_or_mask te_get_set_mem Let_def)

end
