(* ===== verification/Xx_Cif.thy ===== *)
theory Xx_Cif
  imports Aa_Cif
begin

text \<open>
  \<open>tcg/abibridge/type-encoding/xx_prep_cif.c\<close>: where the arguments and the result of a call
  live under the System V x86-64 convention of the host.  In this file
  \<open>FFI_TYPE_LONGDOUBLE\<close> equals \<open>FFI_TYPE_DOUBLE\<close>, so the two \<open>long double\<close> cases are not
  compiled.
\<close>

section \<open>Constants\<close>

definition MAX_GPR_REGS :: nat where "MAX_GPR_REGS = 6"
definition MAX_SSE_REGS :: nat where "MAX_SSE_REGS = 8"
definition MAX_CLASSES :: nat where "MAX_CLASSES = 4"

definition UNIX64_RET_VOID :: u32 where "UNIX64_RET_VOID = 0"
definition UNIX64_RET_UINT8 :: u32 where "UNIX64_RET_UINT8 = 1"
definition UNIX64_RET_UINT16 :: u32 where "UNIX64_RET_UINT16 = 2"
definition UNIX64_RET_UINT32 :: u32 where "UNIX64_RET_UINT32 = 3"
definition UNIX64_RET_SINT8 :: u32 where "UNIX64_RET_SINT8 = 4"
definition UNIX64_RET_SINT16 :: u32 where "UNIX64_RET_SINT16 = 5"
definition UNIX64_RET_SINT32 :: u32 where "UNIX64_RET_SINT32 = 6"
definition UNIX64_RET_INT64 :: u32 where "UNIX64_RET_INT64 = 7"
definition UNIX64_RET_XMM32 :: u32 where "UNIX64_RET_XMM32 = 8"
definition UNIX64_RET_XMM64 :: u32 where "UNIX64_RET_XMM64 = 9"
definition UNIX64_RET_X87 :: u32 where "UNIX64_RET_X87 = 10"
definition UNIX64_RET_X87_2 :: u32 where "UNIX64_RET_X87_2 = 11"
definition UNIX64_RET_ST_XMM0_RAX :: u32 where "UNIX64_RET_ST_XMM0_RAX = 12"
definition UNIX64_RET_ST_RAX_XMM0 :: u32 where "UNIX64_RET_ST_RAX_XMM0 = 13"
definition UNIX64_RET_ST_XMM0_XMM1 :: u32 where "UNIX64_RET_ST_XMM0_XMM1 = 14"
definition UNIX64_RET_ST_RAX_RDX :: u32 where "UNIX64_RET_ST_RAX_RDX = 15"
definition UNIX64_FLAG_RET_IN_MEM :: u32 where "UNIX64_FLAG_RET_IN_MEM = 1024"
definition UNIX64_FLAG_XMM_ARGS :: u32 where "UNIX64_FLAG_XMM_ARGS = 2048"

lemmas xx_const_defs =
  MAX_GPR_REGS_def MAX_SSE_REGS_def MAX_CLASSES_def UNIX64_RET_VOID_def UNIX64_RET_UINT8_def
  UNIX64_RET_UINT16_def UNIX64_RET_UINT32_def UNIX64_RET_SINT8_def UNIX64_RET_SINT16_def
  UNIX64_RET_SINT32_def UNIX64_RET_INT64_def UNIX64_RET_XMM32_def UNIX64_RET_XMM64_def
  UNIX64_RET_X87_def UNIX64_RET_X87_2_def UNIX64_RET_ST_XMM0_RAX_def UNIX64_RET_ST_RAX_XMM0_def
  UNIX64_RET_ST_XMM0_XMM1_def UNIX64_RET_ST_RAX_RDX_def UNIX64_FLAG_RET_IN_MEM_def
  UNIX64_FLAG_XMM_ARGS_def

definition XX_FI_UNIX64 :: nat where "XX_FI_UNIX64 = 2"
definition XX_FI_WIN64 :: nat where "XX_FI_WIN64 = 3"
definition XX_FI_GNUW64 :: nat where "XX_FI_GNUW64 = 4"

section \<open>Register classes\<close>

datatype x86_64_reg_class =
    X86_64_NO_CLASS
  | X86_64_INTEGER_CLASS
  | X86_64_INTEGERSI_CLASS
  | X86_64_SSE_CLASS
  | X86_64_SSESF_CLASS
  | X86_64_SSEDF_CLASS
  | X86_64_SSEUP_CLASS
  | X86_64_X87_CLASS
  | X86_64_X87UP_CLASS
  | X86_64_COMPLEX_X87_CLASS
  | X86_64_MEMORY_CLASS

definition SSE_CLASS_P :: "x86_64_reg_class \<Rightarrow> bool" where
  "SSE_CLASS_P x \<longleftrightarrow> x = X86_64_SSE_CLASS \<or> x = X86_64_SSESF_CLASS \<or> x = X86_64_SSEDF_CLASS
     \<or> x = X86_64_SSEUP_CLASS"

definition merge_classes :: "x86_64_reg_class \<Rightarrow> x86_64_reg_class \<Rightarrow> x86_64_reg_class" where
  "merge_classes class1 class2 =
     (if class1 = class2 then class1
      else if class1 = X86_64_NO_CLASS then class2
      else if class2 = X86_64_NO_CLASS then class1
      else if class1 = X86_64_MEMORY_CLASS \<or> class2 = X86_64_MEMORY_CLASS then X86_64_MEMORY_CLASS
      else if (class1 = X86_64_INTEGERSI_CLASS \<and> class2 = X86_64_SSESF_CLASS)
          \<or> (class2 = X86_64_INTEGERSI_CLASS \<and> class1 = X86_64_SSESF_CLASS)
        then X86_64_INTEGERSI_CLASS
      else if class1 = X86_64_INTEGER_CLASS \<or> class1 = X86_64_INTEGERSI_CLASS
          \<or> class2 = X86_64_INTEGER_CLASS \<or> class2 = X86_64_INTEGERSI_CLASS
        then X86_64_INTEGER_CLASS
      else if class1 = X86_64_X87_CLASS \<or> class1 = X86_64_X87UP_CLASS
          \<or> class1 = X86_64_COMPLEX_X87_CLASS \<or> class2 = X86_64_X87_CLASS
          \<or> class2 = X86_64_X87UP_CLASS \<or> class2 = X86_64_COMPLEX_X87_CLASS
        then X86_64_MEMORY_CLASS
      else X86_64_SSE_CLASS)"

text \<open>
  A \<open>classes\<close> array of \<open>MAX_CLASSES\<close> entries is a list; a write or a read outside it is
  \<open>Undefined\<close>.  The local array \<open>subclasses\<close> starts with unspecified contents, which are the
  parameter \<open>junk\<close> of the definitions below.
\<close>

definition set_class :: "x86_64_reg_class list \<Rightarrow> nat \<Rightarrow> x86_64_reg_class \<Rightarrow> x86_64_reg_class list result" where
  "set_class classes i c = (if i < length classes then Inr (classes[i := c]) else Inl Undefined)"

definition get_class :: "x86_64_reg_class list \<Rightarrow> nat \<Rightarrow> x86_64_reg_class result" where
  "get_class classes i = (if i < length classes then Inr (classes ! i) else Inl Undefined)"

text \<open>The label \<open>do_integer\<close>; \<open>sz\<close> is \<open>byte_offset + type->size\<close>.\<close>

definition do_integer :: "u64 \<Rightarrow> x86_64_reg_class list \<Rightarrow> (nat \<times> x86_64_reg_class list) result" where
  "do_integer sz classes =
     (if sz \<le> 4 then bindR (set_class classes 0 X86_64_INTEGERSI_CLASS) (\<lambda>cs. Inr (1, cs))
      else if sz \<le> 8 then bindR (set_class classes 0 X86_64_INTEGER_CLASS) (\<lambda>cs. Inr (1, cs))
      else if sz \<le> 12 then
        bindR (set_class classes 0 X86_64_INTEGER_CLASS) (\<lambda>cs.
        bindR (set_class cs 1 X86_64_INTEGERSI_CLASS) (\<lambda>cs'. Inr (2, cs')))
      else if sz \<le> 16 then
        bindR (set_class classes 1 X86_64_INTEGER_CLASS) (\<lambda>cs.
        bindR (set_class cs 0 X86_64_INTEGER_CLASS) (\<lambda>cs'. Inr (2, cs')))
      else Inl Abort)"

definition is_scalar_int :: "nat \<Rightarrow> bool" where
  "is_scalar_int t \<longleftrightarrow> t = FFI_TYPE_UINT8 \<or> t = FFI_TYPE_SINT8 \<or> t = FFI_TYPE_UINT16
     \<or> t = FFI_TYPE_SINT16 \<or> t = FFI_TYPE_UINT32 \<or> t = FFI_TYPE_SINT32 \<or> t = FFI_TYPE_UINT64
     \<or> t = FFI_TYPE_SINT64"

text \<open>\<open>for (i = 0; i < words; i++) classes[i] = X86_64_NO_CLASS\<close>, and the same for other loops below.\<close>

fun clear_classes :: "nat \<Rightarrow> nat \<Rightarrow> x86_64_reg_class list \<Rightarrow> x86_64_reg_class list result" where
  "clear_classes i 0 classes = Inr classes"
| "clear_classes i (Suc k) classes =
     bindR (set_class classes i X86_64_NO_CLASS) (\<lambda>cs. clear_classes (i + 1) k cs)"

text \<open>
  The inner merging loop \<open>for (i = 0; i < num; i++)\<close>: \<open>k\<close> iterations from \<open>i\<close>.
\<close>

fun merge_fields :: "nat \<Rightarrow> nat \<Rightarrow> nat \<Rightarrow> x86_64_reg_class list \<Rightarrow> x86_64_reg_class list
    \<Rightarrow> x86_64_reg_class list result" where
  "merge_fields i 0 pos subclasses classes = Inr classes"
| "merge_fields i (Suc k) pos subclasses classes =
     bindR (get_class subclasses i) (\<lambda>sc.
     bindR (get_class classes (i + pos)) (\<lambda>c.
     bindR (set_class classes (i + pos) (merge_classes sc c)) (\<lambda>cs.
     merge_fields (i + 1) k pos subclasses cs)))"

text \<open>The test for more than two eightbytes: \<open>True\<close> when the loop returns 0.\<close>

fun not_sseup :: "nat \<Rightarrow> nat \<Rightarrow> x86_64_reg_class list \<Rightarrow> bool result" where
  "not_sseup i 0 classes = Inr False"
| "not_sseup i (Suc k) classes =
     bindR (get_class classes i) (\<lambda>c.
       if c \<noteq> X86_64_SSEUP_CLASS then Inr True else not_sseup (i + 1) k classes)"

text \<open>The final cleanup loop; the flag says that it returns 0.\<close>

fun cleanup :: "nat \<Rightarrow> nat \<Rightarrow> x86_64_reg_class list \<Rightarrow> (bool \<times> x86_64_reg_class list) result" where
  "cleanup i 0 classes = Inr (False, classes)"
| "cleanup i (Suc k) classes =
     bindR (get_class classes i) (\<lambda>c.
     if c = X86_64_MEMORY_CLASS then Inr (True, classes)
     else
       bindR (if i > 1 \<and> c = X86_64_SSEUP_CLASS
              then bindR (get_class classes (i - 1)) (\<lambda>p.
                     if p \<noteq> X86_64_SSE_CLASS \<and> p \<noteq> X86_64_SSEUP_CLASS
                     then set_class classes i X86_64_SSE_CLASS else Inr classes)
              else Inr classes) (\<lambda>cs.
       bindR (get_class cs i) (\<lambda>c'.
       bindR (if i > 1 \<and> c' = X86_64_X87UP_CLASS
              then bindR (get_class cs (i - 1)) (\<lambda>p. Inr (p \<noteq> X86_64_X87_CLASS))
              else Inr False) (\<lambda>bad.
       if bad then Inr (True, cs) else cleanup (i + 1) k cs))))"

definition finish_struct :: "nat \<Rightarrow> x86_64_reg_class list \<Rightarrow> (nat \<times> x86_64_reg_class list) result" where
  "finish_struct words classes =
     bindR (if words > 2
            then bindR (get_class classes 0) (\<lambda>c.
                   if c \<noteq> X86_64_SSE_CLASS then Inr True else not_sseup 1 (words - 1) classes)
            else Inr False) (\<lambda>mem.
     if mem then Inr (0, classes)
     else bindR (cleanup 0 words classes) (\<lambda>(zero, cs). Inr (if zero then 0 else words, cs)))"

text \<open>
  \<open>classify_argument\<close> returns the number it returns in C and the array afterwards;
  \<open>classify_elements\<close> is the loop over the elements, whose flag says that it returns 0.
\<close>

fun classify_argument :: "x86_64_reg_class list \<Rightarrow> ffi_type \<Rightarrow> x86_64_reg_class list \<Rightarrow> u64
      \<Rightarrow> (nat \<times> x86_64_reg_class list) result"
  and classify_elements :: "x86_64_reg_class list \<Rightarrow> ffi_type list \<Rightarrow> x86_64_reg_class list
      \<Rightarrow> x86_64_reg_class list \<Rightarrow> u64 \<Rightarrow> (bool \<times> x86_64_reg_class list) result"
where
  "classify_argument junk (Ffi sz al t els) classes byte_offset =
     (if is_scalar_int t \<or> t = FFI_TYPE_POINTER then do_integer (byte_offset + sz) classes
      else if t = FFI_TYPE_FLOAT then
        bindR (set_class classes 0
                (if byte_offset mod 8 = 0 then X86_64_SSESF_CLASS else X86_64_SSE_CLASS))
          (\<lambda>cs. Inr (1, cs))
      else if t = FFI_TYPE_DOUBLE then
        bindR (set_class classes 0 X86_64_SSEDF_CLASS) (\<lambda>cs. Inr (1, cs))
      else if t = FFI_TYPE_STRUCT then
        (let words = unat ((sz + 8 - 1) div 8) in
         if sz > 32 then Inr (0, classes)
         else
           bindR (clear_classes 0 words classes) (\<lambda>cs.
           if words = 0 then
             bindR (set_class cs 0 X86_64_NO_CLASS) (\<lambda>cs'. Inr (1, cs'))
           else
             (case els of
                None \<Rightarrow> Inl Undefined
              | Some ptrs \<Rightarrow>
                  bindR (classify_elements junk ptrs cs junk byte_offset) (\<lambda>(zero, cs').
                  if zero then Inr (0, cs') else finish_struct words cs'))))
      else if t = FFI_TYPE_VOID then
        bindR (set_class classes 0 X86_64_NO_CLASS) (\<lambda>cs. Inr (1, cs))
      else if t = FFI_TYPE_COMPLEX then
        (case els of
           Some (inner # _) \<Rightarrow>
             (let ti = ffi_code inner in
              if ti = FFI_TYPE_INT \<or> is_scalar_int ti then do_integer (byte_offset + sz) classes
              else if ti = FFI_TYPE_FLOAT then
                bindR (set_class classes 0 X86_64_SSE_CLASS) (\<lambda>cs.
                if byte_offset mod 8 \<noteq> 0
                then bindR (set_class cs 1 X86_64_SSESF_CLASS) (\<lambda>cs'. Inr (2, cs'))
                else Inr (1, cs))
              else if ti = FFI_TYPE_DOUBLE then
                bindR (set_class classes 1 X86_64_SSEDF_CLASS) (\<lambda>cs.
                bindR (set_class cs 0 X86_64_SSEDF_CLASS) (\<lambda>cs'. Inr (2, cs')))
              else Inl Abort)
         | _ \<Rightarrow> Inl Undefined)
      else Inl Abort)"
| "classify_elements junk [] classes subclasses byte_offset = Inr (False, classes)"
| "classify_elements junk (ptr # ptrs) classes subclasses byte_offset =
     (let off = FFI_ALIGN byte_offset (ucast (ffi_alignment ptr)) in
      bindR (classify_argument junk ptr subclasses (off mod 8)) (\<lambda>(num, subclasses').
      if num = 0 then Inr (True, classes)
      else
        bindR (merge_fields 0 num (unat (off div 8)) subclasses' classes) (\<lambda>cs.
        classify_elements junk ptrs cs subclasses' (off + ffi_size ptr))))"

text \<open>
  \<open>count_classes\<close> is the counting loop of \<open>examine_argument\<close>; \<open>None\<close> is the early return on an
  x87 class, which leaves the two counters of the caller unwritten.
\<close>

fun count_classes :: "nat \<Rightarrow> nat \<Rightarrow> x86_64_reg_class list \<Rightarrow> nat \<Rightarrow> nat \<Rightarrow> (nat \<times> nat) option result" where
  "count_classes i 0 classes ngpr nsse = Inr (Some (ngpr, nsse))"
| "count_classes i (Suc k) classes ngpr nsse =
     bindR (get_class classes i) (\<lambda>c.
       case c of
         X86_64_INTEGER_CLASS \<Rightarrow> count_classes (i + 1) k classes (ngpr + 1) nsse
       | X86_64_INTEGERSI_CLASS \<Rightarrow> count_classes (i + 1) k classes (ngpr + 1) nsse
       | X86_64_SSE_CLASS \<Rightarrow> count_classes (i + 1) k classes ngpr (nsse + 1)
       | X86_64_SSESF_CLASS \<Rightarrow> count_classes (i + 1) k classes ngpr (nsse + 1)
       | X86_64_SSEDF_CLASS \<Rightarrow> count_classes (i + 1) k classes ngpr (nsse + 1)
       | X86_64_NO_CLASS \<Rightarrow> count_classes (i + 1) k classes ngpr nsse
       | X86_64_SSEUP_CLASS \<Rightarrow> count_classes (i + 1) k classes ngpr nsse
       | X86_64_X87_CLASS \<Rightarrow> Inr None
       | X86_64_X87UP_CLASS \<Rightarrow> Inr None
       | X86_64_COMPLEX_X87_CLASS \<Rightarrow> Inr None
       | X86_64_MEMORY_CLASS \<Rightarrow> Inl Abort)"

record examined =
  ex_n :: nat
  ex_classes :: "x86_64_reg_class list"
  ex_ngpr :: nat
  ex_nsse :: nat

definition examine_argument ::
  "x86_64_reg_class list \<Rightarrow> ffi_type \<Rightarrow> bool \<Rightarrow> examined \<Rightarrow> examined result" where
  "examine_argument junk ty in_return ex =
     bindR (classify_argument junk ty (ex_classes ex) 0) (\<lambda>(n, cs).
     if n = 0 then Inr (ex\<lparr>ex_n := 0, ex_classes := cs\<rparr>)
     else
       bindR (count_classes 0 n cs 0 0) (\<lambda>r.
       case r of
         None \<Rightarrow> Inr (ex\<lparr>ex_n := (if in_return then 1 else 0), ex_classes := cs\<rparr>)
       | Some (ngpr, nsse) \<Rightarrow>
           Inr \<lparr>ex_n = n, ex_classes = cs, ex_ngpr = ngpr, ex_nsse = nsse\<rparr>))"

text \<open>The file's own copy of \<open>initialize_aggregate\<close>.\<close>

fun xx_initialize_aggregate :: "ffi_type \<Rightarrow> (ffi_type \<times> u64 list) option"
  and xx_initialize_elements :: "ffi_type list \<Rightarrow> u64 \<Rightarrow> u16 \<Rightarrow> (ffi_type list \<times> u64 \<times> u16 \<times> u64 list) option"
where
  "xx_initialize_aggregate (Ffi s a t els) =
     (case els of
        None \<Rightarrow> None
      | Some ptrs \<Rightarrow>
          (case xx_initialize_elements ptrs 0 0 of
             None \<Rightarrow> None
           | Some (ptrs', sz, alignment, offsets) \<Rightarrow>
               (let sz' = FFI_ALIGN sz (ucast alignment) in
                if sz' = 0 then None
                else Some (Ffi sz' alignment t (Some ptrs'), offsets))))"
| "xx_initialize_elements [] sz alignment = Some ([], sz, alignment, [])"
| "xx_initialize_elements (ptr # ptrs) sz alignment =
     (case (if ffi_size ptr = 0 then map_option fst (xx_initialize_aggregate ptr) else Some ptr) of
        None \<Rightarrow> None
      | Some ptr' \<Rightarrow>
          (let offset = FFI_ALIGN sz (ucast (ffi_alignment ptr'));
               alignment' = (if alignment > ffi_alignment ptr' then alignment
                             else ffi_alignment ptr')
           in case xx_initialize_elements ptrs (offset + ffi_size ptr') alignment' of
                None \<Rightarrow> None
              | Some (ptrs', sz', alignment'', offsets) \<Rightarrow>
                  Some (ptr' # ptrs', sz', alignment'', offset # offsets)))"

section \<open>The result\<close>

record xx_fi_cif =
  xx_abi :: nat
  xx_nargs :: nat
  xx_arg_types :: "ffi_type list"
  xx_rtype :: ffi_type
  xx_bytes :: u32
  xx_flags :: u32

text \<open>
  The first \<open>switch\<close> of \<open>my_xx_fi_prep_cif_machdep\<close>: the flags, the general registers used up
  (one, for a result in memory) and the scratch variables afterwards.
\<close>

definition xx_struct_ret :: "u64 \<Rightarrow> examined \<Rightarrow> u32 result" where
  "xx_struct_ret rtype_size ex =
     bindR (get_class (ex_classes ex) 0) (\<lambda>c0.
     let sse0 = SSE_CLASS_P c0 in
     if rtype_size = 4 \<and> sse0 then Inr UNIX64_RET_XMM32
     else if rtype_size = 8 then Inr (if sse0 then UNIX64_RET_XMM64 else UNIX64_RET_INT64)
     else
       bindR (if ex_n ex = 2 then bindR (get_class (ex_classes ex) 1) (\<lambda>c1. Inr (SSE_CLASS_P c1))
              else Inr False) (\<lambda>sse1.
       Inr (if sse0 \<and> sse1 then UNIX64_RET_ST_XMM0_XMM1
            else if sse0 then UNIX64_RET_ST_XMM0_RAX
            else if sse1 then UNIX64_RET_ST_RAX_XMM0
            else UNIX64_RET_ST_RAX_RDX)))"

definition xx_ret_flags ::
  "x86_64_reg_class list \<Rightarrow> ffi_type \<Rightarrow> examined \<Rightarrow> (u32 \<times> nat \<times> examined) result" where
  "xx_ret_flags junk rtype ex =
     (let t = ffi_code rtype in
      if t = FFI_TYPE_VOID then Inr (UNIX64_RET_VOID, 0, ex)
      else if t = FFI_TYPE_UINT8 then Inr (UNIX64_RET_UINT8, 0, ex)
      else if t = FFI_TYPE_SINT8 then Inr (UNIX64_RET_SINT8, 0, ex)
      else if t = FFI_TYPE_UINT16 then Inr (UNIX64_RET_UINT16, 0, ex)
      else if t = FFI_TYPE_SINT16 then Inr (UNIX64_RET_SINT16, 0, ex)
      else if t = FFI_TYPE_UINT32 then Inr (UNIX64_RET_UINT32, 0, ex)
      else if t = FFI_TYPE_INT \<or> t = FFI_TYPE_SINT32 then Inr (UNIX64_RET_SINT32, 0, ex)
      else if t = FFI_TYPE_UINT64 \<or> t = FFI_TYPE_SINT64 then Inr (UNIX64_RET_INT64, 0, ex)
      else if t = FFI_TYPE_POINTER then Inr (UNIX64_RET_INT64, 0, ex)
      else if t = FFI_TYPE_FLOAT then Inr (UNIX64_RET_XMM32, 0, ex)
      else if t = FFI_TYPE_DOUBLE then Inr (UNIX64_RET_XMM64, 0, ex)
      else if t = FFI_TYPE_STRUCT then
        bindR (examine_argument junk rtype True ex) (\<lambda>ex'.
        if ex_n ex' = 0 then Inr (UNIX64_RET_VOID OR UNIX64_FLAG_RET_IN_MEM, 1, ex')
        else bindR (xx_struct_ret (ffi_size rtype) ex') (\<lambda>flags. Inr (flags, 0, ex')))
      else if t = FFI_TYPE_COMPLEX then
        (case ffi_elements rtype of
           Some (e # _) \<Rightarrow>
             (let te = ffi_code e in
              if is_scalar_int te \<or> te = FFI_TYPE_INT then Inr (UNIX64_RET_ST_RAX_RDX, 0, ex)
              else if te = FFI_TYPE_FLOAT then Inr (UNIX64_RET_XMM64, 0, ex)
              else if te = FFI_TYPE_DOUBLE then Inr (UNIX64_RET_ST_XMM0_XMM1, 0, ex)
              else Inl BadTypedef)
         | _ \<Rightarrow> Inl Undefined)
      else Inl BadTypedef)"

definition set_reg2 :: "ABIArgInfo \<Rightarrow> nat \<Rightarrow> nat \<Rightarrow> ABIArgInfo result" where
  "set_reg2 x r0 r1 = bindR (te_set_reg x 0 r0 TE_Full) (\<lambda>x'. te_set_reg x' 1 r1 TE_Full)"

definition xx_store_ret :: "u32 \<Rightarrow> ABIArgInfo \<Rightarrow> ABIArgInfo result" where
  "xx_store_ret flags x =
     (if flags = UNIX64_RET_VOID then te_set_reg x 0 xNoRegister TE_NO_LOC_INFO
      else if flags = UNIX64_RET_UINT8 then te_set_reg x 0 TE_AL TE_ZExt8_32
      else if flags = UNIX64_RET_SINT8 then te_set_reg x 0 TE_AL TE_SExt8_32
      else if flags = UNIX64_RET_UINT16 then te_set_reg x 0 TE_AX TE_ZExt16_32
      else if flags = UNIX64_RET_SINT16 then te_set_reg x 0 TE_AX TE_SExt16_32
      else if flags = UNIX64_RET_UINT32 \<or> flags = UNIX64_RET_SINT32 then te_set_reg x 0 TE_EAX TE_Full
      else if flags = UNIX64_RET_INT64 then te_set_reg x 0 TE_RAX TE_Full
      else if flags = UNIX64_RET_XMM32 \<or> flags = UNIX64_RET_XMM64 then te_set_reg x 0 (TE_XMM 0) TE_Full
      else if flags = UNIX64_RET_X87 then te_set_reg x 0 (TE_ST 0) TE_Full
      else if flags = UNIX64_RET_X87_2 then set_reg2 x (TE_ST 0) (TE_ST 1)
      else if flags = UNIX64_RET_ST_XMM0_RAX then set_reg2 x (TE_XMM 0) TE_RAX
      else if flags = UNIX64_RET_ST_RAX_XMM0 then set_reg2 x TE_RAX (TE_XMM 0)
      else if flags = UNIX64_RET_ST_XMM0_XMM1 then set_reg2 x (TE_XMM 0) (TE_XMM 1)
      else if flags = UNIX64_RET_ST_RAX_RDX then set_reg2 x TE_RAX TE_RDX
      else
        bindR (assertR (flags = UNIX64_RET_VOID OR UNIX64_FLAG_RET_IN_MEM)) (\<lambda>_.
        te_set_reg (te_or_mask x TE_MASK_INDIRECT) 0 TE_RDI TE_Full))"

section \<open>The arguments\<close>

definition xx_gprcnt2reg :: "nat list" where
  "xx_gprcnt2reg = [TE_RDI, TE_RSI, TE_RDX, TE_RCX, TE_R8, TE_R9]"

definition xx_ssecnt2reg :: "nat list" where
  "xx_ssecnt2reg = map TE_XMM [0..<8]"

record xx_alloc =
  xx_gprcount :: nat
  xx_ssecount :: nat
  xx_offset :: u64
  xx_ex :: examined
  xx_fn :: "ABIFnInfo option"

definition locinfo_of :: "nat \<Rightarrow> nat" where
  "locinfo_of t =
     (if t = FFI_TYPE_SINT8 then TE_SExt8_32
      else if t = FFI_TYPE_SINT16 then TE_SExt16_32
      else if t = FFI_TYPE_UINT8 then TE_ZExt8_32
      else if t = FFI_TYPE_UINT16 then TE_ZExt16_32
      else TE_Full)"

definition xx_mem_arg :: "xx_alloc \<Rightarrow> nat \<Rightarrow> ffi_type \<Rightarrow> xx_alloc result" where
  "xx_mem_arg st i ty =
     (let align = (if ffi_alignment ty < 8 then 8 else ffi_alignment ty);
          off = FFI_ALIGN (xx_offset st) (ucast align)
      in bindR (fn_arg_upd (xx_fn st) i (\<lambda>x.
             Inr (te_set_mem (te_or_mask x TE_MASK_ISMEM) off (locinfo_of (ffi_code ty)))))
           (\<lambda>fn. Inr (st\<lparr>xx_offset := off + ffi_size ty, xx_fn := fn\<rparr>)))"

text \<open>
  The loop over the eightbytes of an argument in registers: \<open>k\<close> iterations from \<open>j\<close>.  A
  table lookup out of range is \<open>Undefined\<close>.
\<close>

definition put_reg :: "ABIFnInfo option \<Rightarrow> nat \<Rightarrow> nat \<Rightarrow> nat list \<Rightarrow> nat \<Rightarrow> nat
    \<Rightarrow> (ABIFnInfo option \<times> nat) result" where
  "put_reg fn i idxReg table count info =
     (case fn of
        None \<Rightarrow> Inr (None, idxReg)
      | Some _ \<Rightarrow>
          bindR (assertR (idxReg < 4)) (\<lambda>_.
          if count < length table
          then bindR (fn_arg_upd fn i (\<lambda>x. te_set_reg x idxReg (table ! count) info))
                 (\<lambda>fn'. Inr (fn', idxReg + 1))
          else Inl Undefined))"

fun xx_reg_arg :: "nat \<Rightarrow> nat \<Rightarrow> nat \<Rightarrow> ffi_type \<Rightarrow> nat \<Rightarrow> xx_alloc \<Rightarrow> xx_alloc result" where
  "xx_reg_arg j 0 i ty idxReg st = Inr st"
| "xx_reg_arg j (Suc k) i ty idxReg st =
     bindR (get_class (ex_classes (xx_ex st)) j) (\<lambda>c.
       if c = X86_64_NO_CLASS \<or> c = X86_64_SSEUP_CLASS then xx_reg_arg (j + 1) k i ty idxReg st
       else if c = X86_64_INTEGER_CLASS \<or> c = X86_64_INTEGERSI_CLASS then
         bindR (put_reg (xx_fn st) i idxReg xx_gprcnt2reg (xx_gprcount st) (locinfo_of (ffi_code ty)))
           (\<lambda>(fn, idx). xx_reg_arg (j + 1) k i ty idx
              (st\<lparr>xx_fn := fn, xx_gprcount := xx_gprcount st + 1\<rparr>))
       else if c = X86_64_SSE_CLASS \<or> c = X86_64_SSEDF_CLASS \<or> c = X86_64_SSESF_CLASS then
         bindR (put_reg (xx_fn st) i idxReg xx_ssecnt2reg (xx_ssecount st) TE_Full)
           (\<lambda>(fn, idx). xx_reg_arg (j + 1) k i ty idx
              (st\<lparr>xx_fn := fn, xx_ssecount := xx_ssecount st + 1\<rparr>))
       else Inl Abort)"

definition xx_place_arg :: "x86_64_reg_class list \<Rightarrow> xx_alloc \<Rightarrow> nat \<Rightarrow> ffi_type \<Rightarrow> xx_alloc result" where
  "xx_place_arg junk st i ty =
     bindR (fn_arg_upd (xx_fn st) i (\<lambda>x. Inr (te_set_arg_size x (ffi_size ty)))) (\<lambda>fn0.
     bindR (examine_argument junk ty False (xx_ex st)) (\<lambda>ex.
     let st0 = st\<lparr>xx_fn := fn0, xx_ex := ex\<rparr> in
     if ex_n ex = 0 \<or> xx_gprcount st + ex_ngpr ex > MAX_GPR_REGS
        \<or> xx_ssecount st + ex_nsse ex > MAX_SSE_REGS
     then xx_mem_arg st0 i ty
     else xx_reg_arg 0 (ex_n ex) i ty 0 st0))"

fun xx_place_args :: "x86_64_reg_class list \<Rightarrow> xx_alloc \<Rightarrow> nat \<Rightarrow> ffi_type list \<Rightarrow> xx_alloc result" where
  "xx_place_args junk st i [] = Inr st"
| "xx_place_args junk st i (ty # tys) =
     bindR (xx_place_arg junk st i ty) (\<lambda>st'. xx_place_args junk st' (i + 1) tys)"

definition my_xx_fi_prep_cif_machdep ::
  "x86_64_reg_class list \<Rightarrow> xx_fi_cif \<Rightarrow> ABIFnInfo option \<Rightarrow> (xx_fi_cif \<times> ABIFnInfo option) result" where
  "my_xx_fi_prep_cif_machdep junk cif fnInfo =
     (if xx_abi cif = XX_FI_WIN64 \<or> xx_abi cif = XX_FI_GNUW64 then Inl Abort
      else if xx_abi cif \<noteq> XX_FI_UNIX64 then Inl BadAbi
      else
        bindR (xx_ret_flags junk (xx_rtype cif)
                 \<lparr>ex_n = 0, ex_classes = junk, ex_ngpr = 0, ex_nsse = 0\<rparr>) (\<lambda>(flags, gprcount, ex).
        bindR (fn_ret_upd fnInfo (xx_store_ret flags)) (\<lambda>fn0.
        bindR (xx_place_args junk \<lparr>xx_gprcount = gprcount, xx_ssecount = 0, xx_offset = 0,
                                    xx_ex = ex, xx_fn = fn0\<rparr> 0 (xx_arg_types cif)) (\<lambda>st.
        let flags' = (if xx_ssecount st \<noteq> 0 then flags OR UNIX64_FLAG_XMM_ARGS else flags);
            bytes = ucast (FFI_ALIGN (xx_offset st) 8)
        in Inr (cif\<lparr>xx_flags := flags', xx_bytes := bytes\<rparr>,
                map_option (\<lambda>fn. fn\<lparr>fi_bytes := bytes, fi_ssecount := xx_ssecount st\<rparr>) (xx_fn st))))))"

definition xx_init_type :: "ffi_type \<Rightarrow> ffi_type result" where
  "xx_init_type ty =
     (if ffi_size ty = 0
      then (case xx_initialize_aggregate ty of None \<Rightarrow> Inl BadTypedef | Some (ty', _) \<Rightarrow> Inr ty')
      else Inr ty)"

fun xx_init_args :: "ffi_type list \<Rightarrow> ffi_type list result" where
  "xx_init_args [] = Inr []"
| "xx_init_args (ptr # ptrs) =
     bindR (xx_init_type ptr) (\<lambda>ptr'. bindR (xx_init_args ptrs) (\<lambda>ptrs'. Inr (ptr' # ptrs')))"

definition my_xx_fi_prep_cif_core ::
  "x86_64_reg_class list \<Rightarrow> nat \<Rightarrow> bool \<Rightarrow> nat \<Rightarrow> nat \<Rightarrow> ffi_type \<Rightarrow> ffi_type list \<Rightarrow> ABIFnInfo option
   \<Rightarrow> (xx_fi_cif \<times> ABIFnInfo option) result" where
  "my_xx_fi_prep_cif_core junk abi isvariadic nfixedargs ntotalargs rtype atypes fnInfo =
     bindR (assertR (isvariadic \<longrightarrow> nfixedargs \<ge> 1)) (\<lambda>_.
     bindR (assertR (nfixedargs \<le> ntotalargs)) (\<lambda>_.
     if \<not> (abi > 1 \<and> abi < 5) then Inl BadAbi
     else
       bindR (xx_init_type rtype) (\<lambda>rtype'.
       bindR (xx_init_args atypes) (\<lambda>atypes'.
       my_xx_fi_prep_cif_machdep junk
         \<lparr>xx_abi = abi, xx_nargs = ntotalargs, xx_arg_types = atypes', xx_rtype = rtype',
          xx_bytes = 0, xx_flags = 0\<rparr> fnInfo))))"

definition my_xx_fi_prep_cif ::
  "x86_64_reg_class list \<Rightarrow> nat \<Rightarrow> nat \<Rightarrow> ffi_type \<Rightarrow> ffi_type list \<Rightarrow> ABIFnInfo option
   \<Rightarrow> (xx_fi_cif \<times> ABIFnInfo option) result" where
  "my_xx_fi_prep_cif junk abi nargs rtype atypes fnInfo =
     my_xx_fi_prep_cif_core junk abi False nargs nargs rtype atypes fnInfo"

end
