(* ===== verification/Xx_Classify.thy ===== *)
theory Xx_Classify
  imports Xx_Cif
begin

text \<open>
  The classification of types in \<open>xx_prep_cif.c\<close> against its definition: the class of an
  eightbyte is the merge of the classes of the scalars in it.  The code classifies nested
  structures recursively, with an offset that is only known modulo eight.
\<close>

section \<open>Merging\<close>

fun plain_class :: "x86_64_reg_class \<Rightarrow> bool" where
  "plain_class X86_64_NO_CLASS = True"
| "plain_class X86_64_INTEGER_CLASS = True"
| "plain_class X86_64_INTEGERSI_CLASS = True"
| "plain_class X86_64_SSE_CLASS = True"
| "plain_class X86_64_SSESF_CLASS = True"
| "plain_class X86_64_SSEDF_CLASS = True"
| "plain_class _ = False"

fun_cases plain_classE: "plain_class c"

lemma merge_comm: "merge_classes a b = merge_classes b a"
  by (auto simp: merge_classes_def)

lemma merge_NO [simp]: "merge_classes X86_64_NO_CLASS c = c" "merge_classes c X86_64_NO_CLASS = c"
  by (auto simp: merge_classes_def)

lemma plain_merge: "plain_class a \<Longrightarrow> plain_class b \<Longrightarrow> plain_class (merge_classes a b)"
  by (elim plain_classE) (simp_all add: merge_classes_def)

lemma merge_assoc:
  "plain_class a \<Longrightarrow> plain_class b \<Longrightarrow> plain_class c \<Longrightarrow>
   merge_classes (merge_classes a b) c = merge_classes a (merge_classes b c)"
  by (elim plain_classE) (simp_all add: merge_classes_def)

lemma merge_idem [simp]: "merge_classes a a = a"
  by (simp add: merge_classes_def)

lemma plain_not: "plain_class a \<Longrightarrow> a \<noteq> X86_64_MEMORY_CLASS" "plain_class a \<Longrightarrow> a \<noteq> X86_64_SSEUP_CLASS"
  by auto

text \<open>
  C8.  On the classes that scalars other than \<open>long double\<close> have, \<open>merge_classes\<close> is a
  commutative, associative and idempotent operation with unit \<open>X86_64_NO_CLASS\<close>, so the class
  of an eightbyte does not depend on the order in which its fields are met; and merging never
  yields the memory class.
\<close>

theorem merge_classes_semilattice:
  assumes "plain_class a" "plain_class b" "plain_class c"
  shows "merge_classes a b = merge_classes b a
    \<and> merge_classes (merge_classes a b) c = merge_classes a (merge_classes b c)
    \<and> merge_classes a a = a \<and> merge_classes X86_64_NO_CLASS a = a
    \<and> merge_classes a b \<noteq> X86_64_MEMORY_CLASS"
  using merge_comm [of a b] merge_assoc [OF assms] plain_not(1) [OF plain_merge [OF assms(1,2)]]
  by (intro conjI) simp_all

theorem merge_classes_semilattice_witness:
  "merge_classes X86_64_INTEGERSI_CLASS X86_64_SSESF_CLASS = X86_64_INTEGERSI_CLASS
   \<and> merge_classes (merge_classes X86_64_INTEGERSI_CLASS X86_64_SSESF_CLASS) X86_64_SSEDF_CLASS
     = merge_classes X86_64_INTEGERSI_CLASS (merge_classes X86_64_SSESF_CLASS X86_64_SSEDF_CLASS)"
  using merge_classes_semilattice [of X86_64_INTEGERSI_CLASS X86_64_SSESF_CLASS X86_64_SSEDF_CLASS]
  by (simp add: merge_classes_def)

section \<open>The scalars of a type and their eightbytes\<close>

type_synonym leaf = "nat \<times> nat \<times> nat"

text \<open>A leaf is a type code, a size and an offset.\<close>

fun flat :: "ffi_type \<Rightarrow> nat \<Rightarrow> leaf list" and flats :: "ffi_type list \<Rightarrow> nat \<Rightarrow> leaf list" where
  "flat (Ffi s a t els) off =
     (if t = FFI_TYPE_STRUCT then (case els of None \<Rightarrow> [] | Some es \<Rightarrow> flats es off)
      else [(t, unat s, off)])"
| "flats [] off = []"
| "flats (e # es) off =
     (let o1 = align_up off (unat (ffi_alignment e)) in flat e o1 @ flats es (o1 + unat (ffi_size e)))"

fun ends :: "ffi_type list \<Rightarrow> nat \<Rightarrow> nat" where
  "ends [] off = off"
| "ends (e # es) off = ends es (align_up off (unat (ffi_alignment e)) + unat (ffi_size e))"

fun leaf_class :: "leaf \<Rightarrow> x86_64_reg_class" where
  "leaf_class (t, s, off) =
     (if t = FFI_TYPE_FLOAT then (if off mod 8 = 0 then X86_64_SSESF_CLASS else X86_64_SSE_CLASS)
      else if t = FFI_TYPE_DOUBLE then X86_64_SSEDF_CLASS
      else if off mod 8 + s \<le> 4 then X86_64_INTEGERSI_CLASS else X86_64_INTEGER_CLASS)"

fun leaf_word :: "leaf \<Rightarrow> nat" where
  "leaf_word (t, s, off) = off div 8"

definition word_from :: "x86_64_reg_class \<Rightarrow> leaf list \<Rightarrow> nat \<Rightarrow> x86_64_reg_class" where
  "word_from c ls w = fold (\<lambda>l acc. merge_classes (leaf_class l) acc) (filter (\<lambda>l. leaf_word l = w) ls) c"

abbreviation word_class :: "leaf list \<Rightarrow> nat \<Rightarrow> x86_64_reg_class" where
  "word_class \<equiv> word_from X86_64_NO_CLASS"

text \<open>
  Types after layout: scalars of their natural size and alignment, structures whose size and
  alignment are those of their elements.
\<close>

definition scalar_ok :: "u64 \<Rightarrow> u16 \<Rightarrow> nat \<Rightarrow> bool" where
  "scalar_ok s a t \<longleftrightarrow> unat s \<in> {1, 2, 4, 8} \<and> unat a = unat s \<and>
     (is_scalar_int t \<or> t = FFI_TYPE_POINTER \<or> t = FFI_TYPE_FLOAT \<and> s = 4 \<or> t = FFI_TYPE_DOUBLE \<and> s = 8)"

fun laid :: "ffi_type \<Rightarrow> bool" where
  "laid (Ffi s a t els) =
     (if t = FFI_TYPE_STRUCT then
        (case els of None \<Rightarrow> False
         | Some es \<Rightarrow> es \<noteq> [] \<and> list_all laid es \<and> unat a \<in> {1, 2, 4, 8}
             \<and> list_all (\<lambda>e. unat (ffi_alignment e) dvd unat a) es
             \<and> unat s = align_up (ends es 0) (unat a) \<and> unat s < 2 ^ 32)
      else scalar_ok s a t)"

text \<open>
  \<open>aligned_fit\<close>: no structure nested at an offset \<open>b\<close> into an eightbyte spills into one eightbyte
  more than its size alone needs.
\<close>

definition words_of :: "nat \<Rightarrow> nat" where
  "words_of s = (s + 7) div 8"

fun aligned_fit :: "ffi_type \<Rightarrow> nat \<Rightarrow> bool" and aligned_fits :: "ffi_type list \<Rightarrow> nat \<Rightarrow> bool" where
  "aligned_fit (Ffi s a t els) b =
     (t = FFI_TYPE_STRUCT \<longrightarrow> b + unat s \<le> 8 * words_of (unat s) \<and>
        (case els of None \<Rightarrow> True | Some es \<Rightarrow> aligned_fits es b))"
| "aligned_fits [] off = True"
| "aligned_fits (e # es) off =
     (let o1 = align_up off (unat (ffi_alignment e)) in
      aligned_fit e (o1 mod 8) \<and> aligned_fits es (o1 + unat (ffi_size e)))"

section \<open>Offsets\<close>

lemma align_up_add:
  assumes "0 < a" "a dvd m"
  shows "align_up (m + x) a = m + align_up x a"
proof -
  obtain q where m: "m = a * q" using assms(2) by (elim dvdE)
  obtain y where y: "x + a = Suc y" using assms(1) by (cases "x + a") auto
  then have "m + x + a - 1 = a * q + y" "x + a - 1 = y" by (simp_all add: m)
  then have "(m + x + a - 1) div a = q + (x + a - 1) div a" using assms(1) by simp
  then show ?thesis by (simp add: align_up_def m distrib_left mult.commute)
qed

lemma align8: "a \<in> {1, 2, 4, 8} \<Longrightarrow> 0 < a \<and> a dvd (8 :: nat) \<and> a dvd 8 * q"
  by auto

lemma laid_align:
  assumes "laid ty"
  shows "unat (ffi_alignment ty) \<in> {1, 2, 4, 8}" "ok_align (ffi_alignment ty)"
    "unat (ffi_alignment ty) dvd unat (ffi_size ty)"
proof -
  show al: "unat (ffi_alignment ty) \<in> {1, 2, 4, 8}"
    using assms by (cases ty) (auto simp: scalar_ok_def split: if_splits option.splits)
  then have "ffi_alignment ty \<in> {1, 2, 4, 8}"
    by (auto simp: word_unat_eq_iff)
  then show "ok_align (ffi_alignment ty)" by auto
  show "unat (ffi_alignment ty) dvd unat (ffi_size ty)"
    using assms by (cases ty) (auto simp: scalar_ok_def split: if_splits option.splits)
qed

lemma ends_add:
  assumes "\<forall>e\<in>set es. 0 < unat (ffi_alignment e) \<and> unat (ffi_alignment e) dvd m"
  shows "ends es (m + x) = m + ends es x"
  using assms by (induction es arbitrary: x) (simp_all add: align_up_add add.assoc)

lemma ends_ge:
  assumes "\<forall>e\<in>set es. 0 < unat (ffi_alignment e)"
  shows "x \<le> ends es x"
  using assms
proof (induction es arbitrary: x)
  case (Cons e es)
  have "x \<le> align_up x (unat (ffi_alignment e)) + unat (ffi_size e)"
    using align_up_bounds(1) [of "unat (ffi_alignment e)" x] Cons.prems by simp
  with Cons.IH Cons.prems show ?case by (force intro: order_trans)
qed simp

definition shift :: "nat \<Rightarrow> leaf \<Rightarrow> leaf" where
  "shift m l = (fst l, fst (snd l), m + snd (snd l))"

lemma flat_shift:
  "laid ty \<Longrightarrow> flat ty (8 * q + x) = map (shift (8 * q)) (flat ty x)"
  "list_all laid es \<Longrightarrow> flats es (8 * q + x) = map (shift (8 * q)) (flats es x)"
proof (induction ty x and es x rule: flat_flats.induct)
  case (3 e es off)
  have a: "align_up (8 * q + off) (unat (ffi_alignment e)) = 8 * q + align_up off (unat (ffi_alignment e))"
    using align8 [OF laid_align(1)] "3.prems" by (intro align_up_add) simp_all
  show ?case using "3.IH" "3.prems" by (simp add: Let_def a add.assoc)
qed (auto simp: shift_def split: option.splits)

lemma leaf_class_shift [simp]: "leaf_class (shift (8 * q) l) = leaf_class l"
  by (cases l) (simp add: shift_def)

lemma leaf_word_shift [simp]: "leaf_word (shift (8 * q) l) = q + leaf_word l"
  by (cases l) (simp add: shift_def)

lemma leaf_range:
  "laid ty \<Longrightarrow> unat (ffi_alignment ty) dvd x \<Longrightarrow> (t, s, off) \<in> set (flat ty x) \<Longrightarrow>
     x \<le> off \<and> off + s \<le> x + unat (ffi_size ty) \<and> 0 < s"
  "list_all laid es \<Longrightarrow> (t, s, off) \<in> set (flats es x) \<Longrightarrow> x \<le> off \<and> off + s \<le> ends es x \<and> 0 < s"
proof (induction ty x and es x rule: flat_flats.induct)
  case (1 sz a tt els x)
  show ?case
  proof (cases "tt = FFI_TYPE_STRUCT")
    case True
    with "1.prems"(1) obtain es where es: "els = Some es" "list_all laid es"
      "\<forall>e\<in>set es. unat (ffi_alignment e) dvd unat a" "unat sz = align_up (ends es 0) (unat a)"
      "unat a \<in> {1, 2, 4, 8}"
      by (auto simp: list_all_iff split: option.splits)
    have "\<forall>e\<in>set es. 0 < unat (ffi_alignment e) \<and> unat (ffi_alignment e) dvd x"
      using es(2,3) "1.prems"(2) align8 [OF laid_align(1)] by (auto simp: list_all_iff intro: dvd_trans)
    then have "ends es x = x + ends es 0" using ends_add [of es x 0] by simp
    moreover have "ends es 0 \<le> unat sz" using align_up_bounds(1) [of "unat a" "ends es 0"] es(4,5) by auto
    ultimately show ?thesis using "1.IH" [OF True es(1)] "1.prems"(3) es True by auto
  next
    case False
    with "1.prems" show ?thesis by (auto simp: scalar_ok_def)
  qed
next
  case (3 e es x)
  let ?o = "align_up x (unat (ffi_alignment e))"
  have pos: "0 < unat (ffi_alignment e)" "\<forall>d\<in>set es. 0 < unat (ffi_alignment d)"
    using "3.prems"(1) align8 [OF laid_align(1)] by (auto simp: list_all_iff)
  have le: "x \<le> ?o" "?o + unat (ffi_size e) \<le> ends es (?o + unat (ffi_size e))"
    using align_up_bounds(1) [OF pos(1)] ends_ge [OF pos(2)] by auto
  from "3.prems"(2) consider "(t, s, off) \<in> set (flat e ?o)" | "(t, s, off) \<in> set (flats es (?o + unat (ffi_size e)))"
    by (auto simp: Let_def)
  then show ?case
  proof cases
    case 1
    with "3.IH"(1) [OF refl] "3.prems"(1) le show ?thesis by auto
  next
    case 2
    with "3.IH"(2) [OF refl] "3.prems"(1) le show ?thesis by auto
  qed
qed simp

section \<open>Merging the classes of leaves\<close>

lemma plain_leaf: "plain_class (leaf_class l)"
  by (cases l) simp

lemma plain_word_from: "plain_class c \<Longrightarrow> plain_class (word_from c ls w)"
proof -
  have "plain_class c \<Longrightarrow> plain_class (fold (\<lambda>l acc. merge_classes (leaf_class l) acc) xs c)" for xs
    by (induction xs arbitrary: c) (simp_all add: plain_merge plain_leaf)
  then show "plain_class c \<Longrightarrow> plain_class (word_from c ls w)" by (simp add: word_from_def)
qed

lemma word_from_append [simp]: "word_from c (xs @ ys) w = word_from (word_from c xs w) ys w"
  by (simp add: word_from_def)

lemma word_from_merge:
  assumes "plain_class c"
  shows "word_from c ls w = merge_classes (word_class ls w) c"
proof -
  have "fold (\<lambda>l acc. merge_classes (leaf_class l) acc) xs (merge_classes d c)
      = merge_classes (fold (\<lambda>l acc. merge_classes (leaf_class l) acc) xs d) c"
    if "plain_class d" for xs d
    using that
  proof (induction xs arbitrary: d)
    case (Cons l xs)
    show ?case
      using Cons.IH [OF plain_merge [OF plain_leaf Cons.prems], of l]
      by (simp add: merge_assoc [OF plain_leaf Cons.prems assms])
  qed simp
  from this [of X86_64_NO_CLASS] show ?thesis by (simp add: word_from_def)
qed

lemma word_from_none: "\<forall>l\<in>set ls. leaf_word l \<noteq> w \<Longrightarrow> word_from c ls w = c"
  by (simp add: word_from_def filter_empty_conv)

lemma word_from_shift:
  "word_from c (map (shift (8 * q)) ls) w = (if q \<le> w then word_from c ls (w - q) else c)"
proof (cases "q \<le> w")
  case True
  then have "(q + leaf_word l = w) = (leaf_word l = w - q)" for l by auto
  then have "filter (\<lambda>l. leaf_word l = w) (map (shift (8 * q)) ls)
      = map (shift (8 * q)) (filter (\<lambda>l. leaf_word l = w - q) ls)"
    by (simp add: filter_map o_def)
  with True show ?thesis by (simp add: word_from_def fold_map o_def)
next
  case False
  then show ?thesis by (simp add: word_from_none)
qed

text \<open>An element in the middle of a structure: its classes are computed modulo eight and merged in.\<close>

lemma element_words:
  assumes "laid e" "unat (ffi_alignment e) dvd x" "aligned_fit e (x mod 8)" "plain_class c"
  shows "word_from c (flat e x) w =
    (if x div 8 \<le> w \<and> w < x div 8 + words_of (unat (ffi_size e))
     then merge_classes (word_class (flat e (x mod 8)) (w - x div 8)) c else c)"
proof -
  let ?b = "x mod 8" and ?q = "x div 8"
  have x: "flat e x = map (shift (8 * ?q)) (flat e ?b)"
    using flat_shift(1) [OF assms(1), of ?q ?b] by simp
  have dvd: "unat (ffi_alignment e) dvd ?b"
    using assms(2) align8 [OF laid_align(1) [OF assms(1)]] by (simp add: dvd_mod)
  have "leaf_word l < words_of (unat (ffi_size e))" if "l \<in> set (flat e ?b)" for l
  proof -
    obtain t s off where l: "l = (t, s, off)" by (cases l)
    have r: "off + s \<le> ?b + unat (ffi_size e)" "0 < s"
      using leaf_range(1) [OF assms(1) dvd] that l by auto
    have "?b + unat (ffi_size e) \<le> 8 * words_of (unat (ffi_size e))"
    proof (cases e)
      case (Ffi s' a' t' els')
      show ?thesis
      proof (cases "t' = FFI_TYPE_STRUCT")
        case True
        with assms(3) Ffi show ?thesis by simp
      next
        case False
        with assms(1) Ffi have "unat s' \<in> {1, 2, 4, 8}" "unat a' = unat s'" by (auto simp: scalar_ok_def)
        moreover have "?b < 8" by simp
        ultimately have "?b + unat s' \<le> 8" using dvd Ffi by (auto simp: dvd_def)
        with \<open>unat s' \<in> _\<close> show ?thesis using Ffi by (auto simp: words_of_def)
      qed
    qed
    with r show ?thesis by (simp add: l less_mult_imp_div_less mult.commute)
  qed
  then have "word_from c (flat e ?b) v = c" if "words_of (unat (ffi_size e)) \<le> v" for v
    using that by (intro word_from_none) fastforce
  then show ?thesis
    using word_from_merge [OF assms(4)] by (auto simp: x word_from_shift)
qed

section \<open>The loops over class arrays\<close>

lemma clear_classes_ok:
  assumes "i + k \<le> length cs"
  shows "\<exists>cs'. clear_classes i k cs = Inr cs' \<and> length cs' = length cs
    \<and> (\<forall>w<length cs. cs' ! w = (if i \<le> w \<and> w < i + k then X86_64_NO_CLASS else cs ! w))"
  using assms
proof (induction k arbitrary: i cs)
  case (Suc k)
  then show ?case
    using Suc.IH [of "i + 1" "cs[i := X86_64_NO_CLASS]"] by (auto simp: set_class_def nth_list_update)
qed auto

lemma merge_fields_ok:
  assumes "i + k \<le> length sub" "i + k + pos \<le> length cs"
  shows "\<exists>cs'. merge_fields i k pos sub cs = Inr cs' \<and> length cs' = length cs
    \<and> (\<forall>w<length cs. cs' ! w = (if i + pos \<le> w \<and> w < i + k + pos
          then merge_classes (sub ! (w - pos)) (cs ! w) else cs ! w))"
  using assms
proof (induction k arbitrary: i cs)
  case (Suc k)
  let ?cs = "cs[i + pos := merge_classes (sub ! i) (cs ! (i + pos))]"
  have "\<exists>cs'. merge_fields (i + 1) k pos sub ?cs = Inr cs' \<and> length cs' = length ?cs
    \<and> (\<forall>w<length ?cs. cs' ! w = (if i + 1 + pos \<le> w \<and> w < i + 1 + k + pos
          then merge_classes (sub ! (w - pos)) (?cs ! w) else ?cs ! w))"
    by (rule Suc.IH) (use Suc.prems in simp_all)
  then show ?case
    using Suc.prems by (fastforce simp: set_class_def get_class_def nth_list_update)
qed auto

lemma not_sseup_ok: "i + k \<le> length cs \<Longrightarrow> \<exists>b. not_sseup i k cs = Inr b"
  by (induction k arbitrary: i) (auto simp: get_class_def)

lemma cleanup_ok:
  "i + k \<le> length cs \<Longrightarrow> \<exists>z cs'. cleanup i k cs = Inr (z, cs') \<and> length cs' = length cs"
proof (induction k arbitrary: i cs)
  case (Suc k)
  have "\<exists>z cs'. cleanup (i + 1) k ds = Inr (z, cs') \<and> length cs' = length cs"
    if "length ds = length cs" for ds
    using Suc.IH [of "i + 1" ds] Suc.prems that by simp
  with Suc.prems show ?case by (auto simp: get_class_def set_class_def)
qed auto

lemma cleanup_plain:
  "i + k \<le> 2 \<Longrightarrow> i + k \<le> length cs \<Longrightarrow> \<forall>w. i \<le> w \<and> w < i + k \<longrightarrow> plain_class (cs ! w) \<Longrightarrow>
   cleanup i k cs = Inr (False, cs)"
proof (induction k arbitrary: i)
  case (Suc k)
  then have "plain_class (cs ! i)" "cleanup (i + 1) k cs = Inr (False, cs)" by simp_all
  with Suc.prems plain_not(1) [of "cs ! i"] show ?case by (auto simp: get_class_def)
qed simp

lemma finish_struct_ok:
  assumes "words \<le> length cs"
  shows "\<exists>n cs'. finish_struct words cs = Inr (n, cs') \<and> length cs' = length cs \<and> n \<le> words"
proof -
  obtain z cs' where c: "cleanup 0 words cs = Inr (z, cs')" "length cs' = length cs"
    using cleanup_ok [of 0 words cs] assms by auto
  show ?thesis
  proof (cases "words > 2")
    case True
    obtain b where "not_sseup 1 (words - 1) cs = Inr b" using not_sseup_ok [of 1 "words - 1" cs] True assms by auto
    with True assms c show ?thesis by (auto simp: finish_struct_def get_class_def)
  qed (use c in \<open>auto simp: finish_struct_def\<close>)
qed

lemma finish_struct_plain:
  assumes "words \<le> length cs" "\<forall>w<words. plain_class (cs ! w)"
  shows "finish_struct words cs = Inr (if words > 2 then 0 else words, cs)"
proof (cases "words > 2")
  case True
  have "\<exists>k. words - 1 = Suc k" using True by (cases "words - 1") auto
  then have "not_sseup 1 (words - 1) cs = Inr True"
    using True assms plain_not(2) [of "cs ! 1"] by (auto simp: get_class_def)
  moreover have "cs \<noteq> []" using True assms(1) by auto
  ultimately show ?thesis using True by (simp add: finish_struct_def get_class_def)
next
  case False
  then show ?thesis using cleanup_plain [of 0 words cs] assms by (simp add: finish_struct_def)
qed

lemma words_of_le: "s \<le> 32 \<Longrightarrow> words_of s \<le> 4"
  by (simp add: words_of_def)

lemma words_of_unat:
  fixes s :: u64
  assumes "s \<le> 32"
  shows "unat ((s + 8 - 1) div 8) = words_of (unat s)"
proof -
  have "unat s \<le> 32" using assms by (simp add: word_le_nat_alt)
  then have "unat (s + 8 - 1) = unat s + 7" by (simp add: unat_word_ariths)
  then show ?thesis by (simp add: unat_div words_of_def)
qed

section \<open>Classification\<close>

text \<open>
  \<open>class_post\<close> is what a call on a type promises: it does not fail, and, where no nested
  structure spills over, it returns the eightbytes of the scalars.
\<close>

definition big :: "ffi_type \<Rightarrow> bool" where
  "big ty \<longleftrightarrow> ffi_code ty = FFI_TYPE_STRUCT \<and> unat (ffi_size ty) > 16"

definition class_post :: "ffi_type \<Rightarrow> nat \<Rightarrow> (nat \<times> x86_64_reg_class list) result \<Rightarrow> bool" where
  "class_post ty b r \<longleftrightarrow> (\<exists>n cs. r = Inr (n, cs) \<and> length cs = 4 \<and> n \<le> 4 \<and> n \<le> words_of (unat (ffi_size ty))
     \<and> (aligned_fit ty b \<longrightarrow> n = (if big ty then 0 else words_of (unat (ffi_size ty)))
          \<and> (\<forall>w<n. cs ! w = word_class (flat ty b) w)))"

lemma scalar_post:
  assumes "t \<noteq> FFI_TYPE_STRUCT" "scalar_ok s a t" "length classes = 4" "unat b < 8" "unat a dvd unat b"
  shows "class_post (Ffi s a t els) (unat b) (classify_argument junk (Ffi s a t els) classes b)"
proof -
  have s: "unat s \<in> {1, 2, 4, 8}" "unat a = unat s" using assms(2) by (simp_all add: scalar_ok_def)
  then have b8: "unat b + unat s \<le> 8" using assms(4,5) by (auto simp: dvd_def)
  then have sum: "unat (b + s) = unat b + unat s" by (intro unat_add_bounded) simp
  have w: "words_of (unat s) = 1" "unat b div 8 = 0" "unat b mod 8 = unat b"
    using s assms(4) by (auto simp: words_of_def)
  have z: "b mod 8 = 0 \<longleftrightarrow> unat b = 0" using assms(4) by (simp add: unat_mod word_unat_eq_iff)
  have le: "b + s \<le> 4 \<longleftrightarrow> unat b + unat s \<le> 4" "b + s \<le> 8" using b8 by (simp_all add: word_le_nat_alt sum)
  have post: "class_post (Ffi s a t els) (unat b) (Inr (1, classes[0 := leaf_class (t, unat s, unat b)]))"
    using assms(1,3) w by (simp add: class_post_def big_def word_from_def)
  have set0: "set_class classes 0 c = Inr (classes[0 := c])" for c
    using assms(3) by (simp add: set_class_def)
  from assms(2) consider (i) "is_scalar_int t \<or> t = FFI_TYPE_POINTER" | (f) "t = FFI_TYPE_FLOAT" | (d) "t = FFI_TYPE_DOUBLE"
    by (auto simp: scalar_ok_def)
  then have "classify_argument junk (Ffi s a t els) classes b = Inr (1, classes[0 := leaf_class (t, unat s, unat b)])"
  proof cases
    case i
    then have "t \<noteq> FFI_TYPE_FLOAT" "t \<noteq> FFI_TYPE_DOUBLE" by (auto simp: is_scalar_int_def ffi_code_defs)
    with i le w show ?thesis by (simp add: do_integer_def set0)
  next
    case f
    then have "\<not> (is_scalar_int t \<or> t = FFI_TYPE_POINTER)" by (simp add: is_scalar_int_def ffi_code_defs)
    with f z w show ?thesis by (simp add: set0)
  next
    case d
    then have "\<not> (is_scalar_int t \<or> t = FFI_TYPE_POINTER)" "t \<noteq> FFI_TYPE_FLOAT"
      by (simp_all add: is_scalar_int_def ffi_code_defs)
    with d show ?thesis by (simp add: set0)
  qed
  with post show ?thesis by simp
qed

lemma elements_fit:
  assumes "list_all laid (e # es)" "ends (e # es) off \<le> 32"
  shows "unat (ffi_size e) + align_up off (unat (ffi_alignment e)) \<le> 32"
proof -
  have "\<forall>d\<in>set es. 0 < unat (ffi_alignment d)"
    using assms(1) align8 [OF laid_align(1)] by (auto simp: list_all_iff)
  from ends_ge [OF this, of "align_up off (unat (ffi_alignment e)) + unat (ffi_size e)"] assms(2)
  show ?thesis by simp
qed

lemma floor_ceil: "(x :: nat) + s \<le> 32 \<Longrightarrow> x div 8 + words_of s \<le> 4"
  unfolding words_of_def by linarith

lemma laid_pos: "laid ty \<Longrightarrow> 0 < unat (ffi_size ty)"
proof (induction ty)
  case (Ffi s a t els)
  show ?case
  proof (cases "t = FFI_TYPE_STRUCT")
    case True
    with Ffi.prems obtain e es where es: "els = Some (e # es)" "laid e" "list_all laid es"
      "unat a \<in> {1, 2, 4, 8}" "unat s = align_up (ends (e # es) 0) (unat a)"
      by (auto simp: neq_Nil_conv split: option.splits)
    have "\<forall>d\<in>set es. 0 < unat (ffi_alignment d)"
      using es(3) align8 [OF laid_align(1)] by (auto simp: list_all_iff)
    from ends_ge [OF this] have "unat (ffi_size e) \<le> ends (e # es) 0"
      by (metis add_leD2 ends.simps(2))
    moreover have "0 < unat (ffi_size e)" using Ffi.IH [of "e # es" e] es by simp
    moreover have "ends (e # es) 0 \<le> unat s" using align_up_bounds(1) [of "unat a" "ends (e # es) 0"] es(4,5) by auto
    ultimately show ?thesis by simp
  next
    case False
    with Ffi.prems show ?thesis by (auto simp: scalar_ok_def)
  qed
qed

definition elements_post :: "ffi_type list \<Rightarrow> nat \<Rightarrow> x86_64_reg_class list \<Rightarrow> (bool \<times> x86_64_reg_class list) result \<Rightarrow> bool" where
  "elements_post es off classes r \<longleftrightarrow> (\<exists>zero cs. r = Inr (zero, cs) \<and> length cs = 4
     \<and> (aligned_fits es off \<longrightarrow> zero = (\<exists>e\<in>set es. big e)
          \<and> (\<not> zero \<longrightarrow> (\<forall>w<4. plain_class (classes ! w) \<longrightarrow> cs ! w = word_from (classes ! w) (flats es off) w))))"

text \<open>One element: the merging loop adds its eightbytes to those of the structure.\<close>

lemma element_step:
  assumes "laid e" "unat (ffi_alignment e) dvd x" "x + unat (ffi_size e) \<le> 32" "length classes = 4" "length sub = 4"
    and num: "num \<le> words_of (unat (ffi_size e))"
    and fit: "aligned_fit e (x mod 8) \<Longrightarrow> num = words_of (unat (ffi_size e))
       \<and> (\<forall>w<num. sub ! w = word_class (flat e (x mod 8)) w)"
  shows "\<exists>cs. merge_fields 0 num (x div 8) sub classes = Inr cs \<and> length cs = 4
    \<and> (aligned_fit e (x mod 8) \<longrightarrow> (\<forall>w<4. plain_class (classes ! w) \<longrightarrow> cs ! w = word_from (classes ! w) (flat e x) w))"
proof -
  have q: "x div 8 + words_of (unat (ffi_size e)) \<le> 4" by (rule floor_ceil [OF assms(3)])
  then obtain cs where cs: "merge_fields 0 num (x div 8) sub classes = Inr cs" "length cs = 4"
    "\<forall>w<4. cs ! w = (if x div 8 \<le> w \<and> w < num + x div 8
        then merge_classes (sub ! (w - x div 8)) (classes ! w) else classes ! w)"
    using merge_fields_ok [of 0 num sub "x div 8" classes] assms(4,5) num by auto
  have "cs ! w = word_from (classes ! w) (flat e x) w"
    if "aligned_fit e (x mod 8)" "w < 4" "plain_class (classes ! w)" for w
    using element_words [OF assms(1) assms(2) that(1,3), of w] cs(3) that(2) fit [OF that(1)]
    by auto
  with cs show ?thesis by blast
qed

lemma classify_elements_post:
  assumes IH: "\<And>e classes b. e \<in> set es \<Longrightarrow> length classes = 4 \<Longrightarrow> unat b < 8 \<Longrightarrow>
      unat (ffi_alignment e) dvd unat b \<Longrightarrow> unat b + unat (ffi_size e) \<le> 32 \<Longrightarrow>
      class_post e (unat b) (classify_argument junk e classes b)"
    and "list_all laid es" "length classes = 4" "length sub = 4" "ends es (unat off) \<le> 32"
  shows "elements_post es (unat off) classes (classify_elements junk es classes sub off)"
  using assms
proof (induction es arbitrary: classes sub off)
  case Nil
  then show ?case by (auto simp: elements_post_def word_from_def)
next
  case (Cons e es)
  let ?a = "unat (ffi_alignment e)"
  let ?o = "FFI_ALIGN off (ucast (ffi_alignment e))"
  define x where "x = align_up (unat off) ?a"
  have le: "laid e" "list_all laid es" using Cons.prems(2) by simp_all
  note al = laid_align [OF le(1)]
  have fit: "x + unat (ffi_size e) \<le> 32" using elements_fit [OF Cons.prems(2,5)] by (simp add: x_def)
  have "unat off \<le> x" using align_up_bounds(1) [of ?a "unat off"] al(1) by (auto simp: x_def)
  then have off: "unat off \<le> 32" using fit by simp
  have o: "unat ?o = x"
    unfolding x_def by (rule FFI_ALIGN_ok_align [OF al(2)]) (use off al(1) in auto)
  have om: "unat (?o mod 8) = x mod 8" "unat (?o div 8) = x div 8" by (simp_all add: unat_mod unat_div o)
  have next_off: "unat (?o + ffi_size e) = x + unat (ffi_size e)"
    by (subst unat_add_bounded) (use o fit in simp_all)
  have dvd: "?a dvd x" by (simp add: x_def)
  then have dvdm: "?a dvd x mod 8" using align8 [OF al(1)] by (simp add: dvd_mod)
  have "class_post e (unat (?o mod 8)) (classify_argument junk e sub (?o mod 8))"
    by (rule Cons.prems(1)) (use Cons.prems om dvdm fit mod_le_divisor in \<open>auto intro: order_trans [OF add_right_mono [OF mod_less_eq_dividend]]\<close>)
  then obtain num sub' where c: "classify_argument junk e sub (?o mod 8) = Inr (num, sub')" "length sub' = 4"
    "num \<le> words_of (unat (ffi_size e))"
    "aligned_fit e (x mod 8) \<Longrightarrow> num = (if big e then 0 else words_of (unat (ffi_size e)))
       \<and> (\<forall>w<num. sub' ! w = word_class (flat e (x mod 8)) w)"
    unfolding class_post_def om by blast
  have fits: "aligned_fits (e # es) (unat off) \<longleftrightarrow> aligned_fit e (x mod 8) \<and> aligned_fits es (x + unat (ffi_size e))"
    "flats (e # es) (unat off) = flat e x @ flats es (x + unat (ffi_size e))"
    by (simp_all add: Let_def x_def)
  show ?case
  proof (cases "num = 0")
    case True
    then have "classify_elements junk (e # es) classes sub off = Inr (True, classes)" by (simp add: c(1))
    moreover have "aligned_fit e (x mod 8) \<Longrightarrow> big e"
      using c(4) True laid_pos [OF le(1)] by (auto simp: words_of_def split: if_splits)
    ultimately show ?thesis using Cons.prems(3) fits by (auto simp: elements_post_def)
  next
    case False
    obtain cs where cs: "merge_fields 0 num (x div 8) sub' classes = Inr cs" "length cs = 4"
      "aligned_fit e (x mod 8) \<longrightarrow> (\<forall>w<4. plain_class (classes ! w) \<longrightarrow> cs ! w = word_from (classes ! w) (flat e x) w)"
      using element_step [OF le(1) dvd fit Cons.prems(3) c(2,3)] c(4) False by (metis (no_types, lifting))
    have r: "classify_elements junk (e # es) classes sub off = classify_elements junk es cs sub' (?o + ffi_size e)"
      using False by (simp add: c(1) om(2) cs(1))
    have "elements_post es (unat (?o + ffi_size e)) cs (classify_elements junk es cs sub' (?o + ffi_size e))"
      by (rule Cons.IH) (use Cons.prems le cs c next_off in \<open>simp_all add: x_def\<close>)
    then show ?thesis
      unfolding r next_off elements_post_def fits
      using cs(3) c(4) False plain_word_from by (auto split: if_splits)
  qed
qed

lemma big_element:
  assumes "list_all laid es" "e \<in> set es" "big e" "ends es off \<le> m"
  shows "16 < m"
  using assms
proof (induction es arbitrary: off)
  case (Cons d es)
  let ?p = "align_up off (unat (ffi_alignment d)) + unat (ffi_size d)"
  have "\<forall>x\<in>set es. 0 < unat (ffi_alignment x)"
    using Cons.prems(1) align8 [OF laid_align(1)] by (auto simp: list_all_iff)
  from ends_ge [OF this, of ?p] have "unat (ffi_size d) \<le> m" using Cons.prems(4) by simp
  then show ?case using Cons by (auto simp: big_def)
qed simp

lemma classify_post:
  assumes junk: "length junk = 4"
  shows "laid ty \<Longrightarrow> length classes = 4 \<Longrightarrow> unat b < 8 \<Longrightarrow> unat (ffi_alignment ty) dvd unat b \<Longrightarrow>
   unat b + unat (ffi_size ty) \<le> 32 \<or> 32 < unat (ffi_size ty) \<Longrightarrow>
   class_post ty (unat b) (classify_argument junk ty classes b)"
proof (induction ty arbitrary: classes b)
  case (Ffi s a t els)
  show ?case
  proof (cases "t = FFI_TYPE_STRUCT")
    case False
    with Ffi.prems show ?thesis by (intro scalar_post) simp_all
  next
    case True
    with Ffi.prems(1) obtain es where es: "els = Some es" "list_all laid es"
      "unat a \<in> {1, 2, 4, 8}" "\<forall>e\<in>set es. unat (ffi_alignment e) dvd unat a"
      "unat s = align_up (ends es 0) (unat a)"
      by (auto simp: list_all_iff split: option.splits)
    have code: "\<not> (is_scalar_int t \<or> t = FFI_TYPE_POINTER)" "t \<noteq> FFI_TYPE_FLOAT" "t \<noteq> FFI_TYPE_DOUBLE"
      using True by (simp_all add: is_scalar_int_def ffi_code_defs)
    show ?thesis
    proof (cases "unat s \<le> 32")
      case False
      then have "s > 32" by (simp add: word_less_nat_alt)
      then show ?thesis using Ffi.prems(2) True code False
        by (simp add: class_post_def big_def)
    next
      case small: True
      let ?n = "words_of (unat s)"
      have s32: "s \<le> 32" using small by (simp add: word_le_nat_alt)
      note words = words_of_unat [OF s32, simplified]
      have n: "0 < ?n" "?n \<le> 4" using laid_pos [OF Ffi.prems(1)] words_of_le [OF small] by (auto simp: words_of_def)
      obtain cs where cs: "clear_classes 0 ?n classes = Inr cs" "length cs = 4"
        "\<forall>w<?n. cs ! w = X86_64_NO_CLASS"
        using clear_classes_ok [of 0 ?n classes] n Ffi.prems(2) by auto
      have "\<forall>e\<in>set es. 0 < unat (ffi_alignment e) \<and> unat (ffi_alignment e) dvd unat b"
        using es(2,4) Ffi.prems(4) align8 [OF laid_align(1)] by (auto simp: list_all_iff intro: dvd_trans)
      then have eb: "ends es (unat b) = unat b + ends es 0" using ends_add [of es "unat b" 0] by simp
      have e0: "ends es 0 \<le> unat s" using align_up_bounds(1) [of "unat a" "ends es 0"] es(3,5) by auto
      have e32: "ends es (unat b) \<le> 32" using eb e0 Ffi.prems(5) small by simp
      have "elements_post es (unat b) cs (classify_elements junk es cs junk b)"
        by (rule classify_elements_post)
          (use Ffi.IH [of es] es(1,2) cs(2) junk e32 in \<open>auto simp: list_all_iff\<close>)
      then obtain zero cs' where el: "classify_elements junk es cs junk b = Inr (zero, cs')" "length cs' = 4"
        "aligned_fits es (unat b) \<Longrightarrow> zero = (\<exists>e\<in>set es. big e)"
        "aligned_fits es (unat b) \<Longrightarrow> \<not> zero \<Longrightarrow> \<forall>w<?n. cs' ! w = word_class (flats es (unat b)) w"
        using cs(3) n by (fastforce simp: elements_post_def)
      have eq: "classify_argument junk (Ffi s a t els) classes b = (if zero then Inr (0, cs') else finish_struct ?n cs')"
        using s32 True code es(1) n by (simp add: words cs(1) el(1) Let_def not_less [symmetric])
      have big: "big (Ffi s a t els) \<longleftrightarrow> ?n > 2" using True by (auto simp: big_def words_of_def)
      show ?thesis
      proof (cases zero)
        case True
        then have "aligned_fits es (unat b) \<Longrightarrow> unat s > 16"
          using el(3) big_element [OF es(2) _ _ e0] by auto
        with True eq el(2) es(1) \<open>t = FFI_TYPE_STRUCT\<close> show ?thesis by (auto simp: class_post_def big_def)
      next
        case nz: False
        obtain k ds where f: "finish_struct ?n cs' = Inr (k, ds)" "length ds = 4" "k \<le> ?n"
          using finish_struct_ok [of ?n cs'] n el(2) by auto
        have "k = (if big (Ffi s a t els) then 0 else ?n) \<and> (\<forall>w<k. ds ! w = word_class (flats es (unat b)) w)"
          if "aligned_fits es (unat b)"
        proof -
          have w: "\<forall>w<?n. cs' ! w = word_class (flats es (unat b)) w" by (rule el(4) [OF that nz])
          then have "\<forall>w<?n. plain_class (cs' ! w)" by (simp add: plain_word_from)
          from finish_struct_plain [OF _ this] n(2) el(2) f(1) have "k = (if ?n > 2 then 0 else ?n)" "ds = cs'" by auto
          with w big show ?thesis by auto
        qed
        with f n(2) nz eq es(1) \<open>t = FFI_TYPE_STRUCT\<close> show ?thesis by (auto simp: class_post_def)
      qed
    qed
  qed
qed

section \<open>Layout produces such types\<close>

text \<open>
  \<open>sound_type\<close>: what the type parser hands over, scalars with their size and structures with
  size zero.
\<close>

fun sound_type :: "ffi_type \<Rightarrow> bool" where
  "sound_type (Ffi s a t els) =
     (if t = FFI_TYPE_STRUCT then s = 0 \<and> (case els of None \<Rightarrow> False | Some es \<Rightarrow> list_all sound_type es)
      else scalar_ok s a t)"

lemma xx_initialize_eq:
  "xx_initialize_aggregate ty = initialize_aggregate ty"
  "xx_initialize_elements es sz al = initialize_elements es sz al"
  by (induction ty and es sz al rule: xx_initialize_aggregate_xx_initialize_elements.induct)
    (auto simp: Let_def split: option.splits)

lemma packed_ends:
  "packed start es ps stop \<Longrightarrow> stop = ends es start"
  by (induction start es ps stop rule: packed.induct) auto

lemma fold_max_pow:
  assumes "\<forall>x\<in>set xs. x \<in> {1, 2, 4, 8 :: nat}" "xs \<noteq> []"
  shows "fold max xs 0 \<in> {1, 2, 4, 8}" "\<forall>x\<in>set xs. x dvd fold max xs 0"
proof -
  have nz: "fold max xs 0 \<noteq> 0" using fold_max_upper(1) [of _ xs 0] assms by (metis hd_in_set insertE le_0_eq
        not_less_zero singletonD zero_less_numeral zero_neq_numeral zero_neq_one)
  then show m: "fold max xs 0 \<in> {1, 2, 4, 8}" using fold_max_mem [of xs 0] assms(1) by auto
  show "\<forall>x\<in>set xs. x dvd fold max xs 0"
  proof
    fix x assume x: "x \<in> set xs"
    then have "x \<in> {1, 2, 4, 8}" "x \<le> fold max xs 0" using assms(1) fold_max_upper(1) by auto
    with m show "x dvd fold max xs 0" by auto
  qed
qed

fun nodes :: "ffi_type \<Rightarrow> nat" where
  "nodes (Ffi s a t els) = 1 + (case els of None \<Rightarrow> 0 | Some es \<Rightarrow> sum_list (map nodes es))"

lemma initialize_laid:
  "initialize_aggregate ty = Some (ty', offs) \<Longrightarrow> sound_type ty \<Longrightarrow> ffi_code ty = FFI_TYPE_STRUCT \<Longrightarrow>
     nodes ty < 2 ^ 24 \<Longrightarrow> laid ty' \<and> ffi_code ty' = FFI_TYPE_STRUCT \<and> unat (ffi_size ty') + 16 \<le> 32 * nodes ty"
  "initialize_elements es sz al = Some (es', sz', al', offs) \<Longrightarrow> list_all sound_type es \<Longrightarrow>
     sum_list (map nodes es) < 2 ^ 24 \<Longrightarrow>
     list_all laid es' \<and> room es' + 8 * length es \<le> 32 * sum_list (map nodes es) \<and> length es' = length es"
proof (induction ty and es sz al arbitrary: ty' offs and es' sz' al' offs
    rule: initialize_aggregate_initialize_elements.induct)
  case (1 s a t els)
  from "1.prems"(1) obtain es es' sz al where *: "els = Some es"
    "initialize_elements es 0 0 = Some (es', sz, al, offs)" "FFI_ALIGN sz (ucast al) \<noteq> 0"
    "ty' = Ffi (FFI_ALIGN sz (ucast al)) al t (Some es')"
    by (auto simp: Let_def split: option.splits if_splits)
  have t: "t = FFI_TYPE_STRUCT" using "1.prems"(3) by simp
  have IH: "list_all laid es'" "room es' + 8 * length es \<le> 32 * sum_list (map nodes es)" "length es' = length es"
    using "1.IH" [OF * (1,2)] "1.prems"(2,4) * (1) t by auto
  have ne: "es' \<noteq> []" using * (2,3) IH(3) by (cases es) (auto simp: FFI_ALIGN_def)
  have ok: "\<forall>e\<in>set es'. ok_align (ffi_alignment e)" using IH(1) laid_align(2) by (auto simp: list_all_iff)
  have pk: "packed 0 es' (map unat offs) (unat sz)" "unat sz \<le> room es'"
    using initialize_elements_packed [OF * (2) ok] IH(2) "1.prems"(4) * (1) by auto
  have al: "unat al = fold max (map (unat \<circ> ffi_alignment) es') 0"
    using initialize_elements_alignment [OF * (2)] by simp
  have pw: "\<forall>x\<in>set (map (unat \<circ> ffi_alignment) es'). x \<in> {1, 2, 4, 8}"
    using IH(1) laid_align(1) by (auto simp: list_all_iff)
  note fm = fold_max_pow [OF pw, folded al]
  have a8: "unat al \<in> {1, 2, 4, 8}" using fm(1) ne by simp
  then have "al \<in> {1, 2, 4, 8}" by (auto simp: word_unat_eq_iff)
  then have oka: "ok_align al" by auto
  have sz: "unat (FFI_ALIGN sz (ucast al)) = align_up (unat sz) (unat al)"
    by (rule FFI_ALIGN_ok_align [OF oka]) (use pk(2) IH(2) "1.prems"(4) * (1) a8 in auto)
  have "align_up (unat sz) (unat al) < unat sz + 8" using align_up_bounds(2) [of "unat al" "unat sz"] a8 by auto
  then have bnd: "unat (FFI_ALIGN sz (ucast al)) + 16 \<le> 32 * nodes (Ffi s a t els)"
    using sz pk(2) IH(2,3) ne * (1) by (cases es') auto
  then show ?case
    using * (4) t ne IH(1) a8 fm(2) ne sz packed_ends [OF pk(1)] "1.prems"(4)
    by (auto simp: list_all_iff)
next
  case (3 ptr ptrs sz al)
  from "3.prems"(1) obtain ptr' ptrs' offs' where *:
    "(if ffi_size ptr = 0 then map_option fst (initialize_aggregate ptr) else Some ptr) = Some ptr'"
    "initialize_elements ptrs (FFI_ALIGN sz (ucast (ffi_alignment ptr')) + ffi_size ptr')
       (if al > ffi_alignment ptr' then al else ffi_alignment ptr') = Some (ptrs', sz', al', offs')"
    "es' = ptr' # ptrs'"
    by (auto simp: Let_def split: option.splits)
  have "laid ptr' \<and> unat (ffi_size ptr') + 16 \<le> 32 * nodes ptr"
  proof (cases "ffi_code ptr = FFI_TYPE_STRUCT")
    case True
    then have z: "ffi_size ptr = 0" using "3.prems"(2) by (cases ptr) simp
    with * (1) obtain o' where "initialize_aggregate ptr = Some (ptr', o')" by auto
    from "3.IH"(1) [OF z this] "3.prems"(2,3) True show ?thesis by simp
  next
    case False
    then have "scalar_ok (ffi_size ptr) (ffi_alignment ptr) (ffi_code ptr)" using "3.prems"(2) by (cases ptr) simp
    moreover from this have "ptr' = ptr" using * (1) by (auto simp: scalar_ok_def split: if_splits)
    ultimately show ?thesis using False by (cases ptr) (auto simp: scalar_ok_def)
  qed
  moreover from this have "unat (ffi_alignment ptr') \<le> 8" using laid_align(1) [of ptr'] by auto
  moreover have "list_all laid ptrs' \<and> room ptrs' + 8 * length ptrs \<le> 32 * sum_list (map nodes ptrs)
      \<and> length ptrs' = length ptrs"
    by (rule "3.IH"(2) [OF * (1) refl refl * (2)]) (use "3.prems"(2,3) in simp_all)
  ultimately show ?case using * (3) by simp
qed simp

text \<open>
  C6.  The classification of a laid-out structure never leaves its class arrays and never
  aborts.  If no nested structure spills into an extra eightbyte, the answer is that of the
  System V rules: structures of more than sixteen bytes go to memory, and the class of every
  eightbyte of any other structure is the merge of the classes of all scalars in it, at
  whatever depth they are nested, whatever the arrays held before.
\<close>

theorem classify_argument_correct:
  assumes "xx_initialize_aggregate ty = Some (ty', offs)" "sound_type ty" "ffi_code ty = FFI_TYPE_STRUCT"
    and "nodes ty < 2 ^ 24" "length junk = MAX_CLASSES" "length classes = MAX_CLASSES"
  shows "\<exists>n cs. classify_argument junk ty' classes 0 = Inr (n, cs) \<and> n \<le> MAX_CLASSES
    \<and> (aligned_fit ty' 0 \<longrightarrow> n = (if unat (ffi_size ty') > 16 then 0 else (unat (ffi_size ty') + 7) div 8)
         \<and> take n cs = map (word_class (flat ty' 0)) [0..<n])"
proof -
  have l: "laid ty'" "ffi_code ty' = FFI_TYPE_STRUCT"
    using initialize_laid(1) [OF assms(1) [unfolded xx_initialize_eq] assms(2-4)] by simp_all
  have "class_post ty' (unat (0 :: u64)) (classify_argument junk ty' classes 0)"
    by (rule classify_post) (use assms(5,6) l in \<open>auto simp: MAX_CLASSES_def\<close>)
  then obtain n cs where c: "classify_argument junk ty' classes 0 = Inr (n, cs)" "length cs = 4" "n \<le> 4"
    "aligned_fit ty' 0 \<Longrightarrow> n = (if big ty' then 0 else words_of (unat (ffi_size ty')))
      \<and> (\<forall>w<n. cs ! w = word_class (flat ty' 0) w)"
    by (auto simp: class_post_def)
  have "take n cs = map (word_class (flat ty' 0)) [0..<n]" if "aligned_fit ty' 0"
    using c(2,3) c(4) [OF that] by (intro nth_equalityI) auto
  with c l(2) show ?thesis by (auto simp: MAX_CLASSES_def big_def words_of_def)
qed

definition wit_mixed :: ffi_type where
  "wit_mixed = Ffi 0 0 FFI_TYPE_STRUCT (Some [ffi_type_float, ffi_type_float, ffi_type_sint32])"

definition wit_mixed_laid :: ffi_type where
  "wit_mixed_laid = Ffi 12 4 FFI_TYPE_STRUCT (Some [ffi_type_float, ffi_type_float, ffi_type_sint32])"

lemma wit_mixed_init: "xx_initialize_aggregate wit_mixed = Some (wit_mixed_laid, [0, 4, 8])"
  by (simp add: wit_mixed_def wit_mixed_laid_def ffi_basic_defs FFI_ALIGN_def)

text \<open>Witness: \<open>struct { float x, y; int n; }\<close> takes a vector and an integer register.\<close>

theorem classify_argument_correct_witness:
  "\<exists>cs. classify_argument (replicate 4 X86_64_MEMORY_CLASS) wit_mixed_laid (replicate 4 X86_64_X87_CLASS) 0
      = Inr (2, cs) \<and> take 2 cs = [X86_64_SSE_CLASS, X86_64_INTEGERSI_CLASS]"
proof -
  have h: "sound_type wit_mixed" "ffi_code wit_mixed = FFI_TYPE_STRUCT" "nodes wit_mixed < 2 ^ 24"
    "length (replicate 4 X86_64_MEMORY_CLASS) = MAX_CLASSES" "length (replicate 4 X86_64_X87_CLASS) = MAX_CLASSES"
    by (simp_all add: wit_mixed_def ffi_basic_defs scalar_ok_def ffi_code_defs is_scalar_int_def MAX_CLASSES_def)
  have f: "aligned_fit wit_mixed_laid 0" "ffi_size wit_mixed_laid = 12"
    "flat wit_mixed_laid 0 = [(FFI_TYPE_FLOAT, 4, 0), (FFI_TYPE_FLOAT, 4, 4), (FFI_TYPE_SINT32, 4, 8)]"
    by (simp_all add: wit_mixed_laid_def ffi_basic_defs words_of_def align_up_def ffi_code_defs)
  have w: "map (word_class (flat wit_mixed_laid 0)) [0..<2] = [X86_64_SSE_CLASS, X86_64_INTEGERSI_CLASS]"
    by (simp add: f(3) word_from_def upt_rec merge_classes_def ffi_code_defs)
  from classify_argument_correct [OF wit_mixed_init h] f(1,2) w show ?thesis by auto
qed

section \<open>A nested structure that spills over\<close>

text \<open>
  \<open>struct { int a; struct { int b, c; } p; }\<close>: the nested structure starts in the middle of the
  first eightbyte and ends in the second one.  \<open>classify_argument\<close> counts the eightbytes of the
  nested structure from its size alone, so it reports one, and the class of \<open>c\<close> is dropped:
  the whole twelve bytes are given a single integer register, whatever the unspecified
  contents of the local array are.
\<close>

definition spill_struct :: ffi_type where
  "spill_struct = Ffi 0 0 FFI_TYPE_STRUCT (Some [ffi_type_sint32,
     Ffi 0 0 FFI_TYPE_STRUCT (Some [ffi_type_sint32, ffi_type_sint32])])"

definition spill_laid :: ffi_type where
  "spill_laid = Ffi 12 4 FFI_TYPE_STRUCT (Some [ffi_type_sint32,
     Ffi 8 4 FFI_TYPE_STRUCT (Some [ffi_type_sint32, ffi_type_sint32])])"

lemmas two_words = clear_classes.simps(2) [where k = "Suc 0", folded numeral_2_eq_2]
  cleanup.simps(2) [where k = "Suc 0", folded numeral_2_eq_2]

theorem classify_argument_spill:
  assumes "length junk = MAX_CLASSES"
  shows "xx_initialize_aggregate spill_struct = Some (spill_laid, [0, 4])
    \<and> (\<exists>cs. classify_argument junk spill_laid junk 0 = Inr (2, cs)
         \<and> take 2 cs = [X86_64_INTEGER_CLASS, X86_64_NO_CLASS])
    \<and> map (word_class (flat spill_laid 0)) [0..<2] = [X86_64_INTEGER_CLASS, X86_64_INTEGERSI_CLASS]"
proof -
  obtain a b c d where j: "junk = [a, b, c, d]"
    using assms by (auto simp: MAX_CLASSES_def length_Suc_conv numeral_eq_Suc)
  have "xx_initialize_aggregate spill_struct = Some (spill_laid, [0, 4])"
    by (simp add: spill_struct_def spill_laid_def ffi_basic_defs FFI_ALIGN_def)
  moreover have "\<exists>cs. classify_argument junk spill_laid junk 0 = Inr (2, cs)
         \<and> take 2 cs = [X86_64_INTEGER_CLASS, X86_64_NO_CLASS]"
    by (simp add: j spill_laid_def ffi_basic_defs ffi_code_defs is_scalar_int_def do_integer_def set_class_def
        get_class_def finish_struct_def FFI_ALIGN_def merge_classes_def two_words Let_def)
  moreover have "flat spill_laid 0 = [(FFI_TYPE_SINT32, 4, 0), (FFI_TYPE_SINT32, 4, 4), (FFI_TYPE_SINT32, 4, 8)]"
    by (simp add: spill_laid_def ffi_basic_defs align_up_def ffi_code_defs)
  then have "map (word_class (flat spill_laid 0)) [0..<2] = [X86_64_INTEGER_CLASS, X86_64_INTEGERSI_CLASS]"
    by (simp add: word_from_def upt_rec merge_classes_def ffi_code_defs)
  ultimately show ?thesis by blast
qed

end
