(* ===== verification/Xx_Alloc.thy ===== *)
theory Xx_Alloc
  imports Xx_Cif Aa_Locations
begin

text \<open>
  The argument allocation of \<open>xx_prep_cif.c\<close> against the System V rules: an argument whose
  eightbytes all find a register of their class takes the next ones, any other argument goes
  to the stack as a whole.
\<close>

section \<open>The allocation rules\<close>

fun is_int_class :: "x86_64_reg_class \<Rightarrow> bool" where
  "is_int_class X86_64_INTEGER_CLASS = True"
| "is_int_class X86_64_INTEGERSI_CLASS = True"
| "is_int_class _ = False"

fun is_sse_class :: "x86_64_reg_class \<Rightarrow> bool" where
  "is_sse_class X86_64_SSE_CLASS = True"
| "is_sse_class X86_64_SSESF_CLASS = True"
| "is_sse_class X86_64_SSEDF_CLASS = True"
| "is_sse_class _ = False"

definition ints :: "x86_64_reg_class list \<Rightarrow> nat" where
  "ints cs = length (filter is_int_class cs)"

definition sses :: "x86_64_reg_class list \<Rightarrow> nat" where
  "sses cs = length (filter is_sse_class cs)"

fun reg_seq :: "x86_64_reg_class list \<Rightarrow> nat \<Rightarrow> nat \<Rightarrow> nat list" where
  "reg_seq [] g s = []"
| "reg_seq (c # cs) g s =
     (if is_int_class c then xx_gprcnt2reg ! g # reg_seq cs (g + 1) s
      else if is_sse_class c then xx_ssecnt2reg ! s # reg_seq cs g (s + 1)
      else reg_seq cs g s)"

record xstate =
  xg :: nat
  xv :: nat
  xoff :: nat

definition xalloc :: "xstate \<Rightarrow> x86_64_reg_class list \<Rightarrow> nat \<Rightarrow> nat \<Rightarrow> xstate \<times> loc" where
  "xalloc st cs sz al =
     (if cs = [] \<or> xg st + ints cs > 6 \<or> xv st + sses cs > 8
      then (let p = align_up (xoff st) (max 8 al) in (st\<lparr>xoff := p + sz\<rparr>, LMem p))
      else (st\<lparr>xg := xg st + ints cs, xv := xv st + sses cs\<rparr>, LRegs (reg_seq cs (xg st) (xv st))))"

fun xalloc_all :: "xstate \<Rightarrow> (x86_64_reg_class list \<times> nat \<times> nat) list \<Rightarrow> xstate \<times> loc list" where
  "xalloc_all st [] = (st, [])"
| "xalloc_all st ((cs, sz, al) # as) =
     (let (st1, l) = xalloc st cs sz al; (st2, ls) = xalloc_all st1 as in (st2, l # ls))"

lemma ints_simps [simp]: "ints [] = 0" "ints (c # cs) = (if is_int_class c then 1 else 0) + ints cs"
  by (simp_all add: ints_def)

lemma sses_simps [simp]: "sses [] = 0" "sses (c # cs) = (if is_sse_class c then 1 else 0) + sses cs"
  by (simp_all add: sses_def)

lemma int_not_sse: "is_int_class c \<Longrightarrow> \<not> is_sse_class c"
  by (cases c) simp_all

section \<open>Consequences of the rules\<close>

lemmas xx_tables = xx_gprcnt2reg_def xx_ssecnt2reg_def

lemma xx_tables_distinct: "distinct (xx_gprcnt2reg @ xx_ssecnt2reg)"
  by (simp add: xx_tables te_reg_defs upt_rec)

lemma xx_tables_range: "\<forall>r\<in>set (xx_gprcnt2reg @ xx_ssecnt2reg). 0 < r \<and> r < 256"
  by (simp add: xx_tables te_reg_defs upt_rec)

lemma xx_tables_length [simp]: "length xx_gprcnt2reg = 6" "length xx_ssecnt2reg = 8"
  by (simp_all add: xx_tables)

definition xfree :: "xstate \<Rightarrow> nat set" where
  "xfree st = set (drop (xg st) xx_gprcnt2reg) \<union> set (drop (xv st) xx_ssecnt2reg)"

lemma reg_seq_takes:
  assumes "g + ints cs \<le> 6" "s + sses cs \<le> 8"
  shows "distinct (reg_seq cs g s)
    \<and> set (reg_seq cs g s) \<subseteq> set (drop g xx_gprcnt2reg) \<union> set (drop s xx_ssecnt2reg)
    \<and> set (reg_seq cs g s) \<inter>
        (set (drop (g + ints cs) xx_gprcnt2reg) \<union> set (drop (s + sses cs) xx_ssecnt2reg)) = {}"
  using assms
proof (induction cs arbitrary: g s)
  case (Cons c cs)
  have dj: "set (drop a xx_gprcnt2reg) \<inter> set (drop b xx_ssecnt2reg) = {}" for a b
    using xx_tables_distinct set_drop_subset by (fastforce simp only: distinct_append)
  have dg: "distinct (drop a xx_gprcnt2reg)" "distinct (drop a xx_ssecnt2reg)" for a
    using xx_tables_distinct by simp_all
  have g1: "drop g xx_gprcnt2reg = xx_gprcnt2reg ! g # drop (g + 1) xx_gprcnt2reg" if "g < 6"
    using that by (simp add: Cons_nth_drop_Suc)
  have s1: "drop s xx_ssecnt2reg = xx_ssecnt2reg ! s # drop (s + 1) xx_ssecnt2reg" if "s < 8"
    using that by (simp add: Cons_nth_drop_Suc)
  have sub: "set (drop (a + b) l) \<subseteq> set (drop a l)" for a b and l :: "nat list"
    by (metis add.commute drop_drop set_drop_subset)
  consider (i) "is_int_class c" | (s) "is_sse_class c" "\<not> is_int_class c"
    | (n) "\<not> is_int_class c" "\<not> is_sse_class c" by blast
  then show ?case
  proof cases
    case i
    then have lt: "g < 6" and ns: "\<not> is_sse_class c" using Cons.prems int_not_sse by auto
    have "xx_gprcnt2reg ! g \<notin> set (drop (g + 1) xx_gprcnt2reg) \<union> set (drop s' xx_ssecnt2reg)" for s'
      using g1 [OF lt] dg(1) [of g] dj [of g s'] by auto
    moreover note Cons.IH [of "g + 1" s]
    ultimately show ?thesis
      using Cons.prems i ns g1 [OF lt] sub [of "g + 1" "ints cs" xx_gprcnt2reg] sub [of s "sses cs" xx_ssecnt2reg]
      by (auto simp: add.assoc)
  next
    case s
    then have lt: "s < 8" using Cons.prems by auto
    have "xx_ssecnt2reg ! s \<notin> set (drop (s + 1) xx_ssecnt2reg) \<union> set (drop g' xx_gprcnt2reg)" for g'
      using s1 [OF lt] dg(2) [of s] dj [of g' s] by auto
    moreover note Cons.IH [of g "s + 1"]
    ultimately show ?thesis
      using Cons.prems s s1 [OF lt] sub [of "s + 1" "sses cs" xx_ssecnt2reg] sub [of g "ints cs" xx_gprcnt2reg]
      by (auto simp: add.assoc)
  next
    case n
    with Cons.IH [of g s] Cons.prems show ?thesis by simp
  qed
qed simp

lemma xalloc_regs:
  assumes "xalloc st cs sz al = (st', l)"
  shows "distinct (loc_regs l)" "set (loc_regs l) \<subseteq> xfree st" "xfree st' \<subseteq> xfree st - set (loc_regs l)"
proof -
  have "distinct (loc_regs l) \<and> set (loc_regs l) \<subseteq> xfree st \<and> xfree st' \<subseteq> xfree st - set (loc_regs l)"
  proof (cases "cs = [] \<or> xg st + ints cs > 6 \<or> xv st + sses cs > 8")
    case True
    with assms show ?thesis by (auto simp: xalloc_def Let_def xfree_def)
  next
    case False
    then have eq: "st' = st\<lparr>xg := xg st + ints cs, xv := xv st + sses cs\<rparr>"
      "l = LRegs (reg_seq cs (xg st) (xv st))"
      using assms by (auto simp: xalloc_def)
    have sub: "set (drop (a + b) r) \<subseteq> set (drop a r)" for a b and r :: "nat list"
      by (metis add.commute drop_drop set_drop_subset)
    show ?thesis
      using reg_seq_takes [of "xg st" cs "xv st"] False sub [of "xg st" "ints cs" xx_gprcnt2reg]
        sub [of "xv st" "sses cs" xx_ssecnt2reg]
      by (simp add: eq xfree_def) blast
  qed
  then show "distinct (loc_regs l)" "set (loc_regs l) \<subseteq> xfree st" "xfree st' \<subseteq> xfree st - set (loc_regs l)"
    by simp_all
qed

lemma xalloc_all_regs:
  assumes "xalloc_all st as = (st', ls)"
  shows "distinct (concat (map loc_regs ls)) \<and> set (concat (map loc_regs ls)) \<subseteq> xfree st"
  using assms
proof (induction as arbitrary: st ls)
  case (Cons a as)
  obtain cs sz al where a: "a = (cs, sz, al)" by (cases a)
  obtain st1 l where x: "xalloc st cs sz al = (st1, l)" by fastforce
  obtain st2 ls1 where y: "xalloc_all st1 as = (st2, ls1)" by fastforce
  have eq: "st' = st2" "ls = l # ls1" using Cons.prems a x y by auto
  have "distinct (concat (map loc_regs ls1)) \<and> set (concat (map loc_regs ls1)) \<subseteq> xfree st1"
    by (rule Cons.IH [OF y [folded eq(1)]])
  with xalloc_regs [OF x] show ?case by (auto simp: eq(2))
qed simp

lemma xalloc_off:
  assumes "xalloc st cs sz al = (st', l)" "0 < al"
  shows "xoff st \<le> xoff st'" "xoff st' \<le> xoff st + sz + max 8 al"
    "l = LMem p \<Longrightarrow> xoff st \<le> p \<and> p + sz \<le> xoff st'"
proof -
  have "0 < max 8 al" by simp
  note b = align_up_bounds [OF this, of "xoff st"]
  show "xoff st \<le> xoff st'" "xoff st' \<le> xoff st + sz + max 8 al"
    "l = LMem p \<Longrightarrow> xoff st \<le> p \<and> p + sz \<le> xoff st'"
    using assms(1) b by (auto simp: xalloc_def Let_def split: if_splits)
qed

definition xslot :: "x86_64_reg_class list \<times> nat \<times> nat \<Rightarrow> kind \<times> nat \<times> nat" where
  "xslot a = (KInt, snd a)"

lemma slot_size_xslot [simp]: "slot_size (fst (xslot a)) (fst (snd (xslot a))) = fst (snd a)"
  by (simp add: xslot_def slot_size_def)

lemma xalloc_all_slots:
  assumes "xalloc_all st as = (st', ls)" "\<forall>a\<in>set as. 0 < snd (snd a)"
  shows "slots (xoff st) (map xslot as) ls (xoff st')"
  using assms
proof (induction as arbitrary: st ls)
  case (Cons a as)
  obtain cs sz al where a: "a = (cs, sz, al)" by (cases a)
  obtain st1 l where x: "xalloc st cs sz al = (st1, l)" by fastforce
  obtain st2 ls1 where y: "xalloc_all st1 as = (st2, ls1)" by fastforce
  have eq: "st' = st2" "ls = l # ls1" using Cons.prems a x y by auto
  have pos: "0 < al" using Cons.prems(2) a by simp
  have IH: "slots (xoff st1) (map xslot as) ls1 (xoff st')"
    using Cons.IH [OF y [folded eq(1)]] Cons.prems(2) by simp
  note o = xalloc_off [OF x pos]
  show ?case
  proof (cases l)
    case (LRegs rs)
    with slots_mono [OF IH o(1)] show ?thesis by (simp add: eq a)
  next
    case (LMem p)
    with o(3) [OF LMem] slots_mono [OF IH] show ?thesis by (simp add: eq a)
  qed
qed simp

section \<open>Registers and stack slots of one argument\<close>

lemma get_class_Inr: "get_class cs i = Inr c \<longleftrightarrow> i < length cs \<and> c = cs ! i"
  by (auto simp: get_class_def)

lemma take_drop_Suc:
  "j < length cs \<Longrightarrow> take (Suc k) (drop j cs) = cs ! j # take k (drop (j + 1) cs)"
  by (metis Cons_nth_drop_Suc Suc_eq_plus1 take_Suc_Cons)

lemma count_classes_Some:
  assumes "count_classes i k cs a b = Inr (Some (a', b'))"
  shows "a' = a + ints (take k (drop i cs)) \<and> b' = b + sses (take k (drop i cs))
    \<and> (k \<noteq> 0 \<longrightarrow> i + k \<le> length cs)"
  using assms
proof (induction k arbitrary: i a b)
  case (Suc k)
  then have i: "i < length cs" by (auto simp: get_class_Inr)
  show ?case
    using Suc.prems i unfolding take_drop_Suc [OF i]
    by (cases "cs ! i") (auto simp: get_class_def simp del: One_nat_def dest!: Suc.IH)
qed simp

definition same_info :: "nat \<Rightarrow> ffi_type \<Rightarrow> x86_64_reg_class list \<Rightarrow> bool" where
  "same_info l ty cs \<longleftrightarrow> (\<forall>c\<in>set cs. (is_int_class c \<longrightarrow> l = locinfo_of (ffi_code ty))
     \<and> (is_sse_class c \<longrightarrow> l = TE_Full))"

lemma put_reg_Inr:
  "put_reg (Some fn) i idx table n info = Inr r \<longleftrightarrow>
   idx < 4 \<and> n < length table \<and> i < length (fi_ainfo fn) \<and>
   (\<exists>x. te_set_reg (fi_ainfo fn ! i) idx (table ! n) info = Inr x
      \<and> r = (Some (fn\<lparr>fi_ainfo := (fi_ainfo fn)[i := x]\<rparr>), idx + 1))"
  by (auto simp: put_reg_def bindR_Inr_iff fn_arg_upd_Some split: if_splits)

lemma xx_reg_arg_regs:
  assumes "xx_reg_arg j k i ty idx st = Inr st'" "xx_fn st = Some fn" "i < length (fi_ainfo fn)"
    and "same_info l ty (take k (drop j (ex_classes (xx_ex st))))"
    and "cs = take k (drop j (ex_classes (xx_ex st)))"
  shows "\<exists>x. te_set_regs (fi_ainfo fn ! i) idx (reg_seq cs (xx_gprcount st) (xx_ssecount st)) l = Inr x
    \<and> st' = st\<lparr>xx_fn := Some (fn\<lparr>fi_ainfo := (fi_ainfo fn)[i := x]\<rparr>),
                 xx_gprcount := xx_gprcount st + ints cs, xx_ssecount := xx_ssecount st + sses cs\<rparr>"
  using assms
proof (induction k arbitrary: j idx st fn cs)
  case 0
  then show ?case by simp
next
  case (Suc k)
  let ?cl = "ex_classes (xx_ex st)"
  from Suc.prems(1) have j: "j < length ?cl" by (auto simp: get_class_Inr)
  define cs' where "cs' = take k (drop (j + 1) ?cl)"
  have cs: "cs = ?cl ! j # cs'" by (simp add: Suc.prems(5) cs'_def take_drop_Suc [OF j])
  have info: "same_info l ty cs'" "same_info l ty [?cl ! j]"
    using Suc.prems(4) by (simp_all add: same_info_def take_drop_Suc [OF j] cs'_def)
  consider (n) "?cl ! j = X86_64_NO_CLASS \<or> ?cl ! j = X86_64_SSEUP_CLASS"
    | (i) "is_int_class (?cl ! j)" | (s) "is_sse_class (?cl ! j)"
    using Suc.prems(1) j by (cases "?cl ! j") (auto simp: get_class_def)
  then show ?case
  proof cases
    case n
    then have "xx_reg_arg (j + 1) k i ty idx st = Inr st'" "reg_seq cs = reg_seq cs'"
      "ints cs = ints cs'" "sses cs = sses cs'"
      using Suc.prems(1) j by (auto simp: get_class_def cs fun_eq_iff)
    with Suc.IH [OF this(1) Suc.prems(2,3) info(1) [unfolded cs'_def] cs'_def] show ?thesis by simp
  next
    case i
    then obtain x where x: "te_set_reg (fi_ainfo fn ! i) idx (xx_gprcnt2reg ! xx_gprcount st) l = Inr x"
      "xx_reg_arg (j + 1) k i ty (idx + 1) (st\<lparr>xx_fn := Some (fn\<lparr>fi_ainfo := (fi_ainfo fn)[i := x]\<rparr>),
          xx_gprcount := xx_gprcount st + 1\<rparr>) = Inr st'"
      using Suc.prems(1,2) j info(2)
      by (cases "?cl ! j") (auto simp: get_class_def put_reg_Inr same_info_def)
    from Suc.IH [OF x(2), of "fn\<lparr>fi_ainfo := (fi_ainfo fn)[i := x]\<rparr>" cs'] info(1) Suc.prems(3) x(1) i
    show ?thesis using int_not_sse [OF i] by (auto simp: cs cs'_def)
  next
    case s
    then obtain x where x: "te_set_reg (fi_ainfo fn ! i) idx (xx_ssecnt2reg ! xx_ssecount st) l = Inr x"
      "xx_reg_arg (j + 1) k i ty (idx + 1) (st\<lparr>xx_fn := Some (fn\<lparr>fi_ainfo := (fi_ainfo fn)[i := x]\<rparr>),
          xx_ssecount := xx_ssecount st + 1\<rparr>) = Inr st'"
      using Suc.prems(1,2) j info(2)
      by (cases "?cl ! j") (auto simp: get_class_def put_reg_Inr same_info_def)
    from s have "\<not> is_int_class (?cl ! j)" using int_not_sse by auto
    with Suc.IH [OF x(2), of "fn\<lparr>fi_ainfo := (fi_ainfo fn)[i := x]\<rparr>" cs'] info(1) Suc.prems(3) x(1) s
    show ?thesis by (auto simp: cs cs'_def)
  qed
qed

lemma do_integer_int:
  assumes "do_integer sz cs = Inr (n, cs')"
  shows "\<forall>c\<in>set (take n cs'). is_int_class c"
  using assms
  by (auto simp: do_integer_def set_class_def bindR_Inr_iff numeral_2_eq_2 neq_Nil_conv
      Suc_less_eq2 length_Suc_conv split: if_splits)

text \<open>\<open>classified\<close>: the eightbytes of a type, none when it goes to memory.\<close>

definition classified :: "x86_64_reg_class list \<Rightarrow> ffi_type \<Rightarrow> x86_64_reg_class list \<Rightarrow> bool" where
  "classified junk ty cs \<longleftrightarrow>
     (\<exists>cs0 n cs'. classify_argument junk ty cs0 0 = Inr (n, cs') \<and> cs = take n cs')"

text \<open>A type that goes to memory has no eightbytes, or one of a class without registers.\<close>

definition mem_class :: "x86_64_reg_class list \<Rightarrow> ffi_type \<Rightarrow> bool" where
  "mem_class junk ty \<longleftrightarrow>
     (\<exists>cs0 n cs'. classify_argument junk ty cs0 0 = Inr (n, cs')
        \<and> (n = 0 \<or> (\<exists>c\<in>set (take n cs'). \<not> is_int_class c \<and> \<not> is_sse_class c)))"

definition eightbytes :: "x86_64_reg_class list \<Rightarrow> ffi_type \<Rightarrow> x86_64_reg_class list \<Rightarrow> bool" where
  "eightbytes junk ty cs \<longleftrightarrow> (if cs = [] then mem_class junk ty else classified junk ty cs)"

lemma count_classes_None:
  assumes "count_classes i k cs a b = Inr None"
  shows "\<exists>c\<in>set (take k (drop i cs)). \<not> is_int_class c \<and> \<not> is_sse_class c"
  using assms
proof (induction k arbitrary: i a b)
  case (Suc k)
  then have i: "i < length cs" by (auto simp: get_class_Inr)
  show ?case
    using Suc.prems i unfolding take_drop_Suc [OF i]
    by (cases "cs ! i") (auto simp: get_class_def simp del: One_nat_def dest!: Suc.IH)
qed simp

lemma small_scalar_classes:
  assumes "classify_argument junk ty cs 0 = Inr (n, cs')" "locinfo_of (ffi_code ty) \<noteq> TE_Full"
  shows "\<forall>c\<in>set (take n cs'). is_int_class c"
proof (cases ty)
  case (Ffi s a t els)
  with assms have "do_integer (0 + s) cs = Inr (n, cs')"
    by (auto simp: locinfo_of_def is_scalar_int_def split: if_splits)
  then show ?thesis by (rule do_integer_int)
qed

lemma locinfo_of_bound: "locinfo_of t < 256"
  by (simp add: locinfo_of_def te_loc_defs)

lemma examine_argument_cases:
  assumes "examine_argument junk ty False ex = Inr ex'"
    and cs: "cs = take (ex_n ex') (ex_classes ex')"
  shows "ex_n ex' = 0 \<and> mem_class junk ty \<or> classified junk ty cs \<and> cs \<noteq> [] \<and> ex_ngpr ex' = ints cs \<and> ex_nsse ex' = sses cs
     \<and> (\<exists>l<256. l \<in> {TE_Full, locinfo_of (ffi_code ty)} \<and> same_info l ty cs)"
proof (cases "ex_n ex' = 0")
  case False
  then obtain n c g s where c: "classify_argument junk ty (ex_classes ex) 0 = Inr (n, c)"
    "count_classes 0 n c 0 0 = Inr (Some (g, s))" "n \<noteq> 0"
    "ex' = \<lparr>ex_n = n, ex_classes = c, ex_ngpr = g, ex_nsse = s\<rparr>"
    using assms(1) by (auto simp: examine_argument_def split: if_splits option.splits)
  note k = count_classes_Some [OF c(2)]
  have cl: "classified junk ty cs" using c(1,4) cs by (auto simp: classified_def)
  have "\<exists>l<256. l \<in> {TE_Full, locinfo_of (ffi_code ty)} \<and> same_info l ty cs"
  proof (cases "locinfo_of (ffi_code ty) = TE_Full")
    case True
    then show ?thesis by (intro exI [of _ TE_Full]) (simp add: same_info_def te_loc_defs)
  next
    case f: False
    then show ?thesis
      using small_scalar_classes [OF c(1) f] cs c(4) locinfo_of_bound int_not_sse
      by (intro exI [of _ "locinfo_of (ffi_code ty)"]) (auto simp: same_info_def)
  qed
  with cl k c(3,4) cs show ?thesis by auto
next
  case True
  then have "mem_class junk ty"
    using assms(1) count_classes_None [of 0] unfolding mem_class_def
    by (fastforce simp: examine_argument_def split: if_splits option.splits)
  with True show ?thesis by blast
qed

lemma reg_seq_range:
  assumes "g + ints cs \<le> 6" "s + sses cs \<le> 8"
  shows "list_all (\<lambda>r. 0 < r \<and> r < 256) (reg_seq cs g s)"
proof -
  have "set (reg_seq cs g s) \<subseteq> set (xx_gprcnt2reg @ xx_ssecnt2reg)"
    using reg_seq_takes [OF assms] set_drop_subset by fastforce
  then show ?thesis using xx_tables_range by (auto simp: list_all_iff)
qed

text \<open>The extension stored with a location is that of the type, or none.\<close>

definition xinfo :: "ABIArgInfo \<Rightarrow> ffi_type \<Rightarrow> bool" where
  "xinfo x ty \<longleftrightarrow>
     (if te_is_mem x then te_get_mem_locinfo x = locinfo_of (ffi_code ty)
      else \<forall>j < te_num_of_reg x. te_get_reg_locinfo x j \<in> {TE_Full, locinfo_of (ffi_code ty)})"

lemma xinfo_mem:
  "te_is_mem x \<Longrightarrow> xinfo (te_set_mem x off (locinfo_of (ffi_code ty))) ty"
  using locinfo_of_bound [of "ffi_code ty"] by (simp add: xinfo_def te_get_set_mem)

lemma xinfo_regs:
  assumes "te_set_regs x 0 rs l = Inr x'" "list_all (\<lambda>r. 0 < r \<and> r < 256) rs" "l < 256" "ai_val x = 0"
    and "\<not> te_is_mem x" "l \<in> {TE_Full, locinfo_of (ffi_code ty)}"
  shows "xinfo x' ty"
proof -
  have run: "argregs.set_run x 0 rs l = Inr x'" using assms(1) by (simp add: te_set_regs_run)
  have "length rs \<le> TE_MAX_REGS_FOR_ONE_ARG"
    using argregs.set_run_Inr_bound [OF run] by (cases "rs = []") auto
  then have "te_get_reg_locinfo x' j = l" if "j < length rs" for j
    using argregs.getl_set_run [OF run assms(3), of j] that by simp
  moreover have "\<not> te_is_mem x'" using assms(5) te_set_regs_frame [OF assms(1)] by (simp add: te_is_mem_def)
  ultimately show ?thesis using te_num_of_reg_set_regs [OF assms(1-4)] assms(6) by (simp add: xinfo_def)
qed

definition xabs :: "xx_alloc \<Rightarrow> xstate" where
  "xabs st = \<lparr>xg = xx_gprcount st, xv = xx_ssecount st, xoff = unat (xx_offset st)\<rparr>"

lemma xx_mem_arg_step:
  assumes "xx_mem_arg st i ty = Inr st'" "xx_fn st = Some fn" "ok_align (ffi_alignment ty)"
    and bound: "unat (xx_offset st) + unat (ffi_size ty) + 2 ^ 15 < 2 ^ 32"
  shows "\<exists>off. xx_fn st' = Some (fn\<lparr>fi_ainfo := (fi_ainfo fn)[i :=
          te_set_mem (te_or_mask (fi_ainfo fn ! i) TE_MASK_ISMEM) off (locinfo_of (ffi_code ty))]\<rparr>)
    \<and> i < length (fi_ainfo fn) \<and> unat off = align_up (unat (xx_offset st)) (max 8 (unat (ffi_alignment ty)))
    \<and> unat off < 2 ^ 32
    \<and> xabs st' = xabs st\<lparr>xoff := unat off + unat (ffi_size ty)\<rparr>"
proof -
  define al' :: u16 where "al' = (if ffi_alignment ty < 8 then 8 else ffi_alignment ty)"
  define off where "off = FFI_ALIGN (xx_offset st) (ucast al')"
  have ok: "ok_align al'" using assms(3) by (simp add: al'_def)
  have al': "unat al' = max 8 (unat (ffi_alignment ty))"
    by (auto simp: al'_def word_less_nat_alt)
  have off: "unat off = align_up (unat (xx_offset st)) (unat al')"
    unfolding off_def by (rule FFI_ALIGN_ok_align [OF ok]) (use bound ok_align_bound [OF ok] in simp)
  have lt: "unat off < unat (xx_offset st) + unat al'"
    unfolding off using ok_align_pos [OF ok] by (rule align_up_bounds(2))
  have sum: "unat (off + ffi_size ty) = unat off + unat (ffi_size ty)"
    by (rule unat_add_bounded) (use lt bound ok_align_bound [OF ok] in simp)
  from assms(1,2) have st': "st' = st\<lparr>xx_offset := off + ffi_size ty,
      xx_fn := Some (fn\<lparr>fi_ainfo := (fi_ainfo fn)[i :=
          te_set_mem (te_or_mask (fi_ainfo fn ! i) TE_MASK_ISMEM) off (locinfo_of (ffi_code ty))]\<rparr>)\<rparr>"
    and i: "i < length (fi_ainfo fn)"
    by (auto simp: xx_mem_arg_def Let_def bindR_Inr_iff fn_arg_upd_Some al'_def [symmetric] off_def [symmetric])
  show ?thesis
    using i off lt bound ok_align_bound [OF ok] sum
    by (intro exI [of _ off]) (auto simp: st' xabs_def al')
qed

lemma xx_place_arg_refines:
  assumes place: "xx_place_arg junk st i ty = Inr st'" and fn: "xx_fn st = Some fn"
    and zero: "fi_ainfo fn ! i = zeroArgInfo" and ok: "ok_align (ffi_alignment ty)"
    and bound: "unat (xx_offset st) + unat (ffi_size ty) + 2 ^ 15 < 2 ^ 32"
  shows "\<exists>cs x l. i < length (fi_ainfo fn) \<and> xx_fn st' = Some (fn\<lparr>fi_ainfo := (fi_ainfo fn)[i := x]\<rparr>)
    \<and> placed x ty KInt l \<and> xinfo x ty \<and> eightbytes junk ty cs
    \<and> xalloc (xabs st) cs (unat (ffi_size ty)) (unat (ffi_alignment ty)) = (xabs st', l)"
proof -
  define x0 where "x0 = te_set_arg_size zeroArgInfo (ffi_size ty)"
  define fn0 where "fn0 = fn\<lparr>fi_ainfo := (fi_ainfo fn)[i := x0]\<rparr>"
  from place fn zero obtain ex where i: "i < length (fi_ainfo fn)"
    and ex: "examine_argument junk ty False (xx_ex st) = Inr ex"
    and p: "(if ex_n ex = 0 \<or> xx_gprcount st + ex_ngpr ex > MAX_GPR_REGS
        \<or> xx_ssecount st + ex_nsse ex > MAX_SSE_REGS
      then xx_mem_arg (st\<lparr>xx_fn := Some fn0, xx_ex := ex\<rparr>) i ty
      else xx_reg_arg 0 (ex_n ex) i ty 0 (st\<lparr>xx_fn := Some fn0, xx_ex := ex\<rparr>)) = Inr st'"
    unfolding fn0_def x0_def by (auto simp: xx_place_arg_def Let_def fn_arg_upd_Some)
  define cs where "cs = take (ex_n ex) (ex_classes ex)"
  let ?st0 = "st\<lparr>xx_fn := Some fn0, xx_ex := ex\<rparr>"
  have x0: "fi_ainfo fn0 ! i = x0" "ai_val x0 = 0" "ai_mask x0 = 0" "ai_size x0 = ucast (ffi_size ty)"
    using i by (simp_all add: fn0_def x0_def zeroArgInfo_def)
  note exc = examine_argument_cases [OF ex cs_def]
  show ?thesis
  proof (cases "ex_n ex = 0 \<or> xx_gprcount st + ex_ngpr ex > MAX_GPR_REGS \<or> xx_ssecount st + ex_nsse ex > MAX_SSE_REGS")
    case True
    with p have mem: "xx_mem_arg ?st0 i ty = Inr st'" by simp
    obtain off where off: "xx_fn st' = Some (fn0\<lparr>fi_ainfo := (fi_ainfo fn0)[i :=
          te_set_mem (te_or_mask (fi_ainfo fn0 ! i) TE_MASK_ISMEM) off (locinfo_of (ffi_code ty))]\<rparr>)"
      "unat off = align_up (unat (xx_offset st)) (max 8 (unat (ffi_alignment ty)))" "unat off < 2 ^ 32"
      "xabs st' = xabs st\<lparr>xoff := unat off + unat (ffi_size ty)\<rparr>"
      using xx_mem_arg_step [OF mem, of fn0] ok bound by (auto simp: xabs_def)
    have "placed (te_set_mem (te_or_mask x0 TE_MASK_ISMEM) off (locinfo_of (ffi_code ty))) ty KInt (LMem (unat off))"
      by (rule placed_mem [OF off(3)]) (simp_all add: x0 te_is_indirect_def)
    moreover have "xinfo (te_set_mem (te_or_mask x0 TE_MASK_ISMEM) off (locinfo_of (ffi_code ty))) ty"
      by (rule xinfo_mem) (simp add: is_mem_or_mask)
    moreover have "xalloc (xabs st) cs (unat (ffi_size ty)) (unat (ffi_alignment ty)) = (xabs st', LMem (unat off))"
      using True exc off(2,4)
      by (auto simp: xalloc_def Let_def xabs_def cs_def MAX_GPR_REGS_def MAX_SSE_REGS_def)
    ultimately show ?thesis
      using i off(1) exc
      by (intro exI [of _ cs] exI [of _ "te_set_mem (te_or_mask x0 TE_MASK_ISMEM) off (locinfo_of (ffi_code ty))"]
          exI [of _ "LMem (unat off)"]) (auto simp: fn0_def cs_def eightbytes_def)
  next
    case False
    with p have reg: "xx_reg_arg 0 (ex_n ex) i ty 0 ?st0 = Inr st'" by simp
    from False exc obtain l where l: "l < 256" "same_info l ty cs" "cs \<noteq> []" "classified junk ty cs"
      "xx_gprcount st + ints cs \<le> 6" "xx_ssecount st + sses cs \<le> 8" "l \<in> {TE_Full, locinfo_of (ffi_code ty)}"
      by (auto simp: MAX_GPR_REGS_def MAX_SSE_REGS_def)
    obtain x where x: "te_set_regs (fi_ainfo fn0 ! i) 0 (reg_seq cs (xx_gprcount st) (xx_ssecount st)) l = Inr x"
      "st' = ?st0\<lparr>xx_fn := Some (fn0\<lparr>fi_ainfo := (fi_ainfo fn0)[i := x]\<rparr>),
                 xx_gprcount := xx_gprcount st + ints cs, xx_ssecount := xx_ssecount st + sses cs\<rparr>"
      using xx_reg_arg_regs [OF reg, of fn0 l cs] i l(2) by (auto simp: fn0_def cs_def)
    have "loc_of x = LRegs (reg_seq cs (xx_gprcount st) (xx_ssecount st))"
      by (rule loc_of_regs [OF x(1) reg_seq_range [OF l(5,6)] l(1)]) (simp_all add: x0)
    then have "placed x ty KInt (LRegs (reg_seq cs (xx_gprcount st) (xx_ssecount st)))"
      using te_set_regs_frame [OF x(1)] x0 by (simp add: placed_def te_is_indirect_def)
    moreover have "xinfo x ty"
      by (rule xinfo_regs [OF x(1) reg_seq_range [OF l(5,6)] l(1) _ _ l(7)]) (simp_all add: x0 te_is_mem_def)
    ultimately show ?thesis
      using i l(3-6) x(2)
      by (intro exI [of _ cs] exI [of _ x] exI) (auto simp: fn0_def xalloc_def xabs_def eightbytes_def)
  qed
qed

end
