(* ===== verification/Xx_Locations.thy ===== *)
theory Xx_Locations
  imports Xx_Alloc
begin

text \<open>
  What \<open>xx_prep_cif.c\<close> computes for a whole signature: the locations follow the abstract
  System V allocation, and no two arguments share storage.
\<close>

section \<open>All arguments\<close>

definition xall_placed :: "x86_64_reg_class list \<Rightarrow> ABIArgInfo list \<Rightarrow> ffi_type list
    \<Rightarrow> x86_64_reg_class list list \<Rightarrow> loc list \<Rightarrow> bool" where
  "xall_placed junk xs tys css ls \<longleftrightarrow>
     length xs = length tys \<and> length css = length tys \<and> length ls = length tys
     \<and> (\<forall>j<length tys. placed (xs ! j) (tys ! j) KInt (ls ! j) \<and> xinfo (xs ! j) (tys ! j)
          \<and> eightbytes junk (tys ! j) (css ! j))"

lemma xall_placed_Cons:
  "xall_placed junk (x # xs) (ty # tys) (cs # css) (l # ls) \<longleftrightarrow>
   placed x ty KInt l \<and> xinfo x ty \<and> eightbytes junk ty cs \<and> xall_placed junk xs tys css ls"
  by (auto simp: xall_placed_def nth_Cons' less_Suc_eq_0_disj)

definition xabs_arg :: "x86_64_reg_class list \<Rightarrow> ffi_type \<Rightarrow> x86_64_reg_class list \<times> nat \<times> nat" where
  "xabs_arg cs ty = (cs, unat (ffi_size ty), unat (ffi_alignment ty))"

lemma xx_place_args_refines:
  assumes "xx_place_args junk st i tys = Inr st'" "xx_fn st = Some fn"
    and "length (fi_ainfo fn) = i + length tys"
    and "\<forall>j. i \<le> j \<longrightarrow> j < length (fi_ainfo fn) \<longrightarrow> fi_ainfo fn ! j = zeroArgInfo"
    and "\<forall>ty\<in>set tys. ok_align (ffi_alignment ty)"
    and "unat (xx_offset st) + sum_list (map arg_room tys) < 2 ^ 32"
  shows "\<exists>css ls fn'. xx_fn st' = Some fn' \<and> take i (fi_ainfo fn') = take i (fi_ainfo fn)
    \<and> fn'\<lparr>fi_ainfo := []\<rparr> = fn\<lparr>fi_ainfo := []\<rparr>
    \<and> xall_placed junk (drop i (fi_ainfo fn')) tys css ls
    \<and> xalloc_all (xabs st) (map2 xabs_arg css tys) = (xabs st', ls)
    \<and> unat (xx_offset st') \<le> unat (xx_offset st) + sum_list (map arg_room tys)"
  using assms
proof (induction tys arbitrary: st i fn)
  case Nil
  then show ?case by (auto simp: xall_placed_def)
next
  case (Cons ty tys)
  from Cons.prems(1) obtain st1 where st1: "xx_place_arg junk st i ty = Inr st1"
    and rec: "xx_place_args junk st1 (i + 1) tys = Inr st'"
    by auto
  from xx_place_arg_refines [OF st1 Cons.prems(2)] Cons.prems
  obtain cs x l where x: "i < length (fi_ainfo fn)"
    "xx_fn st1 = Some (fn\<lparr>fi_ainfo := (fi_ainfo fn)[i := x]\<rparr>)" "placed x ty KInt l" "xinfo x ty"
    "eightbytes junk ty cs"
    "xalloc (xabs st) cs (unat (ffi_size ty)) (unat (ffi_alignment ty)) = (xabs st1, l)"
    by (auto simp: arg_room_def)
  let ?fn1 = "fn\<lparr>fi_ainfo := (fi_ainfo fn)[i := x]\<rparr>"
  have ok: "ok_align (ffi_alignment ty)" using Cons.prems(5) by simp
  have off: "unat (xx_offset st1) \<le> unat (xx_offset st) + arg_room ty"
    using xalloc_off(2) [OF x(6) ok_align_pos [OF ok]] ok_align_bound [OF ok]
    by (simp add: xabs_def arg_room_def)
  have "\<exists>css ls fn'. xx_fn st' = Some fn' \<and> take (i + 1) (fi_ainfo fn') = take (i + 1) (fi_ainfo ?fn1)
    \<and> fn'\<lparr>fi_ainfo := []\<rparr> = ?fn1\<lparr>fi_ainfo := []\<rparr>
    \<and> xall_placed junk (drop (i + 1) (fi_ainfo fn')) tys css ls
    \<and> xalloc_all (xabs st1) (map2 xabs_arg css tys) = (xabs st', ls)
    \<and> unat (xx_offset st') \<le> unat (xx_offset st1) + sum_list (map arg_room tys)"
    by (rule Cons.IH [OF rec]) (use x Cons.prems off in auto)
  then obtain css ls fn' where r: "xx_fn st' = Some fn'"
    "take (i + 1) (fi_ainfo fn') = take (i + 1) (fi_ainfo ?fn1)"
    "fn'\<lparr>fi_ainfo := []\<rparr> = ?fn1\<lparr>fi_ainfo := []\<rparr>"
    "xall_placed junk (drop (i + 1) (fi_ainfo fn')) tys css ls"
    "xalloc_all (xabs st1) (map2 xabs_arg css tys) = (xabs st', ls)"
    "unat (xx_offset st') \<le> unat (xx_offset st1) + sum_list (map arg_room tys)"
    by blast
  have fn': "i < length (fi_ainfo fn')" "fi_ainfo fn' ! i = x" "take i (fi_ainfo fn') = take i (fi_ainfo fn)"
    using take_Suc_eqD [of i "fi_ainfo fn'" "fi_ainfo ?fn1"] r(2) x(1) by auto
  have "drop i (fi_ainfo fn') = x # drop (i + 1) (fi_ainfo fn')"
    using fn'(1,2) by (metis Cons_nth_drop_Suc Suc_eq_plus1)
  moreover have "xalloc_all (xabs st) (map2 xabs_arg (cs # css) (ty # tys)) = (xabs st', l # ls)"
    using x(6) r(5) by (simp add: xabs_arg_def)
  ultimately show ?case
    using r fn' x(3,4,5) off
    by (intro exI [of _ "cs # css"] exI [of _ "l # ls"] exI [of _ fn']) (simp add: xall_placed_Cons)
qed

section \<open>The result\<close>

lemma xx_ret_flags_mem:
  assumes "xx_ret_flags junk rtype ex = Inr (flags, g, ex')"
  shows "g = (if flags = 1024 then 1 else 0)"
  using assms
  by (auto simp: xx_ret_flags_def xx_struct_ret_def Let_def xx_const_defs split: if_splits option.splits list.splits)

lemma xx_store_ret_mem:
  assumes "xx_store_ret flags zeroArgInfo = Inr r" "te_is_indirect r"
  shows "flags = 1024"
proof (rule ccontr)
  assume "flags \<noteq> 1024"
  with assms(1) have "ai_mask r = 0"
    by (auto simp: xx_store_ret_def set_reg2_def xx_const_defs te_set_reg_Inr zeroArgInfo_def split: if_splits)
  with assms(2) show False by (simp add: te_is_indirect_def)
qed

lemma xx_store_ret_indirect: "xx_store_ret 1024 zeroArgInfo = Inr r \<Longrightarrow> te_is_indirect r"
  by (auto simp: xx_store_ret_def xx_const_defs te_set_reg_Inr te_is_indirect_def te_or_mask_def te_mask_defs zeroArgInfo_def)

lemma xx_store_ret_rdi:
  assumes "xx_store_ret flags zeroArgInfo = Inr r" "te_is_indirect r"
  shows "te_get_reg r 0 = Inr TE_RDI"
  using assms xx_store_ret_mem [OF assms]
  by (auto simp: xx_store_ret_def xx_const_defs te_set_reg_Inr te_get_reg_def TE_MAX_REGS_FOR_ONE_ARG_def
      te_reg_defs zeroArgInfo_def te_or_mask_def)

section \<open>The whole signature\<close>

lemma xx_init_args_Inr:
  "xx_init_args tys = Inr tys' \<Longrightarrow> length tys' = length tys"
  by (induction tys arbitrary: tys') auto

lemma xx_prep_Inr:
  assumes "my_xx_fi_prep_cif junk abi n rtype atypes fn0 = Inr (cif, fn)"
  obtains flags g ex fn1 st where
    "xx_init_args atypes = Inr (xx_arg_types cif)"
    "xx_ret_flags junk (xx_rtype cif) \<lparr>ex_n = 0, ex_classes = junk, ex_ngpr = 0, ex_nsse = 0\<rparr> = Inr (flags, g, ex)"
    "fn_ret_upd fn0 (xx_store_ret flags) = Inr fn1"
    "xx_place_args junk \<lparr>xx_gprcount = g, xx_ssecount = 0, xx_offset = 0, xx_ex = ex, xx_fn = fn1\<rparr>
        0 (xx_arg_types cif) = Inr st"
    "fn = map_option (\<lambda>f. f\<lparr>fi_bytes := ucast (FFI_ALIGN (xx_offset st) 8), fi_ssecount := xx_ssecount st\<rparr>) (xx_fn st)"
  using assms
  by (auto simp: my_xx_fi_prep_cif_def my_xx_fi_prep_cif_core_def my_xx_fi_prep_cif_machdep_def Let_def split: if_splits)

lemma xx_prep_refines:
  assumes prep: "my_xx_fi_prep_cif junk abi (length atypes) rtype atypes (Some fn0) = Inr (cif, Some fn)"
    and zero: "fi_ainfo fn0 = replicate (length atypes) zeroArgInfo" "fi_rinfo fn0 = zeroArgInfo"
    and ok: "\<forall>ty\<in>set (xx_arg_types cif). ok_align (ffi_alignment ty)"
    and room: "sum_list (map arg_room (xx_arg_types cif)) + 8 < 2 ^ 32"
  shows "\<exists>g css s ls. xall_placed junk (fi_ainfo fn) (xx_arg_types cif) css ls
    \<and> length (xx_arg_types cif) = length atypes
    \<and> xalloc_all \<lparr>xg = g, xv = 0, xoff = 0\<rparr> (map2 xabs_arg css (xx_arg_types cif)) = (s, ls)
    \<and> (te_is_indirect (fi_rinfo fn) \<longrightarrow> g = 1 \<and> te_get_reg (fi_rinfo fn) 0 = Inr TE_RDI) \<and> g \<le> 1
    \<and> (g = 1 \<longrightarrow> te_is_indirect (fi_rinfo fn))
    \<and> unat (fi_bytes fn) = align_up (xoff s) 8 \<and> fi_ssecount fn = xv s
    \<and> xoff s \<le> sum_list (map arg_room (xx_arg_types cif))"
proof -
  from prep obtain flags g ex fn1 st where
    a: "xx_init_args atypes = Inr (xx_arg_types cif)"
    and f: "xx_ret_flags junk (xx_rtype cif) \<lparr>ex_n = 0, ex_classes = junk, ex_ngpr = 0, ex_nsse = 0\<rparr> = Inr (flags, g, ex)"
    and r: "fn_ret_upd (Some fn0) (xx_store_ret flags) = Inr fn1"
    and p: "xx_place_args junk \<lparr>xx_gprcount = g, xx_ssecount = 0, xx_offset = 0, xx_ex = ex, xx_fn = fn1\<rparr>
        0 (xx_arg_types cif) = Inr st"
    and e: "Some fn = map_option (\<lambda>f. f\<lparr>fi_bytes := ucast (FFI_ALIGN (xx_offset st) 8), fi_ssecount := xx_ssecount st\<rparr>) (xx_fn st)"
    by (auto elim: xx_prep_Inr)
  from r obtain ri where fn1: "fn1 = Some (fn0\<lparr>fi_rinfo := ri\<rparr>)" "xx_store_ret flags zeroArgInfo = Inr ri"
    by (auto simp: fn_ret_upd_def bindR_Inr_iff zero)
  note len = xx_init_args_Inr [OF a]
  from xx_place_args_refines [OF p, of "fn0\<lparr>fi_rinfo := ri\<rparr>"] fn1 zero len ok room
  obtain css ls fn' where fn': "xx_fn st = Some fn'" "fn'\<lparr>fi_ainfo := []\<rparr> = fn0\<lparr>fi_rinfo := ri, fi_ainfo := []\<rparr>"
    "xall_placed junk (fi_ainfo fn') (xx_arg_types cif) css ls"
    "xalloc_all \<lparr>xg = g, xv = 0, xoff = 0\<rparr> (map2 xabs_arg css (xx_arg_types cif)) = (xabs st, ls)"
    and le: "unat (xx_offset st) \<le> sum_list (map arg_room (xx_arg_types cif))"
    by (auto simp: xabs_def)
  have fn: "fi_ainfo fn = fi_ainfo fn'" "fi_bytes fn = ucast (FFI_ALIGN (xx_offset st) 8)"
    "fi_ssecount fn = xx_ssecount st" "fi_rinfo fn = ri"
    using e fn'(1) arg_cong [OF fn'(2), of fi_rinfo] by simp_all
  have "unat (FFI_ALIGN (xx_offset st) (ucast (8 :: u16))) = align_up (unat (xx_offset st)) (unat (8 :: u16))"
    by (rule FFI_ALIGN_ok_align) (use le room in simp_all)
  then have al: "unat (FFI_ALIGN (xx_offset st) 8) = align_up (unat (xx_offset st)) 8" by simp
  moreover have "align_up (unat (xx_offset st)) 8 < 2 ^ 32"
    using align_up_bounds(2) [of 8 "unat (xx_offset st)"] le room by simp
  ultimately have "unat (fi_bytes fn) = align_up (xoff (xabs st)) 8"
    by (simp add: fn xabs_def unsigned_ucast_eq unsigned_take_bit_eq take_bit_nat_eq_self)
  moreover have "te_is_indirect (fi_rinfo fn) \<longrightarrow> g = 1 \<and> te_get_reg (fi_rinfo fn) 0 = Inr TE_RDI" "g \<le> 1"
    using xx_ret_flags_mem [OF f] xx_store_ret_mem [OF fn1(2)] xx_store_ret_rdi [OF fn1(2)] fn(4) by auto
  moreover have "g = 1 \<longrightarrow> te_is_indirect (fi_rinfo fn)"
    using xx_ret_flags_mem [OF f] xx_store_ret_indirect [of ri] fn1(2) fn(4) by auto
  ultimately show ?thesis
    using fn fn' len le by (intro exI conjI) (auto simp: xabs_def)
qed

lemma xall_placed_arg_regs:
  assumes "xall_placed junk xs tys css ls"
  shows "map arg_regs xs = map loc_regs ls"
proof (rule nth_equalityI)
  fix i assume "i < length (map arg_regs xs)"
  then show "map arg_regs xs ! i = map loc_regs ls ! i"
    using assms placed_arg_regs [of "xs ! i" "tys ! i" KInt "ls ! i"]
    by (simp add: xall_placed_def)
qed (use assms in \<open>simp add: xall_placed_def\<close>)

text \<open>
  C7.  Every argument that \<open>my_xx_fi_prep_cif\<close> places has storage of its own: the registers
  handed out are the six integer and the eight vector argument registers, each at most once
  over the whole signature, and not RDI when that carries the address of the result; the
  stack slots follow one another without overlap inside the stored byte count, which is a
  multiple of eight.
\<close>

theorem xx_locations_disjoint:
  assumes prep: "my_xx_fi_prep_cif junk abi (length atypes) rtype atypes (Some fn0) = Inr (cif, Some fn)"
    and zero: "fi_ainfo fn0 = replicate (length atypes) zeroArgInfo" "fi_rinfo fn0 = zeroArgInfo"
    and ok: "\<forall>ty\<in>set (xx_arg_types cif). ok_align (ffi_alignment ty)"
    and room: "sum_list (map arg_room (xx_arg_types cif)) + 8 < 2 ^ 32"
  shows "distinct (concat (map arg_regs (fi_ainfo fn)))
    \<and> set (concat (map arg_regs (fi_ainfo fn))) \<subseteq>
        (if te_is_indirect (fi_rinfo fn) then {} else {TE_RDI})
        \<union> {TE_RSI, TE_RDX, TE_RCX, TE_R8, TE_R9} \<union> TE_XMM ` {0..<8}
    \<and> (\<forall>i<length atypes. te_is_mem (fi_ainfo fn ! i) \<longrightarrow>
         unat (te_get_mem (fi_ainfo fn ! i)) + unat (te_get_arg_size (fi_ainfo fn ! i)) \<le> unat (fi_bytes fn))
    \<and> (\<forall>j<length atypes. \<forall>i<j. te_is_mem (fi_ainfo fn ! i) \<longrightarrow> te_is_mem (fi_ainfo fn ! j) \<longrightarrow>
         unat (te_get_mem (fi_ainfo fn ! i)) + unat (te_get_arg_size (fi_ainfo fn ! i))
           \<le> unat (te_get_mem (fi_ainfo fn ! j)))
    \<and> 8 dvd unat (fi_bytes fn)"
proof -
  obtain g css s ls where pl: "xall_placed junk (fi_ainfo fn) (xx_arg_types cif) css ls"
    and len: "length (xx_arg_types cif) = length atypes"
    and al: "xalloc_all \<lparr>xg = g, xv = 0, xoff = 0\<rparr> (map2 xabs_arg css (xx_arg_types cif)) = (s, ls)"
    and g: "te_is_indirect (fi_rinfo fn) \<longrightarrow> g = 1" "g \<le> 1"
    and bytes: "unat (fi_bytes fn) = align_up (xoff s) 8"
    using xx_prep_refines [OF assms] by blast
  let ?as = "map2 xabs_arg css (xx_arg_types cif)"
  have lens: "length (fi_ainfo fn) = length atypes" "length css = length atypes" "length ls = length atypes"
    using pl len by (simp_all add: xall_placed_def)
  have free: "xfree \<lparr>xg = g, xv = 0, xoff = 0\<rparr> \<subseteq> (if te_is_indirect (fi_rinfo fn) then {} else {TE_RDI})
        \<union> {TE_RSI, TE_RDX, TE_RCX, TE_R8, TE_R9} \<union> TE_XMM ` {0..<8}"
    using g by (cases g) (auto simp: xfree_def xx_tables)
  have pos: "0 < unat (ffi_alignment ty)" if "ty \<in> set (xx_arg_types cif)" for ty
    using ok ok_align_pos that by blast
  then have "\<forall>a\<in>set ?as. 0 < snd (snd a)"
    by (auto simp: set_zip xabs_arg_def)
  from xalloc_all_slots [OF al this] have sl: "slots 0 (map xslot ?as) ls (xoff s)" by simp
  have mem: "ls ! i = LMem (unat (te_get_mem (fi_ainfo fn ! i)))"
    "unat (te_get_arg_size (fi_ainfo fn ! i)) = slot_size (fst (map xslot ?as ! i)) (fst (snd (map xslot ?as ! i)))"
    if "i < length atypes" "te_is_mem (fi_ainfo fn ! i)" for i
  proof -
    have "unat (ffi_size (xx_arg_types cif ! i)) < 2 ^ 32"
      using sum_arg_room_bound [of "xx_arg_types cif ! i" "xx_arg_types cif"] that len room by simp
    moreover have "placed (fi_ainfo fn ! i) (xx_arg_types cif ! i) KInt (ls ! i)"
      using pl len that(1) by (simp add: xall_placed_def)
    ultimately show "ls ! i = LMem (unat (te_get_mem (fi_ainfo fn ! i)))"
      "unat (te_get_arg_size (fi_ainfo fn ! i)) = slot_size (fst (map xslot ?as ! i)) (fst (snd (map xslot ?as ! i)))"
      using that lens len
      by (auto simp: placed_def loc_of_def te_get_arg_size_def xslot_def slot_size_def xabs_arg_def
          unsigned_ucast_eq unsigned_take_bit_eq take_bit_nat_eq_self)
  qed
  have la: "length (map xslot ?as) = length atypes" using lens len by simp
  have top: "xoff s \<le> unat (fi_bytes fn)" using align_up_bounds(1) [of 8 "xoff s"] bytes by simp
  show ?thesis
  proof (intro conjI allI impI)
    show "distinct (concat (map arg_regs (fi_ainfo fn)))"
      using xalloc_all_regs [OF al] by (simp only: xall_placed_arg_regs [OF pl])
    show "set (concat (map arg_regs (fi_ainfo fn))) \<subseteq> (if te_is_indirect (fi_rinfo fn) then {} else {TE_RDI})
        \<union> {TE_RSI, TE_RDX, TE_RCX, TE_R8, TE_R9} \<union> TE_XMM ` {0..<8}"
      using conjunct2 [OF xalloc_all_regs [OF al]] free unfolding xall_placed_arg_regs [OF pl]
      by (rule subset_trans)
    show "8 dvd unat (fi_bytes fn)" by (simp add: bytes)
  next
    fix i assume i: "i < length atypes" "te_is_mem (fi_ainfo fn ! i)"
    show "unat (te_get_mem (fi_ainfo fn ! i)) + unat (te_get_arg_size (fi_ainfo fn ! i)) \<le> unat (fi_bytes fn)"
      using slots_order(3) [OF sl i(1) [folded la] mem(1) [OF i]] top unfolding mem(2) [OF i] by linarith
  next
    fix i j assume ij: "j < length atypes" "i < j" "te_is_mem (fi_ainfo fn ! i)" "te_is_mem (fi_ainfo fn ! j)"
    then have i: "i < length atypes" by simp
    show "unat (te_get_mem (fi_ainfo fn ! i)) + unat (te_get_arg_size (fi_ainfo fn ! i))
        \<le> unat (te_get_mem (fi_ainfo fn ! j))"
      using slots_order(4) [OF sl ij(2) ij(1) [folded la] mem(1) [OF i ij(3)] mem(1) [OF ij(1,4)]]
      unfolding mem(2) [OF i ij(3)] .
  qed
qed

section \<open>Witness\<close>

definition xwit_args :: "ffi_type list" where
  "xwit_args = [ffi_type_pointer, wit_hfa, ffi_type_double, ffi_type_sint8]"

definition xwit_types :: "ffi_type list" where
  "xwit_types = [ffi_type_pointer, Ffi 24 8 FFI_TYPE_STRUCT (ffi_elements wit_hfa), ffi_type_double, ffi_type_sint8]"

lemma xwit_types_ok:
  "\<forall>ty\<in>set xwit_types. ok_align (ffi_alignment ty)"
  "sum_list (map arg_room xwit_types) + 8 < 2 ^ 32"
  by (simp_all add: xwit_types_def ffi_basic_defs arg_room_def)

lemma xwit_eval:
  "case my_xx_fi_prep_cif (replicate 4 X86_64_NO_CLASS) 2 4 wit_struct xwit_args (Some (wit_fn 4)) of
     Inr (cif, Some fn) \<Rightarrow> xx_arg_types cif = xwit_types
       \<and> map arg_regs (fi_ainfo fn) = [[TE_RSI], [], [TE_XMM 0], [TE_RDX]]
       \<and> fi_bytes fn = 24 \<and> te_is_indirect (fi_rinfo fn)
   | _ \<Rightarrow> False"
  by code_simp

lemma xwit_lengths: "length xwit_args = 4" "fi_rinfo (wit_fn n) = zeroArgInfo"
  by (simp_all add: xwit_args_def wit_fn_def)

theorem xx_locations_disjoint_witness:
  "\<exists>cif fn. my_xx_fi_prep_cif (replicate 4 X86_64_NO_CLASS) 2 4 wit_struct xwit_args (Some (wit_fn 4)) = Inr (cif, Some fn)
    \<and> distinct (concat (map arg_regs (fi_ainfo fn))) \<and> 8 dvd unat (fi_bytes fn)
    \<and> map arg_regs (fi_ainfo fn) = [[TE_RSI], [], [TE_XMM 0], [TE_RDX]]"
proof -
  obtain cif fn where r: "my_xx_fi_prep_cif (replicate 4 X86_64_NO_CLASS) 2 (length xwit_args) wit_struct xwit_args (Some (wit_fn 4)) = Inr (cif, Some fn)"
    "xx_arg_types cif = xwit_types"
    "map arg_regs (fi_ainfo fn) = [[TE_RSI], [], [TE_XMM 0], [TE_RDX]]"
    using xwit_eval unfolding xwit_lengths by (rule wit_result) metis
  have "distinct (concat (map arg_regs (fi_ainfo fn)))" "8 dvd unat (fi_bytes fn)"
    using xx_locations_disjoint [OF r(1)] xwit_types_ok r(2) by (simp_all add: xwit_lengths wit_lengths)
  with r show ?thesis unfolding xwit_lengths by metis
qed

end
