(* ===== verification/Types_Parser.thy ===== *)
theory Types_Parser
  imports Aa_Cif Xx_Cif
begin

text \<open>
  \<open>tcg/abibridge/type-encoding/typesParser.c\<close>: from an Objective-C type encoding to the
  argument locations of both conventions.

  A pointer into a C string is the rest of its array from that position on, the terminating
  NUL included; the empty list is the position behind the array, and reading there is
  \<open>Undefined\<close>.  Memory for descriptors is not modelled: a descriptor is a tree, and freeing it
  at the end of \<open>handle\<close> has no effect on it.
\<close>

section \<open>Characters and strings\<close>

definition NUL :: char where "NUL = CHR 0x00"

definition smplType :: string where "smplType = ''cislqCISLQfdBv*#:?''"
definition aggrOpen :: string where "aggrOpen = ''{[(''"
definition qualifiers :: string where "qualifiers = ''rnNoORV''"

text \<open>\<open>strchr\<close> also finds the terminator of the string it searches.\<close>

definition strchr :: "string \<Rightarrow> char \<Rightarrow> bool" where
  "strchr s c \<longleftrightarrow> c \<in> set s \<or> c = NUL"

definition deref :: "string \<Rightarrow> char result" where
  "deref s = (case s of [] \<Rightarrow> Inl Undefined | c # _ \<Rightarrow> Inr c)"

text \<open>\<open>while (**str != c) ++*str; ++*str\<close>\<close>

fun skip_past :: "char \<Rightarrow> string \<Rightarrow> string result" where
  "skip_past c [] = Inl Undefined"
| "skip_past c (x # s) = (if x = c then Inr s else skip_past c s)"

definition is_space :: "char \<Rightarrow> bool" where
  "is_space c \<longleftrightarrow> c = CHR '' '' \<or> (9 \<le> (of_char c :: nat) \<and> (of_char c :: nat) \<le> 13)"

definition is_digit :: "char \<Rightarrow> bool" where
  "is_digit c \<longleftrightarrow> 48 \<le> (of_char c :: nat) \<and> (of_char c :: nat) \<le> 57"

definition digit_val :: "char \<Rightarrow> int" where
  "digit_val c = of_char c - 48"

text \<open>
  \<open>strtol(s, &s, 10)\<close> of the C library: white space, a sign, digits; the value is clamped to
  \<open>long\<close>, and without a digit the position stays.
\<close>

definition clamp_long :: "int \<Rightarrow> int" where
  "clamp_long v = max (- (2 ^ 63)) (min (2 ^ 63 - 1) v)"

definition strtol_sign :: "string \<Rightarrow> bool \<times> string" where
  "strtol_sign s =
     (case s of
        [] \<Rightarrow> (False, [])
      | c # r \<Rightarrow> if c = CHR ''-'' then (True, r) else if c = CHR ''+'' then (False, r) else (False, s))"

definition decimal :: "string \<Rightarrow> int" where
  "decimal ds = foldl (\<lambda>v d. 10 * v + digit_val d) 0 ds"

definition strtol :: "string \<Rightarrow> (int \<times> string) result" where
  "strtol s =
     (let (neg, s1) = strtol_sign (dropWhile is_space s);
          ds = takeWhile is_digit s1;
          s2 = dropWhile is_digit s1
      in if s2 = [] then Inl Undefined
         else if ds = [] then Inr (0, s)
         else Inr (clamp_long (if neg then - decimal ds else decimal ds), s2))"

section \<open>Skipping a type\<close>

definition closeBrace :: "char \<Rightarrow> char" where
  "closeBrace c = (if c = CHR ''{'' then CHR ''}'' else if c = CHR ''['' then CHR '']'' else CHR '')'')"

text \<open>The loop of \<open>moveFwdAggregate\<close>, with its eight-bit nesting counter.\<close>

fun moveFwdLoop :: "char \<Rightarrow> u8 \<Rightarrow> string \<Rightarrow> string result" where
  "moveFwdLoop openBrace left [] = (if left = 0 then Inr [] else Inl Undefined)"
| "moveFwdLoop openBrace left (c # s) =
     (if left = 0 then Inr (c # s)
      else moveFwdLoop openBrace
             (if c = openBrace then left + 1 else if c = closeBrace openBrace then left - 1 else left) s)"

definition moveFwdAggregate :: "string \<Rightarrow> char \<Rightarrow> string result" where
  "moveFwdAggregate s openBrace = moveFwdLoop openBrace 1 s"

text \<open>The part of both \<open>moveFwdAType\<close> and \<open>getType\<close> behind an \<open>@\<close>; the flag reports a block.\<close>

definition skip_object :: "string \<Rightarrow> (string \<times> bool) result" where
  "skip_object s =
     bindR (deref s) (\<lambda>c.
     if c = CHR 0x22 then bindR (skip_past (CHR 0x22) (tl s)) (\<lambda>s'. Inr (s', False))
     else if c = CHR ''?'' then
       bindR (deref (tl s)) (\<lambda>c'.
       if c' = CHR ''<'' then bindR (skip_past (CHR ''>'') (tl s)) (\<lambda>s'. Inr (s', True))
       else Inr (tl s, True))
     else Inr (s, False))"

fun moveFwdAType :: "string \<Rightarrow> string result" where
  "moveFwdAType [] = Inl Undefined"
| "moveFwdAType (c # s) =
     (if strchr smplType c then Inr s
      else if strchr aggrOpen c then moveFwdAggregate s c
      else if c = CHR ''^'' then moveFwdAType s
      else if strchr qualifiers c then moveFwdAType s
      else if c = CHR ''@'' then bindR (skip_object s) (\<lambda>(s', _). Inr s')
      else Inl Abort)"

section \<open>Parsing a type\<close>

definition simple_type :: "char \<Rightarrow> ffi_type option" where
  "simple_type c =
     (if c = CHR ''c'' then Some ffi_type_sint8
      else if c = CHR ''i'' then Some ffi_type_sint32
      else if c = CHR ''s'' then Some ffi_type_sint16
      else if c = CHR ''l'' then Some ffi_type_sint32
      else if c = CHR ''q'' then Some ffi_type_sint64
      else if c = CHR ''C'' then Some ffi_type_uint8
      else if c = CHR ''I'' then Some ffi_type_uint32
      else if c = CHR ''S'' then Some ffi_type_uint16
      else if c = CHR ''L'' then Some ffi_type_uint32
      else if c = CHR ''Q'' then Some ffi_type_uint64
      else if c = CHR ''f'' then Some ffi_type_float
      else if c = CHR ''d'' then Some ffi_type_double
      else if c = CHR ''B'' then Some ffi_type_uint8
      else if c = CHR ''v'' then Some ffi_type_void
      else if c = CHR ''*'' \<or> c = CHR ''#'' \<or> c = CHR '':'' then Some ffi_type_pointer
      else None)"

text \<open>
  The end of \<open>getArrayType\<close>: \<open>nelmt + 1\<close> pointers are allocated, in 32-bit arithmetic, and
  \<open>nelmt\<close> of them are written.
\<close>

definition array_type :: "u32 \<Rightarrow> ffi_type \<Rightarrow> ffi_type result" where
  "array_type nelmt elmt_ty =
     (if nelmt + 1 = 0 then Inl Undefined
      else Inr (Ffi 0 0 FFI_TYPE_STRUCT (Some (replicate (unat nelmt) elmt_ty))))"

text \<open>
  The end of \<open>getUnionType\<close>.  Its loop \<open>for (ffi_type *i = elmts[0]; i != NULL; ++i)\<close> steps
  through memory behind the first descriptor, so with at least one element it reads outside
  of an object in its second iteration.
\<close>

definition union_type :: "x86_64_reg_class list \<Rightarrow> ffi_type list \<Rightarrow> ffi_type result" where
  "union_type junk elmts =
     (case elmts of
        [] \<Rightarrow> Inr (Ffi 0 0 FFI_TYPE_STRUCT (Some [Ffi 0 0 FFI_TYPE_VOID None]))
      | e # _ \<Rightarrow>
          (case my_xx_fi_prep_cif junk XX_FI_UNIX64 0 e [] None of
             Inl Abort \<Rightarrow> Inl Abort
           | _ \<Rightarrow> Inl Undefined))"

text \<open>
  The parsers of the three kinds of aggregates, given the parser of an element and the loop
  \<open>while (**str != close)\<close> over the elements.
\<close>

definition getArrayType ::
  "(string \<Rightarrow> (ffi_type \<times> bool \<times> string) result) \<Rightarrow> bool \<Rightarrow> string \<Rightarrow> (ffi_type \<times> string) result" where
  "getArrayType elmt arrAsAggr s =
     (if \<not> arrAsAggr then
        bindR (moveFwdAggregate s (CHR ''['')) (\<lambda>s'. Inr (ffi_type_pointer, s'))
      else
        bindR (strtol s) (\<lambda>(v, s1).
        bindR (elmt s1) (\<lambda>(elmt_ty, _, s2).
        bindR (deref s2) (\<lambda>c.
        bindR (assertR (c = CHR '']'')) (\<lambda>_.
        bindR (array_type (of_int v) elmt_ty) (\<lambda>ty. Inr (ty, tl s2)))))))"

definition getStructType ::
  "(string \<Rightarrow> (ffi_type list \<times> string) result) \<Rightarrow> string \<Rightarrow> (ffi_type \<times> string) result" where
  "getStructType elements s =
     bindR (skip_past (CHR ''='') s) (\<lambda>s1.
     bindR (elements s1) (\<lambda>(elmts, s2). Inr (Ffi 0 0 FFI_TYPE_STRUCT (Some elmts), s2)))"

definition getUnionType ::
  "x86_64_reg_class list \<Rightarrow> (string \<Rightarrow> (ffi_type list \<times> string) result) \<Rightarrow> string
   \<Rightarrow> (ffi_type \<times> string) result" where
  "getUnionType junk elements s =
     bindR (skip_past (CHR ''='') s) (\<lambda>s1.
     bindR (elements s1) (\<lambda>(elmts, s2).
     bindR (union_type junk elmts) (\<lambda>ty. Inr (ty, s2))))"

lemmas aggregate_parsers = getArrayType_def getStructType_def getUnionType_def

text \<open>
  \<open>getType\<close> returns the type, whether \<open>*isBlockType\<close> was set, and the position behind it.
  \<open>getElements\<close> is the loop of structures and unions.  Every call and every iteration uses a
  unit of fuel.
\<close>

fun getType :: "nat \<Rightarrow> x86_64_reg_class list \<Rightarrow> bool \<Rightarrow> string \<Rightarrow> (ffi_type \<times> bool \<times> string) result"
  and getElements :: "nat \<Rightarrow> x86_64_reg_class list \<Rightarrow> char \<Rightarrow> string \<Rightarrow> (ffi_type list \<times> string) result"
where
  "getType 0 junk arrAsAggr s = Inl OutOfFuel"
| "getType (Suc n) junk arrAsAggr [] = Inl Undefined"
| "getType (Suc n) junk arrAsAggr (ch # s) =
     (case simple_type ch of
        Some ty \<Rightarrow> Inr (ty, False, s)
      | None \<Rightarrow>
          if ch = CHR ''@'' then bindR (skip_object s) (\<lambda>(s', blk). Inr (ffi_type_pointer, blk, s'))
          else if ch = CHR ''^'' then bindR (moveFwdAType s) (\<lambda>s'. Inr (ffi_type_pointer, False, s'))
          else if ch = CHR ''['' then
            bindR (getArrayType (\<lambda>s1. getType n junk True s1) arrAsAggr s) (\<lambda>(ty, s'). Inr (ty, False, s'))
          else if ch = CHR ''{'' then
            bindR (getStructType (\<lambda>s1. getElements n junk (CHR ''}'') s1) s) (\<lambda>(ty, s'). Inr (ty, False, s'))
          else if ch = CHR ''('' then
            bindR (getUnionType junk (\<lambda>s1. getElements n junk (CHR '')'') s1) s)
              (\<lambda>(ty, s'). Inr (ty, False, s'))
          else if ch \<in> set qualifiers then getType n junk arrAsAggr s
          else Inl Abort)"
| "getElements 0 junk close s = Inl OutOfFuel"
| "getElements (Suc n) junk close s =
     bindR (deref s) (\<lambda>c.
     if c = close then Inr ([], tl s)
     else
       bindR (getType n junk True s) (\<lambda>(ty, _, s1).
       bindR (getElements n junk close s1) (\<lambda>(tys, s2). Inr (ty # tys, s2))))"

section \<open>A whole signature\<close>

definition InvalidValue :: u32 where "InvalidValue = NOT 0"

text \<open>
  The loop over the arguments in \<open>handle\<close>: each type may be followed by a number, which is
  skipped.  A shift by 64 or more has no meaning in C.
\<close>

fun getArgs :: "nat \<Rightarrow> x86_64_reg_class list \<Rightarrow> nat \<Rightarrow> u64 \<Rightarrow> string \<Rightarrow> (ffi_type list \<times> u64) result" where
  "getArgs 0 junk arg_cnt blkMask s = Inl OutOfFuel"
| "getArgs (Suc n) junk arg_cnt blkMask s =
     bindR (deref s) (\<lambda>c.
     if c = NUL then Inr ([], blkMask)
     else
       bindR (getType n junk False s) (\<lambda>(ty, argIsBlock, s1).
       bindR (strtol s1) (\<lambda>(_, s2).
       if argIsBlock \<and> arg_cnt \<ge> 64 then Inl Undefined
       else
         bindR (getArgs n junk (arg_cnt + 1)
                  (if argIsBlock then blkMask OR push_bit arg_cnt 1 else blkMask) s2)
           (\<lambda>(tys, blkMask'). Inr (ty # tys, blkMask')))))"

text \<open>Fuel for a string: every call or iteration below another one starts further right.\<close>

definition parse_fuel :: "string \<Rightarrow> nat" where
  "parse_fuel s = 2 * length s + 2"

definition parse_signature ::
  "x86_64_reg_class list \<Rightarrow> string \<Rightarrow> (ffi_type \<times> ffi_type list \<times> u64) result" where
  "parse_signature junk types =
     bindR (getType (parse_fuel types) junk False types) (\<lambda>(rtype, retIsBlock, s1).
     bindR (strtol s1) (\<lambda>(_, s2).
     bindR (getArgs (parse_fuel types) junk 0 (if retIsBlock then push_bit 63 1 else 0) s2)
       (\<lambda>(atypes, blkMask). Inr (rtype, atypes, blkMask))))"

text \<open>\<open>FFI_OK\<close> or one of the two error codes of the preparation functions.\<close>

definition ffi_status :: "'a result \<Rightarrow> 'a option result" where
  "ffi_status r =
     (case r of
        Inr x \<Rightarrow> Inr (Some x)
      | Inl e \<Rightarrow> if e = BadTypedef \<or> e = BadAbi then Inr None else Inl e)"

text \<open>\<open>memset\<close> of the result to zero and the allocation of its argument array.\<close>

definition newFnInfo :: "nat \<Rightarrow> ABIFnInfo" where
  "newFnInfo nargs =
     \<lparr>fi_ainfo = replicate nargs zeroArgInfo, fi_rinfo = zeroArgInfo, fi_nargs = nargs,
      fi_bytes = 0, fi_ssecount = 0, fi_isCxxStructor = False, fi_variadic = False\<rparr>"

text \<open>The marking of block arguments; the loop shifts by every argument index.\<close>

definition mark_if :: "u64 \<Rightarrow> nat \<Rightarrow> ABIArgInfo \<Rightarrow> ABIArgInfo" where
  "mark_if blkMask i x = (if blkMask AND push_bit i 1 \<noteq> 0 then te_or_mask x TE_MASK_BLOCK else x)"

definition mark_blocks :: "u64 \<Rightarrow> ABIFnInfo \<Rightarrow> ABIFnInfo result" where
  "mark_blocks blkMask info =
     (if fi_nargs info > 64 then Inl Undefined
      else Inr (info\<lparr>fi_rinfo := mark_if blkMask 63 (fi_rinfo info),
                     fi_ainfo := map (\<lambda>(i, x). mark_if blkMask i x)
                                   (enumerate 0 (fi_ainfo info))\<rparr>))"

text \<open>
  The two halves of \<open>handle\<close>.  The outcome \<open>None\<close> stands for a status other than \<open>FFI_OK\<close>:
  the argument array has been freed and \<open>handle\<close> returns false.  The first half also leaves
  the descriptors initialised in place, and the second half gets them like that.
\<close>

definition handle_xx ::
  "x86_64_reg_class list \<Rightarrow> ffi_type \<Rightarrow> ffi_type list \<Rightarrow> u64
   \<Rightarrow> (ABIFnInfo \<times> ffi_type \<times> ffi_type list) option result" where
  "handle_xx junk rtype atypes blkMask =
     (let nargs = length atypes in
      bindR (ffi_status (my_xx_fi_prep_cif junk XX_FI_UNIX64 nargs rtype atypes
                           (Some (newFnInfo nargs)))) (\<lambda>r.
      case r of
        Some (cif, Some info) \<Rightarrow>
          bindR (mark_blocks blkMask info) (\<lambda>info'. Inr (Some (info', xx_rtype cif, xx_arg_types cif)))
      | _ \<Rightarrow> Inr None))"

definition handle_aa :: "ffi_type \<Rightarrow> ffi_type list \<Rightarrow> u64 \<Rightarrow> u32 \<Rightarrow> ABIFnInfo option result" where
  "handle_aa rtype atypes blkMask nfixed =
     (let nargs = length atypes; info0 = Some (newFnInfo nargs) in
      bindR (ffi_status
               (if nfixed \<noteq> InvalidValue
                then my_aa_fi_prep_cif_var AA_FI_SYSV (unat nfixed) nargs rtype atypes info0
                else my_aa_fi_prep_cif AA_FI_SYSV nargs rtype atypes info0)) (\<lambda>r.
      case r of
        Some (cif, Some info) \<Rightarrow> bindR (mark_blocks blkMask info) (\<lambda>info'. Inr (Some info'))
      | _ \<Rightarrow> Inr None))"

text \<open>
  \<open>handle\<close> with \<open>wantAa\<close> and \<open>wantXx\<close> for the two pointers not being NULL.  It returns its
  truth value and the contents of the two results; \<open>None\<close> is a result that was not asked for,
  was not reached, or whose array has been freed.
\<close>

definition handle ::
  "x86_64_reg_class list \<Rightarrow> string \<Rightarrow> bool \<Rightarrow> bool \<Rightarrow> u32
   \<Rightarrow> (bool \<times> ABIFnInfo option \<times> ABIFnInfo option) result" where
  "handle junk types wantAa wantXx nfixed =
     bindR (deref types) (\<lambda>c.
     if c = NUL then Inr (False, None, None)
     else
       bindR (parse_signature junk types) (\<lambda>(rtype, atypes, blkMask).
       bindR (if wantXx then handle_xx junk rtype atypes blkMask
              else Inr (Some (newFnInfo 0, rtype, atypes))) (\<lambda>xx.
       case xx of
         None \<Rightarrow> Inr (False, None, None)
       | Some (xxi, rtype', atypes') \<Rightarrow>
           let xxInfo = (if wantXx then Some xxi else None) in
           if \<not> wantAa then Inr (True, None, xxInfo)
           else
             bindR (handle_aa rtype' atypes' blkMask nfixed) (\<lambda>aa.
             Inr (aa \<noteq> None, aa, xxInfo)))))"

definition handleRet ::
  "x86_64_reg_class list \<Rightarrow> string \<Rightarrow> (bool \<times> ABIFnInfo option \<times> ABIFnInfo option) result" where
  "handleRet junk types =
     (let zero = newFnInfo 0 in
      bindR (deref types) (\<lambda>c.
      if c = NUL then Inr (False, Some zero, Some zero)
      else
        bindR (getType (parse_fuel types) junk False types) (\<lambda>(rtype, retIsBlock, _).
        let info = (if retIsBlock
                    then zero\<lparr>fi_rinfo := te_or_mask (fi_rinfo zero) TE_MASK_BLOCK\<rparr> else zero) in
        bindR (ffi_status (my_xx_fi_prep_cif junk XX_FI_UNIX64 0 rtype [] (Some info))) (\<lambda>xx.
        case xx of
          None \<Rightarrow> Inr (False, Some info, None)
        | Some (cif, xxInfo) \<Rightarrow>
            bindR (ffi_status (my_aa_fi_prep_cif AA_FI_SYSV 0 (xx_rtype cif) [] (Some info))) (\<lambda>aa.
            case aa of
              None \<Rightarrow> Inr (False, None, xxInfo)
            | Some (_, aaInfo) \<Rightarrow> Inr (True, aaInfo, xxInfo))))))"

section \<open>Entry points\<close>

fun getNumTypesLoop :: "nat \<Rightarrow> x86_64_reg_class list \<Rightarrow> string \<Rightarrow> nat result" where
  "getNumTypesLoop 0 junk s = Inl OutOfFuel"
| "getNumTypesLoop (Suc n) junk s =
     bindR (deref s) (\<lambda>c.
     if c = NUL then Inr 0
     else bindR (getType n junk False s) (\<lambda>(_, _, s1). bindR (getNumTypesLoop n junk s1) (\<lambda>k. Inr (k + 1))))"

definition getNumTypes :: "x86_64_reg_class list \<Rightarrow> string \<Rightarrow> nat result" where
  "getNumTypes junk types = getNumTypesLoop (parse_fuel types) junk types"

definition get_fn_info_from_types ::
  "x86_64_reg_class list \<Rightarrow> string \<Rightarrow> bool \<Rightarrow> bool
   \<Rightarrow> (bool \<times> ABIFnInfo option \<times> ABIFnInfo option) result" where
  "get_fn_info_from_types junk types wantAa wantXx = handle junk types wantAa wantXx InvalidValue"

definition get_vari_fn_info_from_types ::
  "x86_64_reg_class list \<Rightarrow> string \<Rightarrow> u32 \<Rightarrow> bool \<Rightarrow> bool
   \<Rightarrow> (bool \<times> ABIFnInfo option \<times> ABIFnInfo option) result" where
  "get_vari_fn_info_from_types junk types nfixed wantAa wantXx = handle junk types wantAa wantXx nfixed"

text \<open>
  \<open>parse_type_codes\<close> fills an array \<open>final_types\<close> of \<open>len + 1\<close> characters, and then hands its
  argument, not that array, to \<open>handle\<close>.  An array of length zero has no meaning in C.
\<close>

definition parse_type_codes ::
  "x86_64_reg_class list \<Rightarrow> string \<Rightarrow> u32 \<Rightarrow> bool \<Rightarrow> bool
   \<Rightarrow> (bool \<times> ABIFnInfo option \<times> ABIFnInfo option) result" where
  "parse_type_codes junk types nfixed wantAa wantXx =
     bindR (getNumTypes junk types) (\<lambda>nvari.
     let len = 1 + nfixed + of_nat nvari in
     if len + 1 = 0 then Inl Undefined
     else handle junk types wantAa wantXx nfixed)"

end
