(* ===== verification/Types_Fuel.thy ===== *)
theory Types_Fuel
  imports Types_Parser
begin

text \<open>
  Termination of \<open>typesParser.c\<close>: every call of its recursion and every iteration of its loops
  moves forward in the string, so the fuel of the model never runs out.
\<close>

section \<open>Every loop of the parser ends\<close>

lemma skip_past_length: "skip_past c s = Inr s' \<Longrightarrow> length s' < length s"
  by (induction c s rule: skip_past.induct) (auto split: if_splits)

lemma skip_past_fuel: "skip_past c s \<noteq> Inl OutOfFuel"
  by (induction c s rule: skip_past.induct) simp_all

lemma moveFwdLoop_length: "moveFwdLoop b left s = Inr s' \<Longrightarrow> length s' \<le> length s"
  by (induction b left s rule: moveFwdLoop.induct) (auto split: if_splits)

lemma moveFwdLoop_fuel: "moveFwdLoop b left s \<noteq> Inl OutOfFuel"
  by (induction b left s rule: moveFwdLoop.induct) simp_all

lemma deref_fuel: "deref s \<noteq> Inl OutOfFuel"
  by (simp add: deref_def split: list.splits)

lemma skip_object_length: "skip_object s = Inr (s', b) \<Longrightarrow> length s' \<le> length s"
  by (cases s) (auto simp: skip_object_def deref_def split: if_splits dest!: skip_past_length)

lemma skip_object_fuel: "skip_object s \<noteq> Inl OutOfFuel"
  by (auto simp: skip_object_def bindR_Inl_iff deref_fuel skip_past_fuel split: if_splits)

lemma moveFwdAType_length: "moveFwdAType s = Inr s' \<Longrightarrow> length s' < length s"
  by (induction s rule: moveFwdAType.induct)
    (auto simp: moveFwdAggregate_def split: if_splits dest!: moveFwdLoop_length skip_object_length)

lemma moveFwdAType_fuel: "moveFwdAType s \<noteq> Inl OutOfFuel"
  by (induction s rule: moveFwdAType.induct)
    (auto simp: moveFwdAggregate_def moveFwdLoop_fuel bindR_Inl_iff skip_object_fuel split: if_splits)

lemma strtol_sign_length: "length (snd (strtol_sign s)) \<le> length s"
  by (simp add: strtol_sign_def split: list.split)

lemma strtol_length:
  assumes "strtol s = Inr (v, s')"
  shows "length s' \<le> length s"
proof -
  let ?s1 = "snd (strtol_sign (dropWhile is_space s))"
  have "length (dropWhile is_digit ?s1) \<le> length ?s1" by (rule length_dropWhile_le)
  also have "\<dots> \<le> length (dropWhile is_space s)" by (rule strtol_sign_length)
  also have "\<dots> \<le> length s" by (rule length_dropWhile_le)
  finally show ?thesis
    using assms by (auto simp: strtol_def Let_def split_beta split: if_splits)
qed

lemma strtol_fuel: "strtol s \<noteq> Inl OutOfFuel"
  by (auto simp: strtol_def Let_def split: prod.splits)

lemma array_type_fuel: "array_type n t \<noteq> Inl OutOfFuel"
  by (simp add: array_type_def)

lemma union_type_fuel: "union_type junk es \<noteq> Inl OutOfFuel"
  by (auto simp: union_type_def split: list.splits sum.splits failure.splits)

lemma deref_Inr: "deref s = Inr c \<longleftrightarrow> (\<exists>r. s = c # r)"
  by (auto simp: deref_def split: list.splits)

lemma getType_Suc_Inr:
  assumes "getType (Suc n) junk a (ch # s) = Inr (ty, b, s')"
  obtains (simple) "simple_type ch = Some ty" "s' = s"
  | (object) "skip_object s = Inr (s', b)"
  | (pointer) "moveFwdAType s = Inr s'"
  | (arr_pointer) "moveFwdAggregate s (CHR ''['') = Inr s'"
  | (array) v s1 el b' where "strtol s = Inr (v, s1)" "getType n junk True s1 = Inr (el, b', CHR '']'' # s')"
  | (struct) s1 cl es where "skip_past (CHR ''='') s = Inr s1" "getElements n junk cl s1 = Inr (es, s')"
  | (qual) "getType n junk a s = Inr (ty, b, s')"
proof (cases "simple_type ch")
  case None
  note r = assms [unfolded getType.simps None option.case aggregate_parsers]
  consider "ch = CHR ''@''" | "ch = CHR ''^''" | "ch = CHR ''[''" "\<not> a" | "ch = CHR ''[''" a
    | "ch = CHR ''{''" | "ch = CHR ''(''"
    | "ch \<notin> set ''@^[{(''" "(if ch \<in> set qualifiers then getType n junk a s else Inl Abort) = Inr (ty, b, s')"
    using r by (cases "ch \<in> set ''@^[{(''") (simp, blast, simp)
  then show thesis
  proof cases
    case 1
    with r object show ?thesis by (auto simp: split_beta)
  next
    case 2
    with r pointer show ?thesis by auto
  next
    case 3
    with r arr_pointer show ?thesis by auto
  next
    case 4
    with r array show ?thesis by (auto simp: deref_Inr split_beta)
  next
    case 5
    with r struct show ?thesis by (auto simp: split_beta)
  next
    case 6
    with r struct show ?thesis by (auto simp: split_beta)
  next
    case 7
    with qual show ?thesis by (auto split: if_splits)
  qed
next
  case (Some t)
  with assms that(1) show thesis by simp
qed

lemma getType_length:
  "(\<forall>junk a s ty b s'. getType n junk a s = Inr (ty, b, s') \<longrightarrow> length s' < length s)
   \<and> (\<forall>junk cl s tys s'. getElements n junk cl s = Inr (tys, s') \<longrightarrow> length s' < length s)"
proof (induction n)
  case (Suc n)
  have ty: "length s' < length s" if r: "getType (Suc n) junk a s = Inr (ty, b, s')" for junk a s ty b s'
  proof (cases s)
    case (Cons ch t)
    from r [unfolded Cons] have "length s' \<le> length t"
    proof (cases rule: getType_Suc_Inr)
      case (array v s1 el b')
      then show ?thesis using Suc.IH strtol_length [OF array(1)] by fastforce
    next
      case (struct s1 cl es)
      then show ?thesis using Suc.IH skip_past_length [OF struct(1)] by fastforce
    qed (use Suc.IH in \<open>auto simp: moveFwdAggregate_def
        dest: skip_object_length moveFwdAType_length moveFwdLoop_length intro: less_imp_le\<close>)
    with Cons show ?thesis by simp
  qed (use r in simp)
  moreover have "length s' < length s" if r: "getElements (Suc n) junk cl s = Inr (tys, s')" for junk cl s tys s'
    using r Suc.IH by (fastforce simp: deref_Inr split: if_splits)
  ultimately show ?case by blast
qed simp

lemmas getType_shorter = getType_length [THEN conjunct1, rule_format]
lemmas getElements_shorter = getType_length [THEN conjunct2, rule_format]

lemma getType_Suc_fuel:
  assumes "getType (Suc n) junk a (ch # s) = Inl OutOfFuel"
  obtains (array) v s1 where "strtol s = Inr (v, s1)" "getType n junk True s1 = Inl OutOfFuel"
  | (struct) s1 cl where "skip_past (CHR ''='') s = Inr s1" "getElements n junk cl s1 = Inl OutOfFuel"
  | (qual) "getType n junk a s = Inl OutOfFuel"
proof (cases "simple_type ch")
  case None
  note r = assms [unfolded getType.simps None option.case aggregate_parsers]
  note nofuel = skip_object_fuel moveFwdAType_fuel moveFwdLoop_fuel moveFwdAggregate_def strtol_fuel
    skip_past_fuel union_type_fuel array_type_fuel deref_fuel assertR_def bindR_Inl_iff split_beta
  consider "ch = CHR ''@''" | "ch = CHR ''^''" | "ch = CHR ''[''" | "ch = CHR ''{''" | "ch = CHR ''(''"
    | "(if ch \<in> set qualifiers then getType n junk a s else Inl Abort) = Inl OutOfFuel"
    using r by (cases "ch \<in> set ''@^[{(''") (simp, blast, simp)
  then show thesis
  proof cases
    case 3
    with r array show ?thesis by (auto simp: nofuel split: if_splits)
  next
    case 4
    with r struct show ?thesis by (auto simp: nofuel split: if_splits)
  next
    case 5
    with r struct show ?thesis by (auto simp: nofuel split: if_splits)
  next
    case 6
    with qual show ?thesis by (auto split: if_splits)
  qed (use r in \<open>auto simp: nofuel\<close>)
next
  case (Some t)
  with assms show thesis by simp
qed

lemma getType_fuel:
  "(\<forall>junk a s. 2 * length s < n \<longrightarrow> getType n junk a s \<noteq> Inl OutOfFuel)
   \<and> (\<forall>junk cl s. 2 * length s + 1 < n \<longrightarrow> getElements n junk cl s \<noteq> Inl OutOfFuel)"
proof (induction n)
  case (Suc n)
  have ty: False if r: "getType (Suc n) junk a s = Inl OutOfFuel" and l: "2 * length s < Suc n" for junk a s
  proof (cases s)
    case (Cons ch t)
    from r [unfolded Cons] show False
    proof (cases rule: getType_Suc_fuel)
      case (array v s1)
      then show False using Suc.IH strtol_length [OF array(1)] l Cons by fastforce
    next
      case (struct s1 cl)
      moreover have "2 * length s1 + 1 < n" using skip_past_length [OF struct(1)] l Cons by simp
      ultimately show False using Suc.IH by blast
    next
      case qual
      then show False using Suc.IH l Cons by fastforce
    qed
  qed (use r in simp)
  have "getElements (Suc n) junk cl s \<noteq> Inl OutOfFuel" if l: "2 * length s + 1 < Suc n" for junk cl s
  proof
    assume "getElements (Suc n) junk cl s = Inl OutOfFuel"
    then consider "getType n junk True s = Inl OutOfFuel"
      | ty b s1 where "getType n junk True s = Inr (ty, b, s1)" "getElements n junk cl s1 = Inl OutOfFuel"
      by (fastforce simp: bindR_Inl_iff deref_fuel split: if_splits)
    then show False
    proof cases
      case 1
      then show ?thesis using Suc.IH l by fastforce
    next
      case 2
      then show ?thesis using Suc.IH l getType_shorter [OF 2(1)] by fastforce
    qed
  qed
  with ty show ?case by blast
qed simp

lemma getArgs_fuel:
  "2 * length s + 1 < n \<Longrightarrow> getArgs n junk k m s \<noteq> Inl OutOfFuel"
proof (induction n arbitrary: k m s)
  case (Suc n)
  show ?case
  proof
    assume "getArgs (Suc n) junk k m s = Inl OutOfFuel"
    then consider "getType n junk False s = Inl OutOfFuel"
      | ty b s1 v s2 k' m' where "getType n junk False s = Inr (ty, b, s1)" "strtol s1 = Inr (v, s2)"
          "getArgs n junk k' m' s2 = Inl OutOfFuel"
      by (fastforce simp: bindR_Inl_iff deref_fuel strtol_fuel split: if_splits)
    then show False
    proof cases
      case 1
      then show ?thesis using getType_fuel Suc.prems by fastforce
    next
      case 2
      then show ?thesis
        using Suc.IH [of s2] Suc.prems getType_shorter [OF 2(1)] strtol_length [OF 2(2)] by fastforce
    qed
  qed
qed simp

lemma getNumTypesLoop_fuel:
  "2 * length s + 1 < n \<Longrightarrow> getNumTypesLoop n junk s \<noteq> Inl OutOfFuel"
proof (induction n arbitrary: s)
  case (Suc n)
  show ?case
  proof
    assume "getNumTypesLoop (Suc n) junk s = Inl OutOfFuel"
    then consider "getType n junk False s = Inl OutOfFuel"
      | ty b s1 where "getType n junk False s = Inr (ty, b, s1)" "getNumTypesLoop n junk s1 = Inl OutOfFuel"
      by (fastforce simp: bindR_Inl_iff deref_fuel split: if_splits)
    then show False
    proof cases
      case 1
      then show ?thesis using getType_fuel Suc.prems by fastforce
    next
      case 2
      then show ?thesis using Suc.IH [of s1] Suc.prems getType_shorter [OF 2(1)] by fastforce
    qed
  qed
qed simp

text \<open>C11. The parser of type encodings terminates on every string, well formed or not: the fuel
  that \<open>handle\<close>, \<open>handleRet\<close> and \<open>getNumTypes\<close> give to the loops and to the recursion of
  \<open>getType\<close> never runs out.\<close>

theorem types_parser_terminates:
  "parse_signature junk types \<noteq> Inl OutOfFuel
   \<and> getType (parse_fuel types) junk arrAsAggr types \<noteq> Inl OutOfFuel
   \<and> getNumTypes junk types \<noteq> Inl OutOfFuel"
proof -
  have ty: "getType (parse_fuel types) junk a types \<noteq> Inl OutOfFuel" for a
    using getType_fuel by (simp add: parse_fuel_def)
  have "getArgs (parse_fuel types) junk 0 m s2 \<noteq> Inl OutOfFuel"
    if "getType (parse_fuel types) junk False types = Inr (ty, b, s1)" "strtol s1 = Inr (v, s2)" for ty b s1 v s2 m
    using getType_shorter [OF that(1)] strtol_length [OF that(2)]
    by (intro getArgs_fuel) (simp add: parse_fuel_def)
  then have "parse_signature junk types \<noteq> Inl OutOfFuel"
    by (fastforce simp: parse_signature_def bindR_Inl_iff ty strtol_fuel split: prod.splits)
  moreover have "getNumTypes junk types \<noteq> Inl OutOfFuel"
    unfolding getNumTypes_def by (rule getNumTypesLoop_fuel) (simp add: parse_fuel_def)
  ultimately show ?thesis using ty by blast
qed

end
