(* ===== verification/Types_Roundtrip.thy ===== *)
theory Types_Roundtrip
  imports Types_Fuel
begin

text \<open>
  Encodings of Objective-C types and signatures, and the proof that \<open>typesParser.c\<close> reads back
  what was printed.  \<open>moveFwdAType\<close>, which skips a type, and \<open>getType\<close>, which parses it, end at the
  same position.
\<close>

section \<open>Encodings\<close>

text \<open>
  The types that the Objective-C run time encodes and that the bridge accepts, with the
  encoding as \<open>@encode\<close> prints it.  Unions are left out: \<open>getUnionType\<close> has no meaning on a
  union with a member.
\<close>

datatype oty =
  Simple char
| Object "string option"
| Block "string option"
| Ptr oty
| UnknownPtr
| Arr nat oty
| Struct string "oty list"
| Qual char oty

fun dec :: "nat \<Rightarrow> string" where
  "dec n = (if n < 10 then [char_of (48 + n)] else dec (n div 10) @ [char_of (48 + n mod 10)])"

declare dec.simps [simp del]

fun encode :: "oty \<Rightarrow> string" where
  "encode (Simple c) = [c]"
| "encode (Object nm) = (case nm of None \<Rightarrow> ''@'' | Some s \<Rightarrow> ''@'' @ [CHR 0x22] @ s @ [CHR 0x22])"
| "encode (Block sg) = (case sg of None \<Rightarrow> ''@?'' | Some s \<Rightarrow> ''@?<'' @ s @ ''>'')"
| "encode (Ptr t) = CHR ''^'' # encode t"
| "encode UnknownPtr = ''^?''"
| "encode (Arr n t) = ''['' @ dec n @ encode t @ '']''"
| "encode (Struct nm ts) = ''{'' @ nm @ ''='' @ concat (map encode ts) @ ''}''"
| "encode (Qual q t) = q # encode t"

fun type_of :: "bool \<Rightarrow> oty \<Rightarrow> ffi_type" where
  "type_of aggr (Simple c) = (case simple_type c of Some t \<Rightarrow> t | None \<Rightarrow> ffi_type_void)"
| "type_of aggr (Arr n t) =
     (if aggr then Ffi 0 0 FFI_TYPE_STRUCT (Some (replicate n (type_of True t))) else ffi_type_pointer)"
| "type_of aggr (Struct nm ts) = Ffi 0 0 FFI_TYPE_STRUCT (Some (map (type_of True) ts))"
| "type_of aggr (Qual q t) = type_of aggr t"
| "type_of aggr _ = ffi_type_pointer"

fun is_block :: "oty \<Rightarrow> bool" where
  "is_block (Block sg) = True"
| "is_block (Qual q t) = is_block t"
| "is_block _ = False"

definition brace_free :: "string \<Rightarrow> bool" where
  "brace_free s \<longleftrightarrow> (\<forall>c\<in>set ''{}[]()''. c \<notin> set s)"

fun wf_oty :: "oty \<Rightarrow> bool" where
  "wf_oty (Simple c) \<longleftrightarrow> simple_type c \<noteq> None"
| "wf_oty (Object nm) \<longleftrightarrow> (case nm of None \<Rightarrow> True | Some s \<Rightarrow> CHR 0x22 \<notin> set s \<and> brace_free s)"
| "wf_oty (Block sg) \<longleftrightarrow> (case sg of None \<Rightarrow> True | Some s \<Rightarrow> CHR ''>'' \<notin> set s \<and> brace_free s)"
| "wf_oty (Ptr t) \<longleftrightarrow> wf_oty t"
| "wf_oty UnknownPtr \<longleftrightarrow> True"
| "wf_oty (Arr n t) \<longleftrightarrow> n < 2 ^ 32 - 1 \<and> wf_oty t"
| "wf_oty (Struct nm ts) \<longleftrightarrow> CHR ''='' \<notin> set nm \<and> brace_free nm \<and> list_all wf_oty ts"
| "wf_oty (Qual q t) \<longleftrightarrow> q \<in> set qualifiers \<and> wf_oty t"

text \<open>Nesting of braces; the counter of \<open>moveFwdAggregate\<close> has eight bits.\<close>

fun nesting :: "oty \<Rightarrow> nat" where
  "nesting (Ptr t) = nesting t"
| "nesting (Arr n t) = Suc (nesting t)"
| "nesting (Struct nm ts) = Suc (foldr max (map nesting ts) 0)"
| "nesting (Qual q t) = nesting t"
| "nesting _ = 0"

text \<open>What may follow a type: not one of the characters that would extend an object type.\<close>

definition ok_rest :: "string \<Rightarrow> bool" where
  "ok_rest s \<longleftrightarrow> s \<noteq> [] \<and> hd s \<noteq> CHR 0x22 \<and> hd s \<noteq> CHR ''?'' \<and> hd s \<noteq> CHR ''<''"

section \<open>Skipping an encoding\<close>

lemma brace_free_simps [simp]:
  "brace_free []"
  "brace_free (c # s) \<longleftrightarrow> c \<notin> set ''{}[]()'' \<and> brace_free s"
  "brace_free (s @ s') \<longleftrightarrow> brace_free s \<and> brace_free s'"
  by (auto simp: brace_free_def)

definition open_brace :: "char \<Rightarrow> bool" where
  "open_brace b \<longleftrightarrow> b = CHR ''{'' \<or> b = CHR ''['' \<or> b = CHR ''(''"

lemma moveFwdLoop_0 [simp]: "moveFwdLoop b 0 s = Inr s"
  by (cases s) simp_all

lemma moveFwdLoop_other:
  assumes "open_brace b" "left \<noteq> 0" "c \<notin> set ''{}[]()''"
  shows "moveFwdLoop b left (c # s) = moveFwdLoop b left s"
  using assms by (auto simp: open_brace_def closeBrace_def)

lemma moveFwdLoop_brace_free:
  "open_brace b \<Longrightarrow> left \<noteq> 0 \<Longrightarrow> brace_free p \<Longrightarrow> moveFwdLoop b left (p @ s) = moveFwdLoop b left s"
proof (induction p)
  case (Cons c p)
  then show ?case using moveFwdLoop_other [of b left c "p @ s"] by simp
qed simp

lemma is_digit_char_of: "(d :: nat) < 10 \<Longrightarrow> is_digit (char_of (48 + d))"
  by (simp add: is_digit_def)

lemma digit_brace_free: "is_digit c \<Longrightarrow> c \<notin> set ''{}[]()''"
  by (auto simp: is_digit_def)

lemma dec_digits: "list_all is_digit (dec n)"
proof (induction n rule: dec.induct)
  case (1 n)
  have "n mod 10 < 10" by simp
  with 1 show ?case by (subst dec.simps) (auto simp: is_digit_char_of)
qed

lemma dec_nonempty: "dec n \<noteq> []"
  by (subst dec.simps) simp

lemma dec_brace_free: "brace_free (dec n)"
proof -
  have "list_all is_digit s \<Longrightarrow> brace_free s" for s
  proof (induction s)
    case (Cons c s)
    then show ?case using digit_brace_free [of c] by simp
  qed simp
  with dec_digits show ?thesis by blast
qed

lemma simple_brace_free: "simple_type c \<noteq> None \<Longrightarrow> c \<notin> set ''{}[]()''"
  by (auto simp: simple_type_def)

lemma qualifier_brace_free: "c \<in> set qualifiers \<Longrightarrow> c \<notin> set ''{}[]()''"
  by (auto simp: qualifiers_def)

lemma unat_inc:
  fixes w :: u8
  assumes "unat w < 255"
  shows "unat (w + 1) = unat w + 1" "w + 1 \<noteq> 0" "w + 1 - 1 = w"
proof -
  show "unat (w + 1) = unat w + 1"
    using assms unat_add_lem [of w 1] by simp
  then show "w + 1 \<noteq> 0" by auto
qed simp

lemma moveFwdLoop_braces:
  assumes b: "open_brace b" and ob: "open_brace o'" and l: "left \<noteq> 0" "unat left < 255"
    and body: "\<And>left' r. left' \<noteq> 0 \<Longrightarrow> unat left' \<le> unat left + 1 \<Longrightarrow> moveFwdLoop b left' (p @ r) = moveFwdLoop b left' r"
  shows "moveFwdLoop b left (o' # p @ closeBrace o' # s) = moveFwdLoop b left s"
proof (cases "o' = b")
  case True
  moreover have "closeBrace b \<noteq> b" using b by (auto simp: open_brace_def closeBrace_def)
  ultimately show ?thesis using body [of "left + 1"] unat_inc [OF l(2)] l by simp
next
  case False
  with b ob have "o' \<noteq> closeBrace b" "closeBrace o' \<noteq> b" "closeBrace o' \<noteq> closeBrace b"
    by (auto simp: open_brace_def closeBrace_def)
  then show ?thesis using False body [of left] l by simp
qed

lemma nesting_member: "t \<in> set ts \<Longrightarrow> nesting t \<le> foldr max (map nesting ts) 0"
  by (induction ts) (auto intro: le_max_iff_disj [THEN iffD2])

lemma moveFwdLoop_concat:
  assumes "\<And>t r. t \<in> set ts \<Longrightarrow> moveFwdLoop b left (f t @ r) = moveFwdLoop b left r"
  shows "moveFwdLoop b left (concat (map f ts) @ s) = moveFwdLoop b left s"
  using assms by (induction ts) simp_all

lemma moveFwdLoop_encode:
  "wf_oty t \<Longrightarrow> open_brace b \<Longrightarrow> left \<noteq> 0 \<Longrightarrow> unat left + nesting t \<le> 255 \<Longrightarrow>
   moveFwdLoop b left (encode t @ s) = moveFwdLoop b left s"
proof (induction t arbitrary: left s)
  case (Simple c)
  then show ?case using simple_brace_free [of c] by (intro moveFwdLoop_brace_free) auto
next
  case (Object nm)
  then show ?case by (intro moveFwdLoop_brace_free) (auto split: option.splits)
next
  case (Block sg)
  then show ?case by (intro moveFwdLoop_brace_free) (auto split: option.splits)
next
  case (Ptr t)
  then show ?case using moveFwdLoop_brace_free [of b left "''^''" "encode t @ s"] by simp
next
  case UnknownPtr
  then show ?case by (intro moveFwdLoop_brace_free) auto
next
  case (Arr n t)
  have "moveFwdLoop b left (CHR ''['' # (dec n @ encode t) @ closeBrace (CHR ''['') # s) = moveFwdLoop b left s"
  proof (rule moveFwdLoop_braces)
    fix left' :: u8 and r
    assume "left' \<noteq> 0" "unat left' \<le> unat left + 1"
    then show "moveFwdLoop b left' ((dec n @ encode t) @ r) = moveFwdLoop b left' r"
      using Arr moveFwdLoop_brace_free [OF Arr.prems(2) _ dec_brace_free] by simp
  qed (use Arr.prems in \<open>auto simp: open_brace_def\<close>)
  then show ?case by (simp add: closeBrace_def)
next
  case (Struct nm ts)
  have "moveFwdLoop b left (CHR ''{'' # (nm @ ''='' @ concat (map encode ts)) @ closeBrace (CHR ''{'') # s)
      = moveFwdLoop b left s"
  proof (rule moveFwdLoop_braces)
    fix left' :: u8 and r
    assume l: "left' \<noteq> 0" "unat left' \<le> unat left + 1"
    have "moveFwdLoop b left' (encode t @ r) = moveFwdLoop b left' r" if "t \<in> set ts" for t r
      using that Struct nesting_member [OF that] l by (auto simp: list_all_iff)
    then have "moveFwdLoop b left' (concat (map encode ts) @ r) = moveFwdLoop b left' r"
      by (rule moveFwdLoop_concat)
    then show "moveFwdLoop b left' ((nm @ ''='' @ concat (map encode ts)) @ r) = moveFwdLoop b left' r"
      using moveFwdLoop_brace_free [OF Struct.prems(2) l(1), of "nm @ ''=''"] Struct.prems by simp
  qed (use Struct.prems in \<open>auto simp: open_brace_def\<close>)
  then show ?case by (simp add: closeBrace_def)
next
  case (Qual q t)
  then show ?case
    using moveFwdLoop_brace_free [of b left "[q]" "encode t @ s"] qualifier_brace_free [of q] by simp
qed

section \<open>Numbers\<close>

lemma decimal_snoc: "decimal (ds @ [d]) = 10 * decimal ds + digit_val d"
  by (simp add: decimal_def)

lemma digit_val_char_of:
  assumes "d < 10"
  shows "digit_val (char_of (48 + d)) = int d"
proof -
  have "(of_char (char_of (48 + d) :: char) :: int) = int (of_char (char_of (48 + d) :: char))"
    by (rule of_nat_of_char [symmetric])
  also have "\<dots> = int ((48 + d) mod 256)"
    by (simp only: of_char_of)
  also have "\<dots> = 48 + int d" using assms by simp
  finally show ?thesis by (simp add: digit_val_def)
qed

lemma decimal_dec: "decimal (dec n) = int n"
proof (induction n rule: dec.induct)
  case (1 n)
  show ?case
  proof (cases "n < 10")
    case True
    then show ?thesis
      by (subst dec.simps) (simp add: decimal_def digit_val_char_of)
  next
    case False
    then have "decimal (dec n) = 10 * int (n div 10) + int (n mod 10)"
      using 1 by (subst dec.simps) (simp add: decimal_snoc digit_val_char_of)
    then show ?thesis by presburger
  qed
qed

lemma digit_not_space: "is_digit c \<Longrightarrow> \<not> is_space c \<and> c \<noteq> CHR ''-'' \<and> c \<noteq> CHR ''+''"
  by (auto simp: is_digit_def is_space_def)

lemma strtol_dec:
  assumes "\<not> is_digit c"
  shows "strtol (dec n @ c # s) = Inr (clamp_long (int n), c # s)"
proof -
  obtain d ds where d: "dec n = d # ds" using dec_nonempty [of n] by (cases "dec n") auto
  then have dd: "is_digit d" using dec_digits [of n] by simp
  have sign: "strtol_sign (dropWhile is_space (dec n @ c # s)) = (False, dec n @ c # s)"
    using digit_not_space [OF dd] by (simp add: d strtol_sign_def)
  have tw: "takeWhile is_digit (dec n @ c # s) = dec n" "dropWhile is_digit (dec n @ c # s) = c # s"
    using dec_digits [of n] assms by (simp_all add: list_all_iff)
  show ?thesis
    unfolding strtol_def sign Let_def tw prod.case
    using dec_nonempty [of n] by (simp add: decimal_dec)
qed

lemma strtol_none:
  assumes "\<not> is_digit c" "\<not> is_space c" "c \<noteq> CHR ''-''" "c \<noteq> CHR ''+''"
  shows "strtol (c # s) = Inr (0, c # s)"
  using assms by (simp add: strtol_def strtol_sign_def)

section \<open>Parsing an encoding\<close>

definition type_start :: "char \<Rightarrow> bool" where
  "type_start c \<longleftrightarrow> c \<in> set ''cislqCISLQfdBv*#:@^[{rnNoORV''"

lemma simple_type_start: "simple_type c \<noteq> None \<Longrightarrow> type_start c"
  by (auto simp: simple_type_def type_start_def)

lemma qualifier_start: "c \<in> set qualifiers \<Longrightarrow> type_start c"
  by (auto simp: qualifiers_def type_start_def)

lemma encode_start: "wf_oty t \<Longrightarrow> \<exists>c s. encode t = c # s \<and> type_start c"
  using simple_type_start qualifier_start
  by (cases t) (auto simp: type_start_def split: option.splits)

lemma type_start_neutral:
  "type_start c \<Longrightarrow> \<not> is_digit c \<and> \<not> is_space c \<and> c \<noteq> CHR ''-'' \<and> c \<noteq> CHR ''+''
     \<and> c \<noteq> CHR 0x22 \<and> c \<noteq> CHR ''?'' \<and> c \<noteq> CHR ''<'' \<and> c \<noteq> CHR ''}'' \<and> c \<noteq> NUL"
  by (auto simp: type_start_def is_digit_def is_space_def NUL_def)

lemma ok_rest_encode: "wf_oty t \<Longrightarrow> ok_rest (encode t @ s)"
  using encode_start [of t] type_start_neutral by (auto simp: ok_rest_def)

lemma skip_past_append: "c \<notin> set p \<Longrightarrow> skip_past c (p @ c # s) = Inr s"
  by (induction p) auto

lemma skip_object_encode:
  "wf_oty (Object nm) \<Longrightarrow> ok_rest rest \<Longrightarrow> skip_object (tl (encode (Object nm)) @ rest) = Inr (rest, False)"
  by (cases rest) (auto simp: skip_object_def deref_def ok_rest_def skip_past_append split: option.splits)

lemma skip_block_encode:
  "wf_oty (Block sg) \<Longrightarrow> ok_rest rest \<Longrightarrow> skip_object (tl (encode (Block sg)) @ rest) = Inr (rest, True)"
  by (cases rest) (auto simp: skip_object_def deref_def ok_rest_def skip_past_append split: option.splits)

lemma moveFwdAggregate_encode:
  assumes "wf_oty t" "t = Arr n u \<or> t = Struct nm ts" "nesting t \<le> 255"
  shows "moveFwdAggregate (tl (encode t) @ rest) (hd (encode t)) = Inr rest"
proof -
  have "moveFwdLoop b 1 (p @ closeBrace b # rest) = Inr rest"
    if "\<And>r. moveFwdLoop b 1 (p @ r) = moveFwdLoop b 1 r" "open_brace b" for b p
    using that by (auto simp: open_brace_def closeBrace_def)
  note loop = this
  from assms(2) show ?thesis
  proof
    assume t: "t = Arr n u"
    have "moveFwdLoop (CHR ''['') 1 ((dec n @ encode u) @ r) = moveFwdLoop (CHR ''['') 1 r" for r
      using assms moveFwdLoop_brace_free [OF _ _ dec_brace_free] moveFwdLoop_encode [of u]
      by (simp add: t open_brace_def)
    from loop [OF this] show ?thesis
      by (simp add: t moveFwdAggregate_def open_brace_def closeBrace_def)
  next
    assume t: "t = Struct nm ts"
    have "moveFwdLoop (CHR ''{'') 1 (encode u @ r) = moveFwdLoop (CHR ''{'') 1 r" if "u \<in> set ts" for u r
      using assms that nesting_member [OF that] moveFwdLoop_encode [of u]
      by (auto simp: t open_brace_def list_all_iff)
    then have "moveFwdLoop (CHR ''{'') 1 (concat (map encode ts) @ r) = moveFwdLoop (CHR ''{'') 1 r" for r
      by (rule moveFwdLoop_concat)
    then have "moveFwdLoop (CHR ''{'') 1 ((nm @ ''='' @ concat (map encode ts)) @ r) = moveFwdLoop (CHR ''{'') 1 r" for r
      using assms moveFwdLoop_brace_free [of "CHR ''{''" 1 "nm @ ''=''"] by (simp add: t open_brace_def)
    from loop [OF this] show ?thesis
      by (simp add: t moveFwdAggregate_def open_brace_def closeBrace_def)
  qed
qed

lemma simple_type_smpl: "simple_type c \<noteq> None \<Longrightarrow> c \<in> set smplType"
  by (erule contrapos_np) (simp add: simple_type_def smplType_def)

lemma qualifier_not_smpl:
  assumes "c \<in> set qualifiers"
  shows "\<not> strchr smplType c" "\<not> strchr aggrOpen c" "c \<noteq> CHR ''^''" "strchr qualifiers c"
    "simple_type c = None" "c \<notin> set ''@^[{(''"
proof -
  have "c = CHR ''r'' \<or> c = CHR ''n'' \<or> c = CHR ''N'' \<or> c = CHR ''o'' \<or> c = CHR ''O'' \<or> c = CHR ''R'' \<or> c = CHR ''V''"
    using assms by (simp add: qualifiers_def)
  then show "\<not> strchr smplType c" "\<not> strchr aggrOpen c" "c \<noteq> CHR ''^''" "c \<notin> set ''@^[{(''"
    by (elim disjE; simp add: strchr_def smplType_def aggrOpen_def NUL_def)+
  then show "simple_type c = None"
    using simple_type_smpl [of c] by (cases "simple_type c") (simp_all add: strchr_def)
qed (use assms in \<open>simp add: strchr_def\<close>)

lemma moveFwdAType_encode:
  "wf_oty t \<Longrightarrow> nesting t \<le> 255 \<Longrightarrow> ok_rest rest \<Longrightarrow> moveFwdAType (encode t @ rest) = Inr rest"
proof (induction t)
  case (Simple c)
  then show ?case using simple_type_smpl [of c] by (simp add: strchr_def)
next
  case (Object nm)
  then show ?case using skip_object_encode [OF Object.prems(1,3)]
    by (cases nm) (simp_all add: strchr_def smplType_def aggrOpen_def qualifiers_def NUL_def)
next
  case (Block sg)
  then show ?case using skip_block_encode [OF Block.prems(1,3)]
    by (cases sg) (simp_all add: strchr_def smplType_def aggrOpen_def qualifiers_def NUL_def)
next
  case (Ptr t)
  then show ?case by (simp add: strchr_def smplType_def aggrOpen_def NUL_def)
next
  case UnknownPtr
  then show ?case by (simp add: strchr_def smplType_def aggrOpen_def NUL_def)
next
  case (Arr n t)
  then show ?case using moveFwdAggregate_encode [of "Arr n t" n t]
    by (simp add: strchr_def smplType_def aggrOpen_def NUL_def)
next
  case (Struct nm ts)
  then show ?case using moveFwdAggregate_encode [of "Struct nm ts" _ _ nm ts]
    by (simp add: strchr_def smplType_def aggrOpen_def NUL_def)
next
  case (Qual q t)
  then show ?case using qualifier_not_smpl [of q] by simp
qed

lemma simple_type_none [simp]:
  "simple_type (CHR ''@'') = None" "simple_type (CHR ''^'') = None" "simple_type (CHR ''['') = None"
  "simple_type (CHR ''{'') = None"
  by (simp_all add: simple_type_def)

text \<open>A unit of fuel per character is enough for types, and one more per element list.\<close>

lemma getElements_encode:
  assumes "\<And>t m rest. t \<in> set ts \<Longrightarrow> 2 * length (encode t) \<le> m \<Longrightarrow> ok_rest rest \<Longrightarrow>
      getType m junk True (encode t @ rest) = Inr (type_of True t, is_block t, rest)"
    and "\<forall>t\<in>set ts. wf_oty t" and "2 * length (concat (map encode ts)) + 1 \<le> n"
  shows "getElements n junk (CHR ''}'') (concat (map encode ts) @ CHR ''}'' # rest)
    = Inr (map (type_of True) ts, rest)"
  using assms
proof (induction ts arbitrary: n)
  case Nil
  then show ?case by (cases n) (simp_all add: deref_def)
next
  case (Cons t ts)
  have wf: "wf_oty t" "\<forall>u\<in>set ts. wf_oty u" using Cons.prems(2) by simp_all
  obtain c s where c: "encode t = c # s" "type_start c" using encode_start [OF wf(1)] by blast
  obtain m where m: "n = Suc m" using Cons.prems(3) by (cases n) simp_all
  let ?rest = "concat (map encode ts) @ CHR ''}'' # rest"
  have ok: "ok_rest ?rest"
    using ok_rest_encode wf(2) by (cases ts) (simp_all add: ok_rest_def)
  have len: "2 * length (encode t) \<le> m" "2 * length (concat (map encode ts)) + 1 \<le> m"
    using Cons.prems(3) c m by simp_all
  have "getType m junk True (encode t @ ?rest) = Inr (type_of True t, is_block t, ?rest)"
    by (rule Cons.prems(1) [OF _ len(1) ok]) simp
  moreover have "getElements m junk (CHR ''}'') ?rest = Inr (map (type_of True) ts, rest)"
    by (rule Cons.IH [OF Cons.prems(1) wf(2) len(2)]) simp_all
  moreover have "deref (encode t @ ?rest) = Inr c" "c \<noteq> CHR ''}''"
    using c type_start_neutral [OF c(2)] by (simp_all add: deref_def)
  ultimately show ?case using m by simp
qed

lemma array_type_ok:
  "n < 2 ^ 32 - 1 \<Longrightarrow> array_type (of_int (int n)) t = Inr (Ffi 0 0 FFI_TYPE_STRUCT (Some (replicate n t)))"
proof -
  assume n: "n < 2 ^ 32 - 1"
  then have u: "unat (of_nat n :: u32) = n" by (simp add: unat_of_nat)
  then have "unat ((of_nat n :: u32) + 1) = n + 1"
    using n unat_add_lem [of "of_nat n :: u32" 1] by simp
  then have "(of_nat n :: u32) + 1 \<noteq> 0" by (metis unat_0 add_is_0 one_neq_zero)
  with u show ?thesis by (simp add: array_type_def)
qed

lemma getType_encode:
  "wf_oty t \<Longrightarrow> nesting t \<le> 255 \<Longrightarrow> ok_rest rest \<Longrightarrow> 2 * length (encode t) \<le> n \<Longrightarrow>
   getType n junk aggr (encode t @ rest) = Inr (type_of aggr t, is_block t, rest)"
proof (induction t arbitrary: n aggr rest)
  case (Simple c)
  then obtain m ty where "n = Suc m" "simple_type c = Some ty" by (cases n) auto
  then show ?case by simp
next
  case (Object nm)
  then obtain m where "n = Suc m" by (cases n) (auto split: option.splits)
  with skip_object_encode [OF Object.prems(1,3)] show ?case by (cases nm) simp_all
next
  case (Block sg)
  then obtain m where "n = Suc m" by (cases n) (auto split: option.splits)
  with skip_block_encode [OF Block.prems(1,3)] show ?case by (cases sg) simp_all
next
  case (Ptr t)
  then obtain m where "n = Suc m" by (cases n) auto
  with moveFwdAType_encode [of t rest] Ptr.prems show ?case by simp
next
  case UnknownPtr
  then obtain m where "n = Suc m" by (cases n) auto
  then show ?case by (simp add: strchr_def smplType_def)
next
  case (Arr k t)
  then obtain m where m: "n = Suc m" by (cases n) auto
  show ?case
  proof (cases aggr)
    case False
    then show ?thesis
      using moveFwdAggregate_encode [of "Arr k t" k t rest] Arr.prems m by (simp add: aggregate_parsers)
  next
    case True
    obtain c s where c: "encode t = c # s" "type_start c" using encode_start [of t] Arr.prems(1) by auto
    have "strtol (dec k @ encode t @ CHR '']'' # rest) = Inr (int k, encode t @ CHR '']'' # rest)"
      using strtol_dec [of c k] Arr.prems(1) type_start_neutral [OF c(2)] by (simp add: c(1) clamp_long_def)
    moreover have "getType m junk True (encode t @ CHR '']'' # rest) = Inr (type_of True t, is_block t, CHR '']'' # rest)"
      using Arr.prems m by (intro Arr.IH) (auto simp: ok_rest_def)
    ultimately show ?thesis
      using True m Arr.prems(1) array_type_ok [of k] by (simp add: aggregate_parsers deref_def)
  qed
next
  case (Struct nm ts)
  then obtain m where m: "n = Suc m" by (cases n) auto
  have "skip_past (CHR ''='') (nm @ CHR ''='' # concat (map encode ts) @ CHR ''}'' # rest)
      = Inr (concat (map encode ts) @ CHR ''}'' # rest)"
    using Struct.prems(1) by (intro skip_past_append) simp
  moreover have "getElements m junk (CHR ''}'') (concat (map encode ts) @ CHR ''}'' # rest)
      = Inr (map (type_of True) ts, rest)"
  proof (rule getElements_encode)
    fix t m' rest'
    assume t: "t \<in> set ts" "2 * length (encode t) \<le> m'" "ok_rest rest'"
    have "wf_oty t" "nesting t \<le> 255"
      using Struct.prems(1,2) t(1) nesting_member [OF t(1)] by (auto simp: list_all_iff)
    then show "getType m' junk True (encode t @ rest') = Inr (type_of True t, is_block t, rest')"
      using Struct.IH [OF t(1)] t by blast
  next
    show "\<forall>t\<in>set ts. wf_oty t" using Struct.prems(1) by (simp add: list_all_iff)
    show "2 * length (concat (map encode ts)) + 1 \<le> m" using Struct.prems(4) m by simp
  qed
  ultimately show ?case using m by (simp add: aggregate_parsers)
next
  case (Qual q t)
  then obtain m where "n = Suc m" by (cases n) auto
  then show ?case using Qual qualifier_not_smpl [of q] by simp
qed

section \<open>Signatures\<close>

text \<open>A method signature as the run time prints it: types, each with an optional frame offset.\<close>

type_synonym sig_item = "oty \<times> nat option"

definition encode_item :: "sig_item \<Rightarrow> string" where
  "encode_item a = encode (fst a) @ (case snd a of None \<Rightarrow> [] | Some k \<Rightarrow> dec k)"

definition encode_sig :: "sig_item \<Rightarrow> sig_item list \<Rightarrow> string" where
  "encode_sig r as = encode_item r @ concat (map encode_item as) @ [NUL]"

definition ok_item :: "sig_item \<Rightarrow> bool" where
  "ok_item a \<longleftrightarrow> wf_oty (fst a) \<and> nesting (fst a) \<le> 255"

fun blk_mask :: "nat \<Rightarrow> u64 \<Rightarrow> sig_item list \<Rightarrow> u64" where
  "blk_mask k m [] = m"
| "blk_mask k m (a # as) = blk_mask (k + 1) (if is_block (fst a) then m OR push_bit k 1 else m) as"

lemma bit_shift1: "i < 64 \<Longrightarrow> bit (push_bit k (1 :: u64)) i \<longleftrightarrow> i = k"
  by (auto simp: bit_exp_iff)

lemma bit_blk_mask:
  "i < 64 \<Longrightarrow> bit (blk_mask k m as) i \<longleftrightarrow>
     bit m i \<or> (k \<le> i \<and> i < k + length as \<and> is_block (fst (as ! (i - k))))"
proof (induction as arbitrary: k m)
  case (Cons a as)
  have "(a # as) ! (i - k) = as ! (i - (k + 1))" if "k < i"
    using that by (simp add: nth_Cons' Suc_diff_Suc)
  moreover have "bit (push_bit k (1 :: u64)) i \<longleftrightarrow> i = k"
    using Cons.prems by (rule bit_shift1)
  ultimately show ?case
    using Cons by (auto simp: bit_or_iff le_less)
qed auto

lemma sig_rest:
  assumes "list_all ok_item as"
  obtains c s where "concat (map encode_item as) @ [NUL] = c # s" "\<not> is_digit c" "\<not> is_space c"
    "c \<noteq> CHR ''-''" "c \<noteq> CHR ''+''" "c \<noteq> CHR 0x22" "c \<noteq> CHR ''?''" "c \<noteq> CHR ''<''" "c = NUL \<longleftrightarrow> as = []"
proof (cases as)
  case Nil
  show thesis by (rule that [of NUL]) (simp_all add: Nil NUL_def is_digit_def is_space_def)
next
  case (Cons a as')
  with assms obtain c s where c: "encode (fst a) = c # s" "type_start c"
    using encode_start [of "fst a"] by (auto simp: ok_item_def)
  show thesis
    by (rule that [of c]) (use type_start_neutral [OF c(2)] in \<open>simp_all add: Cons c encode_item_def\<close>)
qed

lemma item_then:
  assumes it: "ok_item a" "list_all ok_item as" and n: "2 * length (encode_item a) \<le> n"
  shows "\<exists>v s1. getType n junk aggr (encode_item a @ concat (map encode_item as) @ [NUL])
        = Inr (type_of aggr (fst a), is_block (fst a), s1)
      \<and> strtol s1 = Inr (v, concat (map encode_item as) @ [NUL])"
proof -
  obtain c s where c: "concat (map encode_item as) @ [NUL] = c # s" "\<not> is_digit c" "\<not> is_space c"
    "c \<noteq> CHR ''-''" "c \<noteq> CHR ''+''" "c \<noteq> CHR 0x22" "c \<noteq> CHR ''?''" "c \<noteq> CHR ''<''"
    using it(2) by (rule sig_rest)
  let ?num = "case snd a of None \<Rightarrow> [] | Some k \<Rightarrow> dec k"
  have ok: "ok_rest (?num @ c # s)"
  proof (cases "snd a")
    case (Some k)
    obtain d ds where d: "dec k = d # ds" using dec_nonempty [of k] by (cases "dec k") auto
    then have "is_digit d" using dec_digits [of k] by simp
    then have "d \<noteq> CHR 0x22 \<and> d \<noteq> CHR ''?'' \<and> d \<noteq> CHR ''<''" by (auto simp: is_digit_def)
    with Some d show ?thesis by (simp add: ok_rest_def)
  qed (use c in \<open>simp add: ok_rest_def\<close>)
  have "getType n junk aggr (encode (fst a) @ ?num @ c # s) = Inr (type_of aggr (fst a), is_block (fst a), ?num @ c # s)"
    using it(1) n ok by (intro getType_encode) (auto simp: ok_item_def encode_item_def)
  moreover have "\<exists>v. strtol (?num @ c # s) = Inr (v, c # s)"
    using strtol_dec [OF c(2)] strtol_none [OF c(2-5)] by (cases "snd a") auto
  ultimately show ?thesis by (auto simp: encode_item_def c)
qed

lemma getArgs_encode:
  "list_all ok_item as \<Longrightarrow> k + length as \<le> 64 \<Longrightarrow>
   2 * length (concat (map encode_item as)) + 1 \<le> n \<Longrightarrow>
   getArgs n junk k m (concat (map encode_item as) @ [NUL])
     = Inr (map (type_of False \<circ> fst) as, blk_mask k m as)"
proof (induction as arbitrary: n k m)
  case Nil
  then show ?case by (cases n) (simp_all add: deref_def)
next
  case (Cons a as)
  then obtain n' where n': "n = Suc n'" by (cases n) auto
  have ok: "ok_item a" "list_all ok_item as" using Cons.prems by simp_all
  obtain c s where c: "encode_item a = c # s" "type_start c"
    using ok(1) encode_start [of "fst a"] by (auto simp: ok_item_def encode_item_def)
  have nc: "c \<noteq> NUL" using type_start_neutral [OF c(2)] by blast
  have len: "2 * length (encode_item a) \<le> n'" "2 * length (concat (map encode_item as)) + 1 \<le> n'"
    using Cons.prems(3) c n' by simp_all
  let ?rest = "concat (map encode_item as) @ [NUL]"
  let ?m = "if is_block (fst a) then m OR push_bit k 1 else m"
  obtain v s1 where g: "getType n' junk False (encode_item a @ ?rest) = Inr (type_of False (fst a), is_block (fst a), s1)"
    and st: "strtol s1 = Inr (v, ?rest)"
    using item_then [OF ok len(1)] by blast
  have "getArgs n' junk (k + 1) ?m ?rest = Inr (map (type_of False \<circ> fst) as, blk_mask (k + 1) ?m as)"
    using Cons.prems(2) by (intro Cons.IH ok(2) len(2)) simp
  moreover have "deref (encode_item a @ ?rest) = Inr c" by (simp add: c deref_def)
  moreover have "\<not> 64 \<le> k" using Cons.prems(2) by simp
  ultimately show ?case using g st nc by (simp add: n')
qed

lemma parse_signature_encode:
  assumes "ok_item r" "list_all ok_item as" "length as \<le> 64"
  shows "parse_signature junk (encode_sig r as)
      = Inr (type_of False (fst r), map (type_of False \<circ> fst) as,
             blk_mask 0 (if is_block (fst r) then push_bit 63 1 else 0) as)"
proof -
  let ?n = "parse_fuel (encode_sig r as)"
  have len: "2 * length (encode_item r) \<le> ?n" by (simp add: parse_fuel_def encode_sig_def)
  obtain v s1 where "getType ?n junk False (encode_sig r as) = Inr (type_of False (fst r), is_block (fst r), s1)"
    and "strtol s1 = Inr (v, concat (map encode_item as) @ [NUL])"
    using item_then [OF assms(1,2) len, of junk False] unfolding encode_sig_def by blast
  moreover have "getArgs ?n junk 0 m (concat (map encode_item as) @ [NUL])
     = Inr (map (type_of False \<circ> fst) as, blk_mask 0 m as)" for m
    using assms by (intro getArgs_encode) (simp_all add: parse_fuel_def encode_sig_def)
  ultimately show ?thesis
    by (simp add: parse_signature_def)
qed

text \<open>C9. Round trip: the parser recovers from the printed signature exactly the types that were
  printed, arrays as pointers at the top level and as aggregates inside of structures, and the
  set of block arguments, whatever frame offsets the string carries.\<close>

theorem parse_signature_roundtrip:
  assumes "ok_item r" "list_all ok_item as" "length as \<le> 64"
  shows "\<exists>blkMask. parse_signature junk (encode_sig r as)
        = Inr (type_of False (fst r), map (type_of False \<circ> fst) as, blkMask)
      \<and> (\<forall>i<64. bit blkMask i \<longleftrightarrow>
            (i < length as \<and> is_block (fst (as ! i))) \<or> (i = 63 \<and> is_block (fst r)))"
proof -
  have "bit (if is_block (fst r) then push_bit 63 1 else 0 :: u64) i \<longleftrightarrow> i = 63 \<and> is_block (fst r)"
    if "i < 64" for i
    using bit_shift1 [OF that, of 63] by (cases "is_block (fst r)") (simp_all only: if_True if_False bit_0_eq bot_apply bot_bool_def, simp_all)
  then show ?thesis using parse_signature_encode [OF assms] by (auto simp: bit_blk_mask)
qed

definition wit_items :: "sig_item list" where
  "wit_items =
     [(Object None, Some 0), (Simple (CHR '':''), Some 8), (Block None, Some 16),
      (Struct ''P'' [Arr 2 (Simple (CHR ''d'')), Ptr UnknownPtr], None),
      (Qual (CHR ''r'') (Arr 3 (Simple (CHR ''i''))), None)]"

lemma wit_items_ok: "list_all ok_item wit_items" "length wit_items \<le> 64"
  by (simp_all add: wit_items_def ok_item_def simple_type_def qualifiers_def)

lemma wit_items_encode:
  "encode_sig (Simple (CHR ''v''), Some 24) wit_items = ''v24@0:8@?16{P=[2d]^^?}r[3i]'' @ [NUL]"
  by code_simp

theorem parse_signature_roundtrip_witness:
  "\<exists>m. parse_signature [] (''v24@0:8@?16{P=[2d]^^?}r[3i]'' @ [NUL])
     = Inr (ffi_type_void,
            [ffi_type_pointer, ffi_type_pointer, ffi_type_pointer,
             Ffi 0 0 FFI_TYPE_STRUCT (Some [Ffi 0 0 FFI_TYPE_STRUCT (Some [ffi_type_double, ffi_type_double]),
                                            ffi_type_pointer]),
             ffi_type_pointer], m)
     \<and> bit m 2 \<and> \<not> bit m 3"
proof -
  have r: "ok_item (Simple (CHR ''v''), Some 24)" by (simp add: ok_item_def simple_type_def)
  from parse_signature_roundtrip [OF r wit_items_ok, of "[]", unfolded wit_items_encode]
  obtain m where m: "parse_signature [] (''v24@0:8@?16{P=[2d]^^?}r[3i]'' @ [NUL])
      = Inr (type_of False (Simple (CHR ''v'')), map (type_of False \<circ> fst) wit_items, m)"
    and b: "\<forall>i<64. bit m i \<longleftrightarrow> (i < length wit_items \<and> is_block (fst (wit_items ! i))) \<or> (i = 63 \<and> False)"
    by auto
  have "bit m 2" "\<not> bit m 3" using b by (auto simp: wit_items_def)
  then show ?thesis
    using m by (auto simp: wit_items_def simple_type_def numeral_2_eq_2)
qed
end
