(* ===== verification/Types_Handle.thy ===== *)
theory Types_Handle
  imports Types_Roundtrip Xx_Locations Xx_Classify
begin

text \<open>
  \<open>typesParser.c\<close> together with the two preparation functions: the descriptors that the parser
  builds are well formed, and the two descriptions that \<open>handle\<close> returns agree.  The last section
  states where the parser does not do what it means to.
\<close>

section \<open>The descriptors that the parser builds\<close>

definition basic_types :: "ffi_type list" where
  "basic_types =
     [ffi_type_void, ffi_type_uint8, ffi_type_sint8, ffi_type_uint16, ffi_type_sint16, ffi_type_uint32,
      ffi_type_sint32, ffi_type_uint64, ffi_type_sint64, ffi_type_pointer, ffi_type_float, ffi_type_double]"

text \<open>
  A basic descriptor, or an aggregate whose layout is still to be computed; the member of an
  empty union has no elements, and its layout computation fails.
\<close>

fun parsed_type :: "ffi_type \<Rightarrow> bool" where
  "parsed_type (Ffi s a t els) \<longleftrightarrow>
     Ffi s a t els \<in> set basic_types \<or>
     s = 0 \<and> (case els of None \<Rightarrow> True | Some es \<Rightarrow> t = FFI_TYPE_STRUCT \<and> list_all parsed_type es)"

lemma parsed_basic: "ty \<in> set basic_types \<Longrightarrow> parsed_type ty"
  by (cases ty) simp

lemma simple_type_basic: "simple_type c = Some ty \<Longrightarrow> ty \<in> set basic_types"
  by (rule ccontr) (simp add: simple_type_def basic_types_def split: if_split_asm)

lemma pointer_basic: "ffi_type_pointer \<in> set basic_types"
  by (simp add: basic_types_def)

lemma parsed_array: "array_type n ty = Inr ty' \<Longrightarrow> parsed_type ty \<Longrightarrow> parsed_type ty'"
  by (auto simp: array_type_def list_all_iff split: if_splits)

lemma parsed_union: "union_type junk es = Inr ty \<Longrightarrow> parsed_type ty"
  by (auto simp: union_type_def split: list.splits sum.splits failure.splits)

lemma getType_Suc_type:
  assumes "getType (Suc n) junk a (ch # s) = Inr (ty, b, s')"
  obtains (basic) "ty \<in> set basic_types"
  | (array) v s1 el b' r where "getType n junk True s1 = Inr (el, b', r)" "array_type v el = Inr ty"
  | (struct) s1 es where "getElements n junk (CHR ''}'') s1 = Inr (es, s')" "ty = Ffi 0 0 FFI_TYPE_STRUCT (Some es)"
  | (union) es where "union_type junk es = Inr ty"
  | (qual) "getType n junk a s = Inr (ty, b, s')"
proof (cases "simple_type ch")
  case None
  note r = assms [unfolded getType.simps None option.case aggregate_parsers]
  consider "ch = CHR ''@''" | "ch = CHR ''^''" | "ch = CHR ''[''" "\<not> a" | "ch = CHR ''[''" a
    | "ch = CHR ''{''" | "ch = CHR ''(''"
    | "(if ch \<in> set qualifiers then getType n junk a s else Inl Abort) = Inr (ty, b, s')"
    using r by (cases "ch \<in> set ''@^[{(''") (simp, blast, simp)
  then show thesis
  proof cases
    case 4
    with r array show ?thesis by (auto simp: split_beta)
  next
    case 5
    with r struct show ?thesis by (auto simp: split_beta)
  next
    case 6
    with r union show ?thesis by (auto simp: split_beta)
  next
    case 7
    with qual show ?thesis by (auto split: if_splits)
  qed (use r basic pointer_basic in \<open>auto simp: split_beta\<close>)
next
  case (Some t)
  with assms basic simple_type_basic [OF Some] show thesis by simp
qed

lemma getType_parsed:
  "(\<forall>junk a s ty b s'. getType n junk a s = Inr (ty, b, s') \<longrightarrow> parsed_type ty)
   \<and> (\<forall>junk cl s tys s'. getElements n junk cl s = Inr (tys, s') \<longrightarrow> list_all parsed_type tys)"
proof (induction n)
  case (Suc n)
  have ty: "parsed_type ty" if r: "getType (Suc n) junk a s = Inr (ty, b, s')" for junk a s ty b s'
  proof (cases s)
    case (Cons ch t)
    from r [unfolded Cons] show ?thesis
    proof (cases rule: getType_Suc_type)
      case basic
      then show ?thesis by (rule parsed_basic)
    next
      case (array v s1 el b' r)
      then show ?thesis using Suc.IH parsed_array by blast
    next
      case (struct s1 es)
      then have "list_all parsed_type es" using Suc.IH by blast
      then show ?thesis by (simp add: struct(2))
    next
      case (union es)
      then show ?thesis by (rule parsed_union)
    next
      case qual
      then show ?thesis using Suc.IH by blast
    qed
  qed (use r in simp)
  moreover have "list_all parsed_type tys" if r: "getElements (Suc n) junk cl s = Inr (tys, s')" for junk cl s tys s'
    using r Suc.IH by (fastforce split: if_splits)
  ultimately show ?case by blast
qed simp

lemma getArgs_parsed: "getArgs n junk k m s = Inr (tys, m') \<Longrightarrow> list_all parsed_type tys"
proof (induction n arbitrary: k m s tys)
  case (Suc n)
  then show ?case using getType_parsed [THEN conjunct1, rule_format, of n junk False]
    by (fastforce split: if_splits)
qed simp


lemma parsed_cases: "parsed_type ty \<Longrightarrow> ffi_size ty = 0 \<or> ty \<in> set basic_types"
  by (cases ty) auto

lemma basic_align: "ty \<in> set basic_types \<Longrightarrow> ok_align (ffi_alignment ty) \<and> ffi_size ty \<noteq> 0"
  by (auto simp: basic_types_def ffi_basic_defs)

lemma parsed_elements:
  "parsed_type ty \<Longrightarrow> ffi_size ty = 0 \<Longrightarrow> ffi_elements ty = Some es \<Longrightarrow> list_all parsed_type es"
  using basic_align [of ty] by (cases ty) auto

lemma initialize_align:
  "parsed_type ty \<Longrightarrow> ffi_size ty = 0 \<Longrightarrow> initialize_aggregate ty = Some (ty', offs) \<Longrightarrow> ok_align (ffi_alignment ty')"
  "list_all parsed_type es \<Longrightarrow> initialize_elements es sz al = Some (es', sz', al', offs') \<Longrightarrow>
     \<forall>e\<in>set es'. ok_align (ffi_alignment e)"
proof (induction ty and es sz al arbitrary: ty' offs and es' sz' al' offs'
    rule: initialize_aggregate_initialize_elements.induct)
  case (1 s a t els)
  from "1.prems"(3) obtain es es' sz where el: "ffi_elements (Ffi s a t els) = Some es" "ffi_elements ty' = Some es'"
    "initialize_elements es 0 0 = Some (es', sz, ffi_alignment ty', offs)"
    by (rule initialize_aggregate_elements) blast
  have "\<forall>e\<in>set es'. ok_align (ffi_alignment e)"
    using "1.IH" el parsed_elements [OF "1.prems"(1,2) el(1)] by simp
  from initialize_aggregate_max_alignment(1) [OF "1.prems"(3) el(2) this] show ?case .
next
  case (3 ptr ptrs sz al)
  from "3.prems"(2) obtain p ps x where p:
    "(if ffi_size ptr = 0 then map_option fst (initialize_aggregate ptr) else Some ptr) = Some p"
    and ps: "initialize_elements ptrs (FFI_ALIGN sz (ucast (ffi_alignment p)) + ffi_size p)
        (if al > ffi_alignment p then al else ffi_alignment p) = Some (ps, x)" and es': "es' = p # ps"
    by (auto simp: Let_def split: option.splits prod.splits)
  have "ok_align (ffi_alignment p)"
    using p "3.IH"(1) "3.prems"(1) parsed_cases [of ptr] basic_align by (auto split: if_splits)
  moreover have "\<forall>e\<in>set ps. ok_align (ffi_alignment e)"
    using "3.IH"(2) [OF p refl refl] ps "3.prems"(1) by (cases x) auto
  ultimately show ?case by (simp add: es')
qed simp

lemma xx_init_type_align: "parsed_type ty \<Longrightarrow> xx_init_type ty = Inr ty' \<Longrightarrow> ok_align (ffi_alignment ty')"
  using initialize_align(1) [of ty ty'] parsed_cases [of ty] basic_align
  by (auto simp: xx_init_type_def xx_initialize_eq split: if_splits option.splits)

lemma xx_init_args_align:
  "list_all parsed_type tys \<Longrightarrow> xx_init_args tys = Inr tys' \<Longrightarrow> \<forall>ty\<in>set tys'. ok_align (ffi_alignment ty)"
  using xx_init_type_align by (induction tys arbitrary: tys') auto

text \<open>The second preparation finds every descriptor initialised and leaves it alone.\<close>

lemma xx_init_type_nonzero: "xx_init_type ty = Inr ty' \<Longrightarrow> ffi_size ty' \<noteq> 0"
  by (auto simp: xx_init_type_def xx_initialize_eq split: if_splits option.splits elim: initialize_aggregate_elements)

lemma xx_init_args_nonzero: "xx_init_args tys = Inr tys' \<Longrightarrow> \<forall>ty\<in>set tys'. ffi_size ty \<noteq> 0"
  using xx_init_type_nonzero by (induction tys arbitrary: tys') auto

lemma aa_init_args_id:
  "\<forall>ty\<in>set tys. ffi_size ty \<noteq> 0 \<Longrightarrow> aa_init_args tys b = Inr (tys', b') \<Longrightarrow> tys' = tys"
  by (induction tys arbitrary: b tys') (auto simp: init_type_def Let_def)

section \<open>The block marks\<close>

text \<open>What placing arguments leaves alone: the block marks and the number of arguments.\<close>

definition blocks :: "ABIFnInfo option \<Rightarrow> (bool list \<times> nat) option" where
  "blocks fn = map_option (\<lambda>f. (map te_is_block (fi_ainfo f), fi_nargs f)) fn"

lemma fn_arg_upd_blocks:
  assumes "fn_arg_upd fn i f = Inr fn'" "\<And>x x'. f x = Inr x' \<Longrightarrow> te_is_block x' = te_is_block x"
  shows "blocks fn' = blocks fn"
  using assms
  by (auto simp: fn_arg_upd_def blocks_def list_update_same_conv map_update split: option.splits if_splits
      intro!: list_update_id [symmetric])

lemma te_is_block_simps [simp]:
  "te_is_block (te_or_mask x TE_MASK_ISMEM) = te_is_block x"
  "te_is_block (te_or_mask x TE_MASK_INDIRECT) = te_is_block x"
  "te_is_block (te_set_mem x v i) = te_is_block x"
  "te_is_block (te_set_arg_size x w) = te_is_block x"
  by (simp_all add: te_is_block_def te_or_mask_def te_mask_defs te_set_mem_def te_set_arg_size_def
      bit.conj_disj_distrib2)

lemma te_set_reg_block: "te_set_reg x i r l = Inr x' \<Longrightarrow> te_is_block x' = te_is_block x"
  by (auto simp: te_set_reg_def te_is_block_def)

lemma te_set_regs_block: "te_set_regs x i rs l = Inr x' \<Longrightarrow> te_is_block x' = te_is_block x"
  by (induction rs arbitrary: x i) (auto dest: te_set_reg_block)

lemmas upd_blocks = fn_arg_upd_blocks te_set_reg_block te_set_regs_block

lemma aa_mem_arg_blocks: "aa_mem_arg st i al sz = Inr st' \<Longrightarrow> blocks (aa_fn st') = blocks (aa_fn st)"
  by (auto simp: aa_mem_arg_def pass_in_memory_def Let_def dest!: fn_arg_upd_blocks)

lemma aa_gpr_arg_blocks: "aa_gpr_arg st i al sz = Inr st' \<Longrightarrow> blocks (aa_fn st') = blocks (aa_fn st)"
  by (auto simp: aa_gpr_arg_def split: if_splits
      dest: aa_mem_arg_blocks fn_arg_upd_blocks te_set_reg_block)

lemma aa_place_arg_blocks:
  assumes "aa_place_arg st i ty = Inr st'"
  shows "blocks (aa_fn st') = blocks (aa_fn st)"
proof -
  from assms obtain fn0 where fn0: "fn_arg_upd (aa_fn st) i (\<lambda>x. Inr (te_set_arg_size x (ffi_size ty))) = Inr fn0"
    by (auto simp: aa_place_arg_def Let_def)
  let ?st = "st\<lparr>aa_fn := fn0\<rparr>"
  from assms fn0 consider "aa_gpr_arg ?st i (ffi_alignment ty) (ffi_size ty) = Inr st'"
    | h where "aa_hfa_arg ?st i ty h = Inr st'" | "aa_ref_arg ?st i ty = Inr st'" | "aa_comp_arg ?st i ty = Inr st'"
    by (auto simp: aa_place_arg_def Let_def split: if_splits)
  then have "blocks (aa_fn st') = blocks (aa_fn ?st)"
  proof cases
    case 1
    then show ?thesis by (rule aa_gpr_arg_blocks)
  next
    case 2
    then show ?thesis
      by (auto simp: aa_hfa_arg_def Let_def split: if_splits
          dest: aa_mem_arg_blocks fn_arg_upd_blocks te_set_regs_block)
  next
    case 3
    then obtain st1 fn where "aa_gpr_arg ?st i (ffi_alignment ty) 8 = Inr st1"
      "fn_arg_upd (aa_fn st1) i (\<lambda>x. Inr (te_or_mask x TE_MASK_INDIRECT)) = Inr fn" "st' = st1\<lparr>aa_fn := fn\<rparr>"
      by (auto simp: aa_ref_arg_def)
    then show ?thesis using aa_gpr_arg_blocks fn_arg_upd_blocks [of "aa_fn st1" i _ fn] by force
  next
    case 4
    then show ?thesis
      by (auto simp: aa_comp_arg_def Let_def split: if_splits
          dest: aa_mem_arg_blocks fn_arg_upd_blocks te_set_regs_block)
  qed
  also have "blocks (aa_fn ?st) = blocks (aa_fn st)"
    using fn_arg_upd_blocks [OF fn0] by auto
  finally show ?thesis .
qed

lemma aa_place_args_blocks:
  "aa_place_args st nf i tys = Inr st' \<Longrightarrow> blocks (aa_fn st') = blocks (aa_fn st)"
proof (induction tys arbitrary: st i)
  case (Cons ty tys)
  from Cons.prems obtain st1 where st1: "aa_place_arg st i ty = Inr st1"
    and rec: "aa_place_args (if i + 1 = nf then st1\<lparr>gprcount := N_X_ARG_REG, ssecount := N_V_ARG_REG,
        allocating_variadic := True\<rparr> else st1) nf (i + 1) tys = Inr st'"
    by (auto simp: Let_def)
  from Cons.IH [OF rec] aa_place_arg_blocks [OF st1] show ?case by (simp split: if_splits)
qed simp

lemma xx_reg_arg_blocks:
  "xx_reg_arg j k i ty idx st = Inr st' \<Longrightarrow> blocks (xx_fn st') = blocks (xx_fn st)"
proof (induction j k i ty idx st rule: xx_reg_arg.induct)
  case (2 j k i ty idx st)
  have put: "blocks fn' = blocks fn" if "put_reg fn i idx t c l = Inr (fn', idx')" for fn fn' t c l idx'
    using that by (auto simp: put_reg_def split: option.splits if_splits
        dest!: fn_arg_upd_blocks dest: te_set_reg_block)
  from "2.prems" obtain c where c: "get_class (ex_classes (xx_ex st)) j = Inr c" by auto
  with "2.prems" "2.IH" put show ?case
    by (auto split: if_splits)
qed simp

lemma xx_place_arg_blocks:
  assumes "xx_place_arg junk st i ty = Inr st'"
  shows "blocks (xx_fn st') = blocks (xx_fn st)"
proof -
  from assms obtain fn0 ex where fn0: "fn_arg_upd (xx_fn st) i (\<lambda>x. Inr (te_set_arg_size x (ffi_size ty))) = Inr fn0"
    and st': "xx_mem_arg (st\<lparr>xx_fn := fn0, xx_ex := ex\<rparr>) i ty = Inr st'
      \<or> xx_reg_arg 0 (ex_n ex) i ty 0 (st\<lparr>xx_fn := fn0, xx_ex := ex\<rparr>) = Inr st'"
    by (auto simp: xx_place_arg_def Let_def split: if_splits) blast+
  have "blocks (xx_fn st') = blocks fn0"
    using st'
  proof
    assume "xx_mem_arg (st\<lparr>xx_fn := fn0, xx_ex := ex\<rparr>) i ty = Inr st'"
    then show ?thesis by (auto simp: xx_mem_arg_def Let_def dest!: fn_arg_upd_blocks)
  qed (auto dest: xx_reg_arg_blocks)
  with fn_arg_upd_blocks [OF fn0] show ?thesis by auto
qed

lemma xx_place_args_blocks:
  "xx_place_args junk st i tys = Inr st' \<Longrightarrow> blocks (xx_fn st') = blocks (xx_fn st)"
  by (induction tys arbitrary: st i) (auto dest!: xx_place_arg_blocks)

section \<open>Both conventions together\<close>

lemma ffi_status_Some: "ffi_status r = Inr (Some x) \<longleftrightarrow> r = Inr x"
  by (auto simp: ffi_status_def split: sum.splits if_splits)

lemma handle_xx_Some:
  assumes "handle_xx junk rtype atypes m = Inr (Some (xx, rtype', atypes'))"
  obtains cif xi where
    "my_xx_fi_prep_cif junk XX_FI_UNIX64 (length atypes) rtype atypes (Some (newFnInfo (length atypes))) = Inr (cif, Some xi)"
    "mark_blocks m xi = Inr xx" "rtype' = xx_rtype cif" "atypes' = xx_arg_types cif"
  using assms by (auto simp: handle_xx_def Let_def ffi_status_Some split: option.splits)

lemma handle_aa_Some:
  assumes "handle_aa rtype atypes m nfixed = Inr (Some aa)"
  obtains cif ai isv nf where
    "my_aa_fi_prep_cif_core AA_FI_SYSV isv nf (length atypes) rtype atypes (Some (newFnInfo (length atypes))) = Inr (cif, Some ai)"
    "mark_blocks m ai = Inr aa"
  using assms
  by (auto simp: handle_aa_def Let_def ffi_status_Some my_aa_fi_prep_cif_def my_aa_fi_prep_cif_var_def
      split: option.splits if_splits)

lemma handle_both:
  assumes "handle junk types True True nfixed = Inr (True, Some aa, Some xx)"
  obtains rtype atypes m rtype' atypes' where
    "parse_signature junk types = Inr (rtype, atypes, m)"
    "handle_xx junk rtype atypes m = Inr (Some (xx, rtype', atypes'))"
    "handle_aa rtype' atypes' m nfixed = Inr (Some aa)"
  using assms by (auto simp: handle_def Let_def split: if_splits option.splits)

lemma mark_blocks_nth:
  assumes "mark_blocks m info = Inr info'" "i < length (fi_ainfo info)"
  shows "length (fi_ainfo info') = length (fi_ainfo info)" "fi_nargs info' = fi_nargs info"
    "fi_ainfo info' ! i = mark_if m i (fi_ainfo info ! i)" "fi_nargs info \<le> 64"
  using assms by (auto simp: mark_blocks_def nth_enumerate_eq split: if_splits)

lemma mark_if_simps [simp]:
  "ai_size (mark_if m i x) = ai_size x" "ai_val (mark_if m i x) = ai_val x"
  "te_is_mem (mark_if m i x) = te_is_mem x" "te_is_indirect (mark_if m i x) = te_is_indirect x"
  by (simp_all add: mark_if_def te_or_mask_def te_is_mem_def te_is_indirect_def te_mask_defs bit.conj_disj_distrib2)

lemma mark_if_block:
  assumes "i < 64"
  shows "te_is_block (mark_if m i x) \<longleftrightarrow> te_is_block x \<or> bit m i"
proof -
  have "m AND push_bit i 1 \<noteq> 0 \<longleftrightarrow> bit m i"
    using assms by (auto simp: bit_iff_and_push_bit_not_eq_0)
  then show ?thesis
    by (auto simp: mark_if_def te_or_mask_def te_is_block_def te_mask_defs bit.conj_disj_distrib2)
qed

lemma ret_upd_blocks: "fn_ret_upd fn f = Inr fn' \<Longrightarrow> blocks fn' = blocks fn"
  by (auto simp: fn_ret_upd_def blocks_def split: option.splits)

lemma xx_prep_blocks:
  assumes "my_xx_fi_prep_cif junk abi n rtype atypes fn0 = Inr (cif, fn)"
  shows "blocks fn = blocks fn0"
proof -
  from assms obtain flags g ex fn1 st where r: "fn_ret_upd fn0 (xx_store_ret flags) = Inr fn1"
    and p: "xx_place_args junk \<lparr>xx_gprcount = g, xx_ssecount = 0, xx_offset = 0, xx_ex = ex, xx_fn = fn1\<rparr>
        0 (xx_arg_types cif) = Inr st"
    and e: "fn = map_option (\<lambda>f. f\<lparr>fi_bytes := ucast (FFI_ALIGN (xx_offset st) 8), fi_ssecount := xx_ssecount st\<rparr>) (xx_fn st)"
    by (rule xx_prep_Inr) blast
  show ?thesis
    using xx_place_args_blocks [OF p] ret_upd_blocks [OF r] by (simp add: e blocks_def option.map_comp comp_def)
qed

lemma aa_prep_blocks:
  assumes "my_aa_fi_prep_cif_core abi isv nf n rtype atypes fn0 = Inr (cif, fn)"
  shows "blocks fn = blocks fn0"
proof -
  from assms obtain st flags fn1 where r: "fn_ret_upd fn0 (aa_store_ret flags) = Inr fn1"
    and p: "aa_place_args \<lparr>gprcount = 0, ssecount = 0, stack_offset = 0, allocating_variadic = False, aa_fn = fn1\<rparr>
        (if isv then nf else 0) 0 (aa_arg_types cif) = Inr st"
    and e: "fn = map_option (\<lambda>f. f\<lparr>fi_bytes := ucast (stack_offset st)\<rparr>) (aa_fn st)"
    by (rule prep_core_Inr) blast
  show ?thesis
    using aa_place_args_blocks [OF p] ret_upd_blocks [OF r] by (simp add: e blocks_def option.map_comp comp_def)
qed

lemma blocks_newFnInfo: "blocks (Some (newFnInfo n)) = Some (replicate n False, n)"
  by (simp add: blocks_def newFnInfo_def zeroArgInfo_def te_is_block_def map_replicate_const)

lemma blocks_Some:
  assumes "blocks (Some f) = Some (replicate n False, n)"
  shows "length (fi_ainfo f) = n" "fi_nargs f = n" "i < n \<Longrightarrow> \<not> te_is_block (fi_ainfo f ! i)"
proof -
  have l: "map te_is_block (fi_ainfo f) = replicate n False" and "fi_nargs f = n"
    using assms by (simp_all add: blocks_def)
  then show "length (fi_ainfo f) = n" "fi_nargs f = n" by (auto dest: arg_cong [where f = length])
  then show "i < n \<Longrightarrow> \<not> te_is_block (fi_ainfo f ! i)"
    using arg_cong [OF l, of "\<lambda>bs. bs ! i"] by simp
qed

lemma marked:
  assumes "mark_blocks m f = Inr f'" "length (fi_ainfo f) = n" "fi_nargs f = n"
    and "\<And>i. i < n \<Longrightarrow> \<not> te_is_block (fi_ainfo f ! i)"
  shows "fi_nargs f' = n \<and> length (fi_ainfo f') = n \<and> n \<le> 64
    \<and> (\<forall>i<n. ai_size (fi_ainfo f' ! i) = ai_size (fi_ainfo f ! i) \<and> te_is_block (fi_ainfo f' ! i) = bit m i)"
  using assms by (auto simp: mark_blocks_def nth_enumerate_eq mark_if_block split: if_splits)

text \<open>C10. When \<open>handle\<close> succeeds for both conventions, the two descriptions of the call agree on
  what the marshalling code needs of them: the same number of arguments, for each argument the
  same size, and the same block mark, which is that of the encoding; and on both sides the
  arguments have been laid out by the same types, those of the signature after layout.\<close>

theorem handle_sides_agree:
  assumes h: "handle junk types True True nfixed = Inr (True, Some aa, Some xx)"
    and sig: "parse_signature junk types = Inr (rtype, atypes, m)"
    and tys: "xx_init_args atypes = Inr tys" and room: "sum_list (map arg_room tys) + 8 < 2 ^ 32"
  shows "fi_nargs aa = length atypes \<and> fi_nargs xx = length atypes \<and> length atypes \<le> 64
    \<and> length (fi_ainfo aa) = length atypes \<and> length (fi_ainfo xx) = length atypes
    \<and> (\<forall>i<length atypes.
         te_get_arg_size (fi_ainfo aa ! i) = ucast (ffi_size (tys ! i))
         \<and> te_get_arg_size (fi_ainfo xx ! i) = ucast (ffi_size (tys ! i))
         \<and> te_is_block (fi_ainfo aa ! i) = bit m i \<and> te_is_block (fi_ainfo xx ! i) = bit m i)"
proof -
  from h sig obtain rtype' atypes' where x: "handle_xx junk rtype atypes m = Inr (Some (xx, rtype', atypes'))"
    and a: "handle_aa rtype' atypes' m nfixed = Inr (Some aa)"
    by (auto elim!: handle_both)
  from x obtain xcif xi where xp: "my_xx_fi_prep_cif junk XX_FI_UNIX64 (length atypes) rtype atypes
        (Some (newFnInfo (length atypes))) = Inr (xcif, Some xi)"
    and xm: "mark_blocks m xi = Inr xx" and "atypes' = xx_arg_types xcif"
    by (rule handle_xx_Some)
  moreover from xp have "xx_arg_types xcif = tys" by (rule xx_prep_Inr) (use tys in simp)
  ultimately have at: "atypes' = tys" "xx_arg_types xcif = tys" by simp_all
  have len: "length tys = length atypes" using xx_init_args_Inr [OF tys] .
  from a at obtain acif ai isv nf where ap: "my_aa_fi_prep_cif_core AA_FI_SYSV isv nf (length tys) rtype' tys
        (Some (newFnInfo (length tys))) = Inr (acif, Some ai)" and am: "mark_blocks m ai = Inr aa"
    by (auto elim: handle_aa_Some)
  from ap have at2: "aa_arg_types acif = tys"
    by (rule prep_core_Inr) (use aa_init_args_id xx_init_args_nonzero [OF tys] in blast)
  have ok: "\<forall>ty\<in>set tys. ok_align (ffi_alignment ty)"
  proof (rule xx_init_args_align [OF _ tys])
    show "list_all parsed_type atypes"
      using sig getArgs_parsed by (auto simp: parse_signature_def)
  qed
  note bx = blocks_Some [OF xx_prep_blocks [OF xp, unfolded blocks_newFnInfo]]
  note ba = blocks_Some [OF aa_prep_blocks [OF ap, unfolded blocks_newFnInfo], unfolded len]
  have zero: "fi_ainfo (newFnInfo n) = replicate n zeroArgInfo" "fi_rinfo (newFnInfo n) = zeroArgInfo" for n
    by (simp_all add: newFnInfo_def)
  have sx: "ai_size (fi_ainfo xi ! i) = ucast (ffi_size (tys ! i))" if "i < length atypes" for i
    using xx_prep_refines [OF xp zero, unfolded at, OF ok room] that len
    by (auto simp: xall_placed_def placed_def)
  have sa: "ai_size (fi_ainfo ai ! i) = ucast (ffi_size (tys ! i))" if "i < length atypes" for i
    using prep_core_refines [OF ap zero(1), unfolded at2, OF ok] room that len
    by (auto simp: all_placed_def placed_def)
  show ?thesis
    using marked [OF xm bx] marked [OF am ba] sx sa by (simp add: te_get_arg_size_def)
qed

text \<open>Witness: the signature \<open>v24@0:8@?16\<close> of a method with a block parameter.\<close>

abbreviation wit_sig :: string where
  "wit_sig \<equiv> ''v24@0:8@?16'' @ [NUL]"

abbreviation wit_junk :: "x86_64_reg_class list" where
  "wit_junk \<equiv> replicate 4 X86_64_NO_CLASS"

lemma wit_sig_parse:
  "parse_signature wit_junk wit_sig = Inr (ffi_type_void, [ffi_type_pointer, ffi_type_pointer, ffi_type_pointer], 4)"
  by code_simp

lemma wit_sig_handle:
  "case handle wit_junk wit_sig True True InvalidValue of
     Inr (True, Some aa, Some xx) \<Rightarrow>
       map arg_regs (fi_ainfo aa) = [[TE_X 0], [TE_X 1], [TE_X 2]]
       \<and> map arg_regs (fi_ainfo xx) = [[TE_RDI], [TE_RSI], [TE_RDX]]
   | _ \<Rightarrow> False"
  by code_simp


theorem handle_sides_agree_witness:
  "\<exists>aa xx. handle wit_junk wit_sig True True InvalidValue = Inr (True, Some aa, Some xx)
    \<and> fi_nargs aa = 3 \<and> fi_nargs xx = 3 \<and> te_get_arg_size (fi_ainfo aa ! 2) = 8
    \<and> te_is_block (fi_ainfo aa ! 2) \<and> \<not> te_is_block (fi_ainfo xx ! 1)
    \<and> map arg_regs (fi_ainfo aa) = [[TE_X 0], [TE_X 1], [TE_X 2]]
    \<and> map arg_regs (fi_ainfo xx) = [[TE_RDI], [TE_RSI], [TE_RDX]]"
proof -
  from wit_sig_handle obtain aa xx where h: "handle wit_junk wit_sig True True InvalidValue = Inr (True, Some aa, Some xx)"
    and r: "map arg_regs (fi_ainfo aa) = [[TE_X 0], [TE_X 1], [TE_X 2]]"
      "map arg_regs (fi_ainfo xx) = [[TE_RDI], [TE_RSI], [TE_RDX]]"
    by (auto split: sum.splits option.splits bool.splits)
  let ?tys = "[ffi_type_pointer, ffi_type_pointer, ffi_type_pointer]"
  have i: "xx_init_args ?tys = Inr ?tys" "sum_list (map arg_room ?tys) + 8 < 2 ^ 32"
    by (simp_all add: xx_init_type_def ffi_basic_defs arg_room_def)
  have b: "bit (4 :: u64) 2" "\<not> bit (4 :: u64) 1" by code_simp+
  show ?thesis
    using handle_sides_agree [OF h wit_sig_parse i] h r b by (simp add: ffi_type_pointer_def)
qed

section \<open>What the parser gets wrong\<close>

text \<open>A union with a member is never parsed: \<open>getUnionType\<close> walks out of its first member.\<close>

theorem union_with_member_undefined:
  "union_type junk (e # es) = Inl Abort \<or> union_type junk (e # es) = Inl Undefined"
  by (simp add: union_type_def split: sum.splits failure.splits)

text \<open>A pointer without a pointee at the end of the string: the search for \<open>**str\<close> in the simple
  types finds their terminator, and the scan leaves the string.\<close>

theorem dangling_pointer_overrun:
  "getType 3 wit_junk False (''^'' @ [NUL]) = Inr (ffi_type_pointer, False, [])
   \<and> handle wit_junk (''v^'' @ [NUL]) True True InvalidValue = Inl Undefined"
  by code_simp

text \<open>The nesting counter wraps after 255 further opening braces, and the skip ends inside the
  aggregate.\<close>

lemma moveFwdLoop_open:
  "left \<noteq> 0 \<Longrightarrow> unat left + k \<le> 255 \<Longrightarrow> moveFwdLoop b left (replicate k b @ s) = moveFwdLoop b (left + of_nat k) s"
proof (induction k arbitrary: left)
  case (Suc k)
  have "unat left < 255" using Suc.prems by simp
  note u = unat_inc [OF this]
  show ?case using Suc.IH [of "left + 1"] Suc.prems u by (simp add: add.assoc)
qed simp

theorem nesting_counter_wraps:
  "moveFwdAggregate (replicate 255 b @ s) b = Inr s"
proof -
  have z: "(256 :: u8) = 0" by simp
  have "moveFwdLoop b 1 (replicate 254 b @ (b # s)) = moveFwdLoop b (1 + of_nat 254) (b # s)"
    by (rule moveFwdLoop_open) simp_all
  also have "\<dots> = moveFwdLoop b 256 s" by simp
  also have "\<dots> = Inr s" unfolding z by simp
  also have "replicate 254 b @ (b # s) = replicate 255 b @ s"
    using replicate_append_same [of 254 b] by (simp add: numeral_eq_Suc)
  finally show ?thesis by (simp add: moveFwdAggregate_def)
qed

text \<open>The signature of a block that takes a block holds two closing angle brackets; the parser
  stops at the first one and aborts at the second.\<close>

theorem nested_block_aborts:
  "handle wit_junk (''v@?<v@?@?<v@?>>'' @ [NUL]) True True InvalidValue = Inl Abort"
  by code_simp

text \<open>\<open>parse_type_codes\<close> on the codes of two variable arguments behind three fixed ones: the first
  code is taken for the result, and the assertion on the number of fixed arguments fails.\<close>

theorem parse_type_codes_aborts:
  "parse_type_codes wit_junk (''ii'' @ [NUL]) 3 True True = Inl Abort"
  by code_simp
end
