(* ===== verification/Fmtstr_Parser.thy ===== *)
theory Fmtstr_Parser
  imports Types_Parser Types_Fuel
begin

text \<open>
  \<open>tcg/abibridge/variadic-function/fmtstrParser.c\<close>: from a \<open>printf\<close> or \<open>scanf\<close> format string to the
  type encoding of the call, and through \<open>typesParser.c\<close> to its argument locations.  Strings are
  modelled as in \<open>Types_Parser\<close>: the rest of the array, with its terminating NUL.  The loops over
  the placeholders need not end, so they carry fuel.
\<close>

section \<open>Fields of a placeholder\<close>

definition FIELD_FLAGS_PARSED :: u32 where "FIELD_FLAGS_PARSED = 1"
definition FIELD_WIDTH_PARSED :: u32 where "FIELD_WIDTH_PARSED = 2"
definition FIELD_PRECISION_PARSED :: u32 where "FIELD_PRECISION_PARSED = 4"
definition FIELD_LENGTH_PARSED :: u32 where "FIELD_LENGTH_PARSED = 8"

definition PRINTF_FIELD_ALL_PARSED :: u32 where
  "PRINTF_FIELD_ALL_PARSED =
     FIELD_FLAGS_PARSED OR FIELD_WIDTH_PARSED OR FIELD_PRECISION_PARSED OR FIELD_LENGTH_PARSED"

definition SCANF_FIELD_ALL_PARSED :: u32 where
  "SCANF_FIELD_ALL_PARSED = FIELD_WIDTH_PARSED OR FIELD_LENGTH_PARSED"

lemmas field_defs =
  FIELD_FLAGS_PARSED_def FIELD_WIDTH_PARSED_def FIELD_PRECISION_PARSED_def FIELD_LENGTH_PARSED_def
  PRINTF_FIELD_ALL_PARSED_def SCANF_FIELD_ALL_PARSED_def

definition parse_parameter_field :: "string \<Rightarrow> (u32 \<times> string) result" where
  "parse_parameter_field s =
     bindR (deref s) (\<lambda>c.
     if \<not> is_digit c then Inr (0, s)
     else
       bindR (strtol s) (\<lambda>(v, ed).
       bindR (deref ed) (\<lambda>d.
       if d = CHR ''$'' then Inr (of_int v, tl ed) else Inr (0, s))))"

text \<open>
  \<open>while (strchr(set, *str)) ++str\<close>.  The terminator counts as a member, so the loop runs over
  the end of the string.
\<close>

fun skip_members :: "string \<Rightarrow> string \<Rightarrow> string result" where
  "skip_members members [] = Inl Undefined"
| "skip_members members (c # s) = (if strchr members c then skip_members members s else Inr (c # s))"

definition printf_flags :: string where "printf_flags = [CHR ''-'', CHR ''+'', CHR '' '', CHR ''0'', CHR 0x27, CHR ''#'']"
definition length_chars :: string where "length_chars = ''hlLzjtI3264q''"

definition parse_flags_field :: "string \<Rightarrow> u32 \<Rightarrow> (string \<times> u32) result" where
  "parse_flags_field s field_mask =
     bindR (skip_members printf_flags s) (\<lambda>s'.
     Inr (s', if s' = s then field_mask else field_mask OR FIELD_FLAGS_PARSED))"

fun skip_digits :: "string \<Rightarrow> string result" where
  "skip_digits [] = Inl Undefined"
| "skip_digits (c # s) = (if is_digit c then skip_digits s else Inr (c # s))"

text \<open>
  The part behind an asterisk, shared by width and precision: in a numbered conversion the
  position of the argument, with or without the dollar sign that should follow it.
\<close>

definition parse_star :: "string \<Rightarrow> bool \<Rightarrow> (u32 \<times> string) result" where
  "parse_star s numbered =
     (if numbered then
        bindR (strtol s) (\<lambda>(v, ed).
        bindR (deref ed) (\<lambda>d. if d = CHR ''$'' then Inr (of_int v, tl ed) else Inr (of_int v, s)))
      else Inr (0, s))"

text \<open>Results: position, \<open>*asterisk\<close>, \<open>*pos_ell\<close> and the field mask.\<close>

definition parse_width_field :: "string \<Rightarrow> bool \<Rightarrow> u32 \<Rightarrow> (string \<times> bool \<times> u32 \<times> u32) result" where
  "parse_width_field s numbered field_mask =
     bindR (deref s) (\<lambda>c.
     if c = CHR ''*'' then
       bindR (parse_star (tl s) numbered) (\<lambda>(pos, s').
       Inr (s', True, pos, field_mask OR FIELD_WIDTH_PARSED))
     else
       bindR (skip_digits s) (\<lambda>s'.
       Inr (s', False, 0, if s' = s then field_mask else field_mask OR FIELD_WIDTH_PARSED)))"

definition parse_precision_field :: "string \<Rightarrow> bool \<Rightarrow> u32 \<Rightarrow> (string \<times> bool \<times> u32 \<times> u32) result" where
  "parse_precision_field s numbered field_mask =
     bindR (deref s) (\<lambda>c.
     if c \<noteq> CHR ''.'' then Inr (s, False, 0, field_mask)
     else
       let mask' = field_mask OR FIELD_PRECISION_PARSED in
       bindR (deref (tl s)) (\<lambda>d.
       if d = CHR ''*'' then
         bindR (parse_star (tl (tl s)) numbered) (\<lambda>(pos, s'). Inr (s', True, pos, mask'))
       else bindR (skip_digits (tl s)) (\<lambda>s'. Inr (s', False, 0, mask'))))"

definition parse_length_field :: "string \<Rightarrow> u32 \<Rightarrow> (string \<times> u32) result" where
  "parse_length_field s field_mask =
     bindR (skip_members length_chars s) (\<lambda>s'.
     Inr (s', if s' = s then field_mask else field_mask OR FIELD_LENGTH_PARSED))"

section \<open>The type of the argument\<close>

datatype arg_type =
  FS_TYPE_NONE | FS_TYPE_INT | FS_TYPE_UINT | FS_TYPE_DOUBLE | FS_TYPE_POINTER | FS_TYPE_CHAR

fun ty_char :: "arg_type \<Rightarrow> char" where
  "ty_char FS_TYPE_NONE = NUL"
| "ty_char FS_TYPE_INT = CHR ''i''"
| "ty_char FS_TYPE_UINT = CHR ''I''"
| "ty_char FS_TYPE_DOUBLE = CHR ''d''"
| "ty_char FS_TYPE_POINTER = CHR ''*''"
| "ty_char FS_TYPE_CHAR = CHR ''c''"

definition printf_type :: "char \<Rightarrow> arg_type option" where
  "printf_type c =
     (if c = CHR ''%'' then Some FS_TYPE_NONE
      else if c \<in> set ''di'' then Some FS_TYPE_INT
      else if c \<in> set ''uxXo'' then Some FS_TYPE_UINT
      else if c \<in> set ''fFeEgGaA'' then Some FS_TYPE_DOUBLE
      else if c \<in> set ''sS@pn'' then Some FS_TYPE_POINTER
      else if c \<in> set ''cC'' then Some FS_TYPE_CHAR
      else None)"

definition scanf_type :: "char \<Rightarrow> arg_type option" where
  "scanf_type c =
     (if c = CHR ''%'' then Some FS_TYPE_NONE
      else if c \<in> set ''diuoxfegacspn['' then Some FS_TYPE_POINTER
      else None)"

text \<open>The outcome \<open>None\<close> is the result NULL.\<close>

function parse_type_field :: "string \<Rightarrow> (string \<times> arg_type) option result" where
  "parse_type_field s =
     bindR (deref s) (\<lambda>c.
     if c = CHR ''{'' then bindR (skip_past (CHR ''}'') s) (\<lambda>s'. parse_type_field s')
     else Inr (map_option (\<lambda>ty. (tl s, ty)) (printf_type c)))"
  by pat_completeness auto
termination
  by (relation "measure length") (auto dest: skip_past_length)

declare parse_type_field.simps [simp del]

function parse_specifier_field :: "string \<Rightarrow> (string \<times> arg_type) option result" where
  "parse_specifier_field s =
     bindR (deref s) (\<lambda>c.
     if c = CHR ''{'' then bindR (skip_past (CHR ''}'') s) (\<lambda>s'. parse_specifier_field s')
     else
       (case scanf_type c of
          None \<Rightarrow> Inr None
        | Some ty \<Rightarrow>
            if c = CHR ''['' then bindR (skip_past (CHR '']'') s) (\<lambda>s'. Inr (Some (s', ty)))
            else Inr (Some (tl s, ty))))"
  by pat_completeness auto
termination
  by (relation "measure length") (auto dest: skip_past_length)

declare parse_specifier_field.simps [simp del]

fun move_behind_percent :: "string \<Rightarrow> string result" where
  "move_behind_percent [] = Inl Undefined"
| "move_behind_percent (c # s) =
     (if c = NUL then Inr (c # s) else if c = CHR ''%'' then Inr s else move_behind_percent s)"

section \<open>The loop of \<open>parse_fmtstr\<close>\<close>

text \<open>
  The state is the set of local variables of the function.  \<open>fs_types\<close> holds the characters of
  the \<open>GString\<close>, which can contain a NUL before their end.
\<close>

record fmt_state =
  fs_str :: string
  fs_types :: string
  new_round :: bool
  fs_field_mask :: u32
  pos_in_ellipsis :: u32
  idx_in_types :: u32
  width_idx_in_types :: u32
  precision_idx_in_types :: u32
  need_extra_param_for_width :: bool
  need_extra_param_for_precision :: bool

definition strlen :: "string \<Rightarrow> nat" where
  "strlen s = length (takeWhile (\<lambda>c. c \<noteq> NUL) s)"

text \<open>\<open>if (size < idx + 1) for (cnt = idx + 1 - size; cnt != 0; --cnt) append('*')\<close>\<close>

definition pad_types :: "string \<Rightarrow> u32 \<Rightarrow> string" where
  "pad_types types idx =
     (let len = of_nat (strlen types) in
      if len < idx + 1 then types @ replicate (unat (idx + 1 - len)) (ty_char FS_TYPE_POINTER) else types)"

text \<open>\<open>types->str[idx] = c\<close>\<close>

definition put_type :: "string \<Rightarrow> u32 \<Rightarrow> char \<Rightarrow> string result" where
  "put_type types idx c = (if unat idx < length types then Inr (types[unat idx := c]) else Inl Undefined)"

text \<open>The start of a round; the outcome \<open>None\<close> is the end of the loop.\<close>

definition printf_round :: "u32 \<Rightarrow> fmt_state \<Rightarrow> fmt_state option result" where
  "printf_round nfixed st =
     (if \<not> new_round st then Inr (Some st)
      else
        bindR (move_behind_percent (fs_str st)) (\<lambda>s.
        bindR (deref s) (\<lambda>c.
        if c = NUL then Inr None
        else
          bindR (parse_parameter_field s) (\<lambda>(pos, s').
          Inr (Some (st\<lparr>fs_str := s', fs_field_mask := 0, pos_in_ellipsis := pos, idx_in_types := nfixed + pos,
                        fs_types := pad_types (fs_types st) (nfixed + pos)\<rparr>))))))"

definition printf_flags_step :: "fmt_state \<Rightarrow> fmt_state result" where
  "printf_flags_step st =
     (if fs_field_mask st AND FIELD_FLAGS_PARSED \<noteq> 0 then Inr st
      else
        bindR (parse_flags_field (fs_str st) (fs_field_mask st)) (\<lambda>(s, mask).
        Inr (st\<lparr>fs_str := s, fs_field_mask := mask\<rparr>)))"

definition printf_width_step :: "u32 \<Rightarrow> fmt_state \<Rightarrow> fmt_state result" where
  "printf_width_step nfixed st =
     (if fs_field_mask st AND FIELD_WIDTH_PARSED \<noteq> 0 then Inr st
      else
        bindR (parse_width_field (fs_str st) (pos_in_ellipsis st \<noteq> 0) (fs_field_mask st))
          (\<lambda>(s, asterisk, pos, mask).
        Inr (st\<lparr>fs_str := s, need_extra_param_for_width := asterisk, fs_field_mask := mask,
                width_idx_in_types := nfixed + pos,
                fs_types := pad_types (fs_types st) (nfixed + pos)\<rparr>)))"

definition printf_precision_step :: "u32 \<Rightarrow> fmt_state \<Rightarrow> fmt_state result" where
  "printf_precision_step nfixed st =
     (if fs_field_mask st AND FIELD_PRECISION_PARSED \<noteq> 0 then Inr st
      else
        bindR (parse_precision_field (fs_str st) (pos_in_ellipsis st \<noteq> 0) (fs_field_mask st))
          (\<lambda>(s, asterisk, pos, mask).
        Inr (st\<lparr>fs_str := s, need_extra_param_for_precision := asterisk, fs_field_mask := mask,
                precision_idx_in_types := nfixed + pos,
                fs_types := pad_types (fs_types st) (nfixed + pos)\<rparr>)))"

definition length_step :: "fmt_state \<Rightarrow> fmt_state result" where
  "length_step st =
     (if fs_field_mask st AND FIELD_LENGTH_PARSED \<noteq> 0 then Inr st
      else
        bindR (parse_length_field (fs_str st) (fs_field_mask st)) (\<lambda>(s, mask).
        Inr (st\<lparr>fs_str := s, fs_field_mask := mask\<rparr>)))"

text \<open>The end of a placeholder: its argument types go into the encoding.\<close>

definition printf_store :: "fmt_state \<Rightarrow> arg_type \<Rightarrow> string result" where
  "printf_store st ty =
     (let types = fs_types st; i = ty_char FS_TYPE_INT in
      if pos_in_ellipsis st \<noteq> 0 then
        bindR (put_type types (idx_in_types st) (ty_char ty)) (\<lambda>t1.
        bindR (if need_extra_param_for_width st then put_type t1 (width_idx_in_types st) i else Inr t1) (\<lambda>t2.
        if need_extra_param_for_precision st then put_type t2 (precision_idx_in_types st) i else Inr t2))
      else
        Inr (types
             @ (if need_extra_param_for_width st then [i] else [])
             @ (if need_extra_param_for_precision st then [i] else [])
             @ (if ty \<noteq> FS_TYPE_NONE then [ty_char ty] else [])))"

definition printf_fields :: "u32 \<Rightarrow> fmt_state \<Rightarrow> fmt_state result" where
  "printf_fields nfixed st =
     bindR (printf_flags_step st) (\<lambda>st1.
     bindR (printf_width_step nfixed st1) (\<lambda>st2.
     bindR (printf_precision_step nfixed st2) length_step))"

definition printf_type_step :: "fmt_state \<Rightarrow> fmt_state result" where
  "printf_type_step st =
     bindR (parse_type_field (fs_str st)) (\<lambda>r.
     case r of
       None \<Rightarrow>
         if fs_field_mask st = PRINTF_FIELD_ALL_PARSED then Inl Abort
         else Inr (st\<lparr>new_round := False\<rparr>)
     | Some (s, ty) \<Rightarrow>
         bindR (printf_store st ty) (\<lambda>types. Inr (st\<lparr>fs_str := s, fs_types := types, new_round := True\<rparr>)))"

fun printf_loop :: "nat \<Rightarrow> u32 \<Rightarrow> fmt_state \<Rightarrow> string result" where
  "printf_loop 0 nfixed st = Inl OutOfFuel"
| "printf_loop (Suc n) nfixed st =
     bindR (printf_round nfixed st) (\<lambda>r.
     case r of
       None \<Rightarrow> Inr (fs_types st)
     | Some st1 \<Rightarrow>
         bindR (printf_fields nfixed st1) (\<lambda>st2. bindR (printf_type_step st2) (printf_loop n nfixed)))"

definition fmt_start :: "string \<Rightarrow> string \<Rightarrow> fmt_state" where
  "fmt_start s types =
     \<lparr>fs_str = s, fs_types = types, new_round = True, fs_field_mask = 0, pos_in_ellipsis = 0, idx_in_types = 0,
      width_idx_in_types = 0, precision_idx_in_types = 0, need_extra_param_for_width = False,
      need_extra_param_for_precision = False\<rparr>"

definition printf_types :: "nat \<Rightarrow> string \<Rightarrow> u32 \<Rightarrow> string result" where
  "printf_types n s nfixed =
     printf_loop n nfixed (fmt_start s (replicate (Suc (unat nfixed)) (ty_char FS_TYPE_POINTER)))"

definition parse_fmtstr ::
  "nat \<Rightarrow> x86_64_reg_class list \<Rightarrow> string \<Rightarrow> u32 \<Rightarrow> bool \<Rightarrow> bool
   \<Rightarrow> (bool \<times> ABIFnInfo option \<times> ABIFnInfo option) result" where
  "parse_fmtstr n junk s nfixed wantAa wantXx =
     bindR (printf_types n s nfixed) (\<lambda>types.
     get_vari_fn_info_from_types junk (types @ [NUL]) nfixed wantAa wantXx)"

section \<open>The loop of \<open>parse_scanf_fmtstr\<close>\<close>

record scanf_state =
  sc_str :: string
  sc_types :: string
  sc_new_round :: bool
  sc_field_mask :: u32
  sc_pos_in_ellipsis :: u32
  sc_idx_in_types :: u32
  sc_ignore :: bool

definition scanf_round :: "u32 \<Rightarrow> scanf_state \<Rightarrow> scanf_state option result" where
  "scanf_round idxOfFmt st =
     (if \<not> sc_new_round st then Inr (Some st)
      else
        bindR (move_behind_percent (sc_str st)) (\<lambda>s.
        bindR (deref s) (\<lambda>c.
        if c = NUL then Inr None
        else
          bindR (parse_parameter_field s) (\<lambda>(pos, s1).
          bindR (deref s1) (\<lambda>d.
          let idx = idxOfFmt + pos + 1; star = (d = CHR ''*'') in
          Inr (Some (st\<lparr>sc_str := (if star then tl s1 else s1), sc_field_mask := 0,
                        sc_pos_in_ellipsis := pos, sc_idx_in_types := idx,
                        sc_types := pad_types (sc_types st) idx, sc_ignore := star\<rparr>)))))))"

definition scanf_width_step :: "scanf_state \<Rightarrow> scanf_state result" where
  "scanf_width_step st =
     (if sc_field_mask st AND FIELD_WIDTH_PARSED \<noteq> 0 then Inr st
      else
        bindR (parse_width_field (sc_str st) (sc_pos_in_ellipsis st \<noteq> 0) (sc_field_mask st))
          (\<lambda>(s, _, _, mask). Inr (st\<lparr>sc_str := s, sc_field_mask := mask\<rparr>)))"

definition scanf_length_step :: "scanf_state \<Rightarrow> scanf_state result" where
  "scanf_length_step st =
     (if sc_field_mask st AND FIELD_LENGTH_PARSED \<noteq> 0 then Inr st
      else
        bindR (parse_length_field (sc_str st) (sc_field_mask st))
          (\<lambda>(s, mask). Inr (st\<lparr>sc_str := s, sc_field_mask := mask\<rparr>)))"

definition scanf_store :: "scanf_state \<Rightarrow> arg_type \<Rightarrow> string result" where
  "scanf_store st ty =
     (if sc_pos_in_ellipsis st \<noteq> 0 then put_type (sc_types st) (sc_idx_in_types st) (ty_char ty)
      else Inr (sc_types st @ (if \<not> sc_ignore st \<and> ty \<noteq> FS_TYPE_NONE then [ty_char ty] else [])))"

definition scanf_specifier_step :: "scanf_state \<Rightarrow> scanf_state result" where
  "scanf_specifier_step st =
     bindR (parse_specifier_field (sc_str st)) (\<lambda>r.
     case r of
       None \<Rightarrow>
         if sc_field_mask st = SCANF_FIELD_ALL_PARSED then Inl Abort
         else Inr (st\<lparr>sc_new_round := False\<rparr>)
     | Some (s, ty) \<Rightarrow>
         bindR (scanf_store st ty) (\<lambda>types. Inr (st\<lparr>sc_str := s, sc_types := types, sc_new_round := True\<rparr>)))"

fun scanf_loop :: "nat \<Rightarrow> u32 \<Rightarrow> scanf_state \<Rightarrow> string result" where
  "scanf_loop 0 idxOfFmt st = Inl OutOfFuel"
| "scanf_loop (Suc n) idxOfFmt st =
     bindR (scanf_round idxOfFmt st) (\<lambda>r.
     case r of
       None \<Rightarrow> Inr (sc_types st)
     | Some st1 \<Rightarrow>
         bindR (scanf_width_step st1) (\<lambda>st2.
         bindR (scanf_length_step st2) (\<lambda>st3.
         bindR (scanf_specifier_step st3) (scanf_loop n idxOfFmt))))"

text \<open>The loop over \<open>i \<le> idxOfFmt\<close> does not end for the largest unsigned number.\<close>

definition scanf_types :: "nat \<Rightarrow> string \<Rightarrow> u32 \<Rightarrow> string result" where
  "scanf_types n s idxOfFmt =
     (if idxOfFmt = NOT 0 then Inl OutOfFuel
      else
        scanf_loop n idxOfFmt
          \<lparr>sc_str = s,
           sc_types = ty_char FS_TYPE_INT # replicate (Suc (unat idxOfFmt)) (ty_char FS_TYPE_POINTER),
           sc_new_round = True, sc_field_mask = 0, sc_pos_in_ellipsis = 0, sc_idx_in_types = 0,
           sc_ignore = False\<rparr>)"

definition parse_scanf_fmtstr ::
  "nat \<Rightarrow> x86_64_reg_class list \<Rightarrow> string \<Rightarrow> u32 \<Rightarrow> bool \<Rightarrow> bool
   \<Rightarrow> (bool \<times> ABIFnInfo option \<times> ABIFnInfo option) result" where
  "parse_scanf_fmtstr n junk s idxOfFmt wantAa wantXx =
     bindR (scanf_types n s idxOfFmt) (\<lambda>types.
     get_vari_fn_info_from_types junk (types @ [NUL]) (idxOfFmt + 1) wantAa wantXx)"

end
