(* ===== verification/Fmtstr_Spec.thy ===== *)
theory Fmtstr_Spec
  imports Fmtstr_Parser Types_Handle
begin

text \<open>
  Well-formed \<open>printf\<close> formats and what \<open>parse_fmtstr\<close> makes of them, down to the argument types
  that \<open>typesParser.c\<close> reads from the encoding it builds.  The last section shows formats on
  which it does not return, leaves the string or loses arguments.
\<close>

section \<open>Well-formed \<open>printf\<close> formats\<close>

text \<open>A number in a field: none, digits, or an asterisk that takes an argument.\<close>

datatype num_field = NoNum | Digits string | Star

datatype piece =
  Lit string
| Conv string num_field "num_field option" string char

fun render_num :: "num_field \<Rightarrow> string" where
  "render_num NoNum = []"
| "render_num (Digits ds) = ds"
| "render_num Star = ''*''"

fun render :: "piece \<Rightarrow> string" where
  "render (Lit s) = s"
| "render (Conv flags width prec len c) =
     ''%'' @ flags @ render_num width
     @ (case prec of None \<Rightarrow> [] | Some p \<Rightarrow> ''.'' @ render_num p) @ len @ [c]"

text \<open>
  Flags, a width that does not start with the flag zero, a precision, length modifiers other
  than the numeric ones, and a conversion character that the parser knows.
\<close>

fun ok_num :: "num_field \<Rightarrow> bool" where
  "ok_num (Digits ds) \<longleftrightarrow> list_all is_digit ds"
| "ok_num _ \<longleftrightarrow> True"

fun ok_piece :: "piece \<Rightarrow> bool" where
  "ok_piece (Lit s) \<longleftrightarrow> CHR ''%'' \<notin> set s \<and> NUL \<notin> set s"
| "ok_piece (Conv flags width prec len c) \<longleftrightarrow>
     set flags \<subseteq> set printf_flags \<and> ok_num width
     \<and> (\<forall>ds. width = Digits ds \<longrightarrow> ds \<noteq> [] \<and> hd ds \<noteq> CHR ''0'')
     \<and> (case prec of None \<Rightarrow> True | Some p \<Rightarrow> ok_num p)
     \<and> set len \<subseteq> set ''hlLzjtq'' \<and> printf_type c \<noteq> None"

text \<open>The arguments a placeholder takes, as type codes.\<close>

definition star_code :: "num_field \<Rightarrow> string" where
  "star_code w = (if w = Star then ''i'' else [])"

fun codes :: "piece \<Rightarrow> string" where
  "codes (Lit s) = []"
| "codes (Conv flags width prec len c) =
     star_code width @ (case prec of None \<Rightarrow> [] | Some p \<Rightarrow> star_code p)
     @ (case printf_type c of None \<Rightarrow> [] | Some ty \<Rightarrow> if ty = FS_TYPE_NONE then [] else [ty_char ty])"

section \<open>Each field of a placeholder\<close>

lemma skip_members_append:
  assumes "set p \<subseteq> set members" "\<not> strchr members c"
  shows "skip_members members (p @ c # s) = Inr (c # s)"
  using assms by (induction p) (auto simp: strchr_def)

lemma skip_digits_append: "list_all is_digit p \<Longrightarrow> \<not> is_digit c \<Longrightarrow> skip_digits (p @ c # s) = Inr (c # s)"
  by (induction p) auto

lemma conv_char:
  assumes "printf_type c \<noteq> None"
  shows "\<not> is_digit c" "\<not> strchr printf_flags c" "\<not> strchr length_chars c" "c \<noteq> CHR ''*''" "c \<noteq> CHR ''.''"
    "c \<noteq> CHR ''$''" "c \<noteq> CHR ''{''"  "c \<notin> set ''hlLzjtq''"
proof -
  have "c \<in> set ''%diuxXofFeEgGaAsS@pncC''"
    using assms by (rule contrapos_np) (simp add: printf_type_def)
  then show "\<not> is_digit c" "\<not> strchr printf_flags c" "\<not> strchr length_chars c" "c \<noteq> CHR ''*''" "c \<noteq> CHR ''.''"
    "c \<noteq> CHR ''$''" "c \<noteq> CHR ''{''"  "c \<notin> set ''hlLzjtq''"
    by (auto simp: is_digit_def strchr_def printf_flags_def length_chars_def NUL_def)
qed

lemma parse_parameter_none:
  assumes "CHR ''$'' \<notin> set p" "\<not> is_digit c" "c \<noteq> CHR ''$''"
  shows "parse_parameter_field (p @ c # s) = Inr (0, p @ c # s)"
proof (cases p)
  case Nil
  with assms show ?thesis by (simp add: parse_parameter_field_def deref_def)
next
  case (Cons d p')
  show ?thesis
  proof (cases "is_digit d")
    case True
    then have sign: "strtol_sign (dropWhile is_space (p @ c # s)) = (False, p @ c # s)"
      using digit_not_space [OF True] by (simp add: Cons strtol_sign_def)
    obtain e r where e: "dropWhile is_digit (p @ c # s) = e # r" "e \<noteq> CHR ''$''"
    proof (cases "dropWhile is_digit p")
      case Nil
      then have "list_all is_digit p" by (simp add: dropWhile_eq_Nil_conv list_all_iff)
      then have "dropWhile is_digit (p @ c # s) = c # s" using assms(2) by (simp add: list_all_iff)
      then show thesis using that assms(3) by blast
    next
      case (Cons e r)
      then have "dropWhile is_digit (p @ c # s) = e # r @ c # s"
        by (auto simp: dropWhile_append dropWhile_eq_Nil_conv [symmetric])
      moreover have "e \<in> set p" using Cons by (metis list.set_intros(1) set_dropWhileD)
      ultimately show thesis using that assms(1) by metis
    qed
    moreover have "takeWhile is_digit (p @ c # s) \<noteq> []" using True Cons by simp
    ultimately obtain v where "strtol (p @ c # s) = Inr (v, e # r)"
      unfolding strtol_def sign Let_def prod.case by simp
    then show ?thesis using True e(2) by (simp add: parse_parameter_field_def Cons deref_def)
  next
    case False
    then show ?thesis by (simp add: parse_parameter_field_def deref_def Cons)
  qed
qed

definition num_args :: "num_field \<Rightarrow> bool" where
  "num_args w \<longleftrightarrow> w = Star"

lemma width_field:
  assumes "ok_num w" "\<not> is_digit c" "c \<noteq> CHR ''*''"
  shows "parse_width_field (render_num w @ c # s) False fm
    = Inr (c # s, num_args w, 0, if render_num w = [] then fm else fm OR FIELD_WIDTH_PARSED)"
proof (cases w)
  case (Digits ds)
  then have "skip_digits (ds @ c # s) = Inr (c # s)" using assms by (intro skip_digits_append) simp_all
  moreover have "\<exists>d r. ds @ c # s = d # r \<and> d \<noteq> CHR ''*''"
    using assms Digits by (cases ds) (auto simp: is_digit_def)
  ultimately show ?thesis using Digits by (auto simp: parse_width_field_def num_args_def deref_def)
qed (use assms in \<open>simp_all add: parse_width_field_def num_args_def deref_def parse_star_def\<close>)

lemma precision_field:
  assumes "case p of None \<Rightarrow> True | Some w \<Rightarrow> ok_num w" "\<not> is_digit c" "c \<noteq> CHR ''*''" "c \<noteq> CHR ''.''"
  shows "parse_precision_field ((case p of None \<Rightarrow> [] | Some w \<Rightarrow> ''.'' @ render_num w) @ c # s) False fm
    = Inr (c # s, p = Some Star, 0, if p = None then fm else fm OR FIELD_PRECISION_PARSED)"
proof (cases p)
  case (Some w)
  show ?thesis
  proof (cases w)
    case (Digits ds)
    then have "skip_digits (ds @ c # s) = Inr (c # s)" using assms Some by (intro skip_digits_append) simp_all
    moreover have "\<exists>d r. ds @ c # s = d # r \<and> d \<noteq> CHR ''*''"
      using assms Digits Some by (cases ds) (auto simp: is_digit_def)
    ultimately show ?thesis using Digits Some by (auto simp: parse_precision_field_def deref_def Let_def)
  qed (use assms Some in \<open>simp_all add: parse_precision_field_def deref_def parse_star_def Let_def\<close>)
qed (use assms in \<open>simp add: parse_precision_field_def deref_def\<close>)

lemma length_field:
  assumes "set len \<subseteq> set ''hlLzjtq''" "\<not> strchr length_chars c"
  shows "parse_length_field (len @ c # s) fm
    = Inr (c # s, if len = [] then fm else fm OR FIELD_LENGTH_PARSED)"
proof -
  have "d \<in> set length_chars" if "d \<in> set ''hlLzjtq''" for d
    using that by (auto simp: length_chars_def)
  with assms(1) have "set len \<subseteq> set length_chars" by blast
  from skip_members_append [OF this assms(2)] show ?thesis by (simp add: parse_length_field_def)
qed

lemma flags_field:
  assumes "set flags \<subseteq> set printf_flags" "\<not> strchr printf_flags c"
  shows "parse_flags_field (flags @ c # s) fm
    = Inr (c # s, if flags = [] then fm else fm OR FIELD_FLAGS_PARSED)"
  using skip_members_append [OF assms] by (simp add: parse_flags_field_def)

section \<open>One placeholder\<close>

lemma pad_types_id:
  assumes "NUL \<notin> set types" "unat nfixed < length types" "length types < 2 ^ 32"
  shows "pad_types types nfixed = types"
proof -
  have "strlen types = length types"
  proof -
    have "takeWhile (\<lambda>c. c \<noteq> NUL) types = types"
      by (rule takeWhile_eq_all_conv [THEN iffD2]) (use assms(1) in blast)
    then show ?thesis by (simp only: strlen_def)
  qed
  moreover have "unat (nfixed + 1) = unat nfixed + 1"
    using assms(2,3) unat_add_lem [of nfixed 1] by simp
  moreover have "unat (of_nat (length types) :: u32) = length types"
    using assms(3) by (simp add: unat_of_nat)
  ultimately have "\<not> (of_nat (strlen types) :: u32) < nfixed + 1"
    using assms(2) by (simp add: word_less_nat_alt)
  then show ?thesis by (simp add: pad_types_def Let_def)
qed

lemma len_letter:
  assumes "d \<in> set ''hlLzjtq''"
  shows "\<not> is_digit d" "\<not> strchr printf_flags d" "d \<noteq> CHR ''*''" "d \<noteq> CHR ''.''" "d \<noteq> CHR ''$''"
  using assms by (auto simp: is_digit_def strchr_def printf_flags_def NUL_def)

lemma digit_not_flag: "is_digit d \<Longrightarrow> d \<noteq> CHR ''0'' \<Longrightarrow> \<not> strchr printf_flags d"
  by (auto simp: is_digit_def strchr_def printf_flags_def NUL_def)

definition prec_str :: "num_field option \<Rightarrow> string" where
  "prec_str prec = (case prec of None \<Rightarrow> [] | Some p \<Rightarrow> ''.'' @ render_num p)"

lemma head_len:
  assumes "set len \<subseteq> set ''hlLzjtq''" "printf_type c \<noteq> None"
  obtains d r where "len @ c # s = d # r" "\<not> is_digit d" "\<not> strchr printf_flags d" "d \<noteq> CHR ''*''" "d \<noteq> CHR ''.''"
proof (cases len)
  case Nil
  then show thesis using that conv_char [OF assms(2)] by simp
next
  case (Cons d len')
  then have "d \<in> set ''hlLzjtq''" using assms(1) by auto
  from len_letter [OF this] that [of d "len' @ c # s"] Cons show thesis by simp
qed

lemma head_prec:
  assumes "set len \<subseteq> set ''hlLzjtq''" "printf_type c \<noteq> None"
  obtains d r where "prec_str prec @ len @ c # s = d # r" "\<not> is_digit d" "\<not> strchr printf_flags d" "d \<noteq> CHR ''*''"
proof (cases prec)
  case None
  then show thesis using that head_len [OF assms] by (metis append_Nil option.case(1) prec_str_def)
next
  case (Some p)
  show thesis
    by (rule that [of "CHR ''.''"]) (simp_all add: prec_str_def Some is_digit_def strchr_def printf_flags_def NUL_def)
qed

lemma head_width:
  assumes "ok_piece (Conv flags width prec len c)"
  obtains d r where "render_num width @ prec_str prec @ len @ c # s = d # r" "\<not> strchr printf_flags d"
proof (cases width)
  case NoNum
  have "set len \<subseteq> set ''hlLzjtq''" "printf_type c \<noteq> None" using assms by simp_all
  then obtain d r where "prec_str prec @ len @ c # s = d # r" "\<not> strchr printf_flags d"
    by (rule head_prec)
  then show thesis using that NoNum by simp
next
  case (Digits ds)
  then obtain d ds' where "ds = d # ds'" "is_digit d" "d \<noteq> CHR ''0''" using assms by (cases ds) auto
  then show thesis using that digit_not_flag Digits by simp
next
  case Star
  show thesis
    by (rule that [of "CHR ''*''"]) (simp_all add: Star strchr_def printf_flags_def NUL_def)
qed

lemma no_dollar:
  assumes "ok_piece (Conv flags width prec len c)"
  shows "CHR ''$'' \<notin> set (flags @ render_num width @ prec_str prec @ len)"
proof -
  have d: "list_all is_digit ds \<Longrightarrow> CHR ''$'' \<notin> set ds" for ds
    by (auto simp: list_all_iff is_digit_def)
  have n: "ok_num w \<Longrightarrow> CHR ''$'' \<notin> set (render_num w)" for w
    using d by (cases w) auto
  have "CHR ''$'' \<notin> set flags" using assms by (auto simp: printf_flags_def)
  moreover have "CHR ''$'' \<notin> set len" using assms by auto
  moreover have "CHR ''$'' \<notin> set (render_num width)" using assms n by simp
  moreover have "CHR ''$'' \<notin> set (prec_str prec)" using assms n by (auto simp: prec_str_def split: option.splits)
  ultimately show ?thesis by simp
qed

text \<open>The state behind the fields of a placeholder; only the mask depends on which are present.\<close>

lemma round_and_fields:
  assumes ok: "ok_piece (Conv flags width prec len c)" and new: "new_round st"
    and types: "NUL \<notin> set (fs_types st)" "unat nfixed < length (fs_types st)" "length (fs_types st) < 2 ^ 32"
    and str: "fs_str st = render (Conv flags width prec len c) @ s"
  shows "\<exists>st1 st2. printf_round nfixed st = Inr (Some st1) \<and> printf_fields nfixed st1 = Inr st2
    \<and> fs_str st2 = c # s \<and> fs_types st2 = fs_types st \<and> pos_in_ellipsis st2 = 0
    \<and> need_extra_param_for_width st2 = (width = Star) \<and> need_extra_param_for_precision st2 = (prec = Some Star)"
proof -
  let ?p3 = "len @ c # s" and ?p2 = "prec_str prec @ len @ c # s"
  let ?p1 = "render_num width @ prec_str prec @ len @ c # s"
  let ?p0 = "flags @ render_num width @ prec_str prec @ len @ c # s"
  have cond: "set len \<subseteq> set ''hlLzjtq''" "printf_type c \<noteq> None" "ok_num width"
    "case prec of None \<Rightarrow> True | Some w \<Rightarrow> ok_num w" "set flags \<subseteq> set printf_flags"
    using ok by simp_all
  note pad = pad_types_id [OF types]
  have mv: "move_behind_percent (fs_str st) = Inr ?p0"
    by (simp add: str prec_str_def NUL_def)
  obtain d0 r0 where d0: "?p0 = d0 # r0" "d0 \<noteq> NUL"
  proof (cases flags)
    case Nil
    then show thesis using that head_width [OF ok] by (metis append_Nil strchr_def)
  next
    case (Cons f fs)
    then have "f \<noteq> NUL" using cond(5) by (auto simp: printf_flags_def NUL_def)
    then show thesis using that Cons by simp
  qed
  have dr: "deref ?p0 = Inr d0" unfolding d0(1) by (simp add: deref_def)
  have par: "parse_parameter_field ?p0 = Inr (0, ?p0)"
    using parse_parameter_none [OF no_dollar [OF ok] conv_char(1,6) [OF cond(2)]] by simp
  obtain d1 r1 where d1: "?p1 = d1 # r1" "\<not> strchr printf_flags d1"
    using ok by (rule head_width)
  obtain d2 r2 where d2: "?p2 = d2 # r2" "\<not> is_digit d2" "d2 \<noteq> CHR ''*''"
    using cond(1,2) by (rule head_prec)
  obtain d3 r3 where d3: "?p3 = d3 # r3" "\<not> is_digit d3" "d3 \<noteq> CHR ''*''" "d3 \<noteq> CHR ''.''"
    using cond(1,2) by (rule head_len)
  have fl: "parse_flags_field ?p0 fm = Inr (?p1, if flags = [] then fm else fm OR FIELD_FLAGS_PARSED)" for fm
    using flags_field [OF cond(5) d1(2)] by (simp add: d1(1))
  have wi: "parse_width_field ?p1 False fm = Inr (?p2, num_args width, 0,
      if render_num width = [] then fm else fm OR FIELD_WIDTH_PARSED)" for fm
    using width_field [OF cond(3) d2(2,3)] by (simp add: d2(1))
  have pr: "parse_precision_field ?p2 False fm = Inr (?p3, prec = Some Star, 0,
      if prec = None then fm else fm OR FIELD_PRECISION_PARSED)" for fm
    using precision_field [OF cond(4) d3(2-4)] by (simp add: d3(1) prec_str_def)
  have le: "parse_length_field ?p3 fm = Inr (c # s, if len = [] then fm else fm OR FIELD_LENGTH_PARSED)" for fm
    using length_field [OF cond(1) conv_char(3) [OF cond(2)]] .
  define m1 where "m1 = (if flags = [] then 0 else 0 OR FIELD_FLAGS_PARSED)"
  define m2 where "m2 = (if render_num width = [] then m1 else m1 OR FIELD_WIDTH_PARSED)"
  define m3 where "m3 = (if prec = None then m2 else m2 OR FIELD_PRECISION_PARSED)"
  have m: "m1 AND FIELD_WIDTH_PARSED = 0" "m2 AND FIELD_PRECISION_PARSED = 0" "m3 AND FIELD_LENGTH_PARSED = 0"
    by (simp_all add: m1_def m2_def m3_def field_defs)
  have "printf_round nfixed st = Inr (Some (st\<lparr>fs_str := ?p0, fs_field_mask := 0, pos_in_ellipsis := 0,
      idx_in_types := nfixed, fs_types := fs_types st\<rparr>))"
    using new d0(2) dr by (simp add: printf_round_def mv par pad)
  moreover have "printf_flags_step (st\<lparr>fs_str := ?p0, fs_field_mask := 0, pos_in_ellipsis := 0,
      idx_in_types := nfixed, fs_types := fs_types st\<rparr>) = Inr (st\<lparr>fs_str := ?p1, fs_field_mask := m1, pos_in_ellipsis := 0,
      idx_in_types := nfixed, fs_types := fs_types st\<rparr>)"
    by (simp add: printf_flags_step_def fl m1_def)
  ultimately show ?thesis
    using m by (simp add: printf_fields_def printf_width_step_def printf_precision_step_def length_step_def
        wi [of m1, folded m2_def] pr [of m2, folded m3_def] le pad num_args_def)
qed


section \<open>A whole format\<close>

lemma ty_char_not_NUL: "ty \<noteq> FS_TYPE_NONE \<Longrightarrow> NUL \<noteq> ty_char ty"
  by (cases ty) (simp_all add: NUL_def)

lemma codes_not_NUL: "NUL \<notin> set (codes p)"
  by (cases p) (auto simp: star_code_def NUL_def ty_char_not_NUL [unfolded NUL_def] split: option.splits)

lemma type_field:
  assumes "printf_type c = Some ty"
  shows "parse_type_field (c # s) = Inr (Some (s, ty))"
proof -
  have "c \<noteq> CHR ''{''" using conv_char(7) [of c] assms by simp
  then show ?thesis by (subst parse_type_field.simps) (simp add: deref_def assms)
qed

lemma conv_round:
  assumes ok: "ok_piece (Conv flags width prec len c)" and new: "new_round st"
    and types: "NUL \<notin> set (fs_types st)" "unat nfixed < length (fs_types st)" "length (fs_types st) < 2 ^ 32"
    and str: "fs_str st = render (Conv flags width prec len c) @ s"
  shows "\<exists>st'. printf_loop (Suc n) nfixed st = printf_loop n nfixed st' \<and> new_round st' \<and> fs_str st' = s
    \<and> fs_types st' = fs_types st @ codes (Conv flags width prec len c)"
proof -
  obtain st1 st2 where st: "printf_round nfixed st = Inr (Some st1)" "printf_fields nfixed st1 = Inr st2"
    "fs_str st2 = c # s" "fs_types st2 = fs_types st" "pos_in_ellipsis st2 = 0"
    "need_extra_param_for_width st2 = (width = Star)" "need_extra_param_for_precision st2 = (prec = Some Star)"
    using round_and_fields [OF assms] by blast
  obtain ty where ty: "printf_type c = Some ty" using ok by auto
  define T where "T = fs_types st @ codes (Conv flags width prec len c)"
  have "printf_store st2 ty = Inr T"
    using st ty by (auto simp: printf_store_def star_code_def Let_def T_def split: option.splits)
  then have "printf_type_step st2 = Inr (st2\<lparr>fs_str := s, fs_types := T, new_round := True\<rparr>)"
    using type_field [OF ty] st(3) by (simp add: printf_type_step_def)
  then have "printf_loop (Suc n) nfixed st = printf_loop n nfixed (st2\<lparr>fs_str := s, fs_types := T, new_round := True\<rparr>)"
    using st(1,2) by simp
  moreover have "new_round (st2\<lparr>fs_str := s, fs_types := T, new_round := True\<rparr>)"
    "fs_str (st2\<lparr>fs_str := s, fs_types := T, new_round := True\<rparr>) = s"
    "fs_types (st2\<lparr>fs_str := s, fs_types := T, new_round := True\<rparr>) = T" by simp_all
  ultimately show ?thesis unfolding T_def by blast
qed

lemma lit_round:
  assumes "CHR ''%'' \<notin> set l" "NUL \<notin> set l" "new_round st" "fs_str st = l @ s"
  shows "printf_loop n nfixed st = printf_loop n nfixed (st\<lparr>fs_str := s\<rparr>)"
proof -
  have "move_behind_percent (l @ s) = move_behind_percent s"
    using assms(1,2) by (induction l) auto
  then have "printf_round nfixed st = printf_round nfixed (st\<lparr>fs_str := s\<rparr>)"
    using assms(3,4) by (simp add: printf_round_def cong: if_cong)
  then show ?thesis by (cases n) simp_all
qed

definition convs :: "piece list \<Rightarrow> nat" where
  "convs ps = length (filter (\<lambda>p. case p of Lit _ \<Rightarrow> False | _ \<Rightarrow> True) ps)"

lemma printf_loop_pieces:
  "list_all ok_piece ps \<Longrightarrow> new_round st \<Longrightarrow> fs_str st = concat (map render ps) @ [NUL] \<Longrightarrow>
   NUL \<notin> set (fs_types st) \<Longrightarrow> unat nfixed < length (fs_types st) \<Longrightarrow>
   length (fs_types st @ concat (map codes ps)) < 2 ^ 32 \<Longrightarrow> convs ps < n \<Longrightarrow>
   printf_loop n nfixed st = Inr (fs_types st @ concat (map codes ps))"
proof (induction ps arbitrary: st n)
  case Nil
  then obtain n' where "n = Suc n'" by (cases n) auto
  then show ?case using Nil by (simp add: printf_round_def deref_def)
next
  case (Cons p ps)
  show ?case
  proof (cases p)
    case (Lit l)
    have "printf_loop n nfixed st = printf_loop n nfixed (st\<lparr>fs_str := concat (map render ps) @ [NUL]\<rparr>)"
      using Cons.prems Lit by (intro lit_round) auto
    also have "\<dots> = Inr (fs_types st @ concat (map codes ps))"
      using Cons.prems Lit by (subst Cons.IH) (auto simp: convs_def)
    finally show ?thesis by (simp add: Lit)
  next
    case (Conv flags width prec len c)
    then obtain m where m: "n = Suc m" "convs ps < m" using Cons.prems(7) by (cases n) (auto simp: convs_def)
    obtain st' where st': "printf_loop n nfixed st = printf_loop m nfixed st'" "new_round st'"
      "fs_str st' = concat (map render ps) @ [NUL]" "fs_types st' = fs_types st @ codes p"
      using conv_round [of flags width prec len c st nfixed "concat (map render ps) @ [NUL]" m] Cons.prems m(1) Conv
      by (auto simp del: codes.simps render.simps)
    have "printf_loop m nfixed st' = Inr (fs_types st' @ concat (map codes ps))"
      using Cons.prems st' m(2) codes_not_NUL [of p] by (intro Cons.IH) auto
    then show ?thesis using st' by simp
  qed
qed

section \<open>From a format to argument types\<close>

definition code_type :: "char \<Rightarrow> ffi_type" where
  "code_type c = (case simple_type c of Some t \<Rightarrow> t | None \<Rightarrow> ffi_type_void)"

lemma codes_simple: "c \<in> set (codes p) \<Longrightarrow> c \<in> set ''iId*c''"
proof (cases p)
  case (Conv flags width prec len k)
  have "ty \<noteq> FS_TYPE_NONE \<Longrightarrow> ty_char ty \<in> set ''iId*c''" for ty by (cases ty) simp_all
  then show "c \<in> set (codes p) \<Longrightarrow> c \<in> set ''iId*c''"
    by (auto simp: Conv star_code_def split: option.splits if_splits)
qed simp

lemma code_simple_type: "c \<in> set ''iId*c'' \<Longrightarrow> simple_type c \<noteq> None"
  by (auto simp: simple_type_def)

lemma simple_signature:
  assumes "list_all (\<lambda>c. c \<in> set ''iId*c'') (r # cs)" "length cs \<le> 64"
  shows "parse_signature junk (r # cs @ [NUL]) = Inr (code_type r, map code_type cs, 0)"
proof -
  let ?it = "\<lambda>c. (Simple c, None :: nat option)"
  have enc: "encode_sig (?it r) (map ?it cs) = r # cs @ [NUL]"
    by (simp add: encode_sig_def encode_item_def comp_def)
  have ok: "ok_item (?it r)" "list_all ok_item (map ?it cs)"
    using assms(1) code_simple_type by (auto simp: ok_item_def list_all_iff)
  from parse_signature_encode [OF ok] assms(2)
  have "parse_signature junk (encode_sig (?it r) (map ?it cs))
      = Inr (type_of False (Simple r), map (type_of False \<circ> fst) (map ?it cs), blk_mask 0 0 (map ?it cs))"
    by simp
  moreover have "blk_mask k m (map ?it cs) = m" for k m
    by (induction cs arbitrary: k) simp_all
  ultimately show ?thesis
    by (simp add: enc code_type_def comp_def)
qed

lemma list_all_concat: "list_all P (concat xss) \<longleftrightarrow> list_all (list_all P) xss"
  by (auto simp: list_all_iff)

lemma printf_types_pieces:
  assumes "list_all ok_piece ps" "convs ps < n" "unat nfixed + length (concat (map codes ps)) \<le> 64"
  shows "printf_types n (concat (map render ps) @ [NUL]) nfixed
    = Inr (replicate (Suc (unat nfixed)) (CHR ''*'') @ concat (map codes ps))"
  unfolding printf_types_def using assms
  by (subst printf_loop_pieces) (auto simp: fmt_start_def NUL_def)

lemma printf_signature:
  assumes "nf + length (concat (map codes ps)) \<le> 64"
  shows "parse_signature junk ((replicate (Suc nf) (CHR ''*'') @ concat (map codes ps)) @ [NUL])
    = Inr (ffi_type_pointer, replicate nf ffi_type_pointer @ map code_type (concat (map codes ps)), 0)"
proof -
  let ?cs = "concat (map codes ps)"
  have "parse_signature junk (CHR ''*'' # (replicate nf (CHR ''*'') @ ?cs) @ [NUL])
      = Inr (code_type (CHR ''*''), map code_type (replicate nf (CHR ''*'') @ ?cs), 0)"
    using assms codes_simple by (intro simple_signature) (auto simp: list_all_iff)
  moreover have "code_type (CHR ''*'') = ffi_type_pointer" by (simp add: code_type_def simple_type_def)
  ultimately show ?thesis by simp
qed


definition wit_fmt :: "piece list" where
  "wit_fmt =
     [Lit ''n='', Conv ''-0'' (Digits ''12'') (Some Star) ''ll'' (CHR ''d''), Lit '' '',
      Conv [] Star None [] (CHR ''s''), Conv [] NoNum None [] (CHR ''%''),
      Conv [] NoNum (Some (Digits ''3'')) [] (CHR ''g'')]"

lemma wit_fmt_ok: "list_all ok_piece wit_fmt" "convs wit_fmt < 5" "concat (map codes wit_fmt) = ''iii*d''"
  by (simp_all add: wit_fmt_def printf_flags_def printf_type_def is_digit_def convs_def NUL_def star_code_def)


section \<open>Formats that the parser does not handle\<close>

text \<open>A character that no field and no conversion knows.\<close>

definition unknown_conversion :: "char \<Rightarrow> bool" where
  "unknown_conversion c \<longleftrightarrow>
     \<not> strchr printf_flags c \<and> \<not> is_digit c \<and> \<not> strchr length_chars c \<and> printf_type c = None
     \<and> c \<notin> set ''*.{''"

definition stuck :: "u32 \<Rightarrow> char \<Rightarrow> string \<Rightarrow> fmt_state \<Rightarrow> bool" where
  "stuck nfixed c s st \<longleftrightarrow> \<not> new_round st \<and> fs_str st = c # s \<and> fs_field_mask st = 0 \<and> pos_in_ellipsis st = 0"

lemma stuck_fields:
  assumes "unknown_conversion c" "fs_str st = c # s" "fs_field_mask st = 0" "pos_in_ellipsis st = 0"
  shows "\<exists>st' st''. printf_fields nfixed st = Inr st' \<and> printf_type_step st' = Inr st'' \<and> stuck nfixed c s st''"
proof -
  have ty: "parse_type_field (c # s) = Inr None"
    using assms(1) by (subst parse_type_field.simps) (simp add: unknown_conversion_def deref_def)
  show ?thesis
    using assms ty
    by (simp add: unknown_conversion_def printf_fields_def printf_flags_step_def printf_width_step_def
        printf_precision_step_def length_step_def parse_flags_field_def parse_width_field_def
        parse_precision_field_def parse_length_field_def printf_type_step_def deref_def field_defs stuck_def)
qed

lemma stuck_loop: "unknown_conversion c \<Longrightarrow> stuck nfixed c s st \<Longrightarrow> printf_loop n nfixed st = Inl OutOfFuel"
proof (induction n arbitrary: st)
  case (Suc n)
  then have st: "\<not> new_round st" "fs_str st = c # s" "fs_field_mask st = 0" "pos_in_ellipsis st = 0"
    by (simp_all add: stuck_def)
  obtain st' st'' where "printf_fields nfixed st = Inr st'" "printf_type_step st' = Inr st''" "stuck nfixed c s st''"
    using stuck_fields [OF Suc.prems(1) st(2-4)] by blast
  then show ?case using Suc.IH [OF Suc.prems(1)] st(1) by (simp add: printf_round_def)
qed simp

text \<open>C15. A conversion character that the parser does not know, directly behind the percent sign,
  makes \<open>parse_fmtstr\<close> run forever: it calls \<open>abort\<close> only when all four optional fields were present.\<close>

theorem parse_fmtstr_hangs:
  assumes "unknown_conversion c"
  shows "parse_fmtstr n junk (''%'' @ c # s) nfixed wantAa wantXx = Inl OutOfFuel"
proof -
  have c: "c \<noteq> NUL" "\<not> is_digit c" using assms by (auto simp: unknown_conversion_def strchr_def)
  let ?st = "fmt_start (''%'' @ c # s) (replicate (Suc (unat nfixed)) (ty_char FS_TYPE_POINTER))"
  have "printf_loop n nfixed ?st = Inl OutOfFuel"
  proof (cases n)
    case (Suc m)
    obtain st1 where r: "printf_round nfixed ?st = Inr (Some st1)" and st1: "fs_str st1 = c # s"
      "fs_field_mask st1 = 0" "pos_in_ellipsis st1 = 0"
      using c by (simp add: printf_round_def fmt_start_def deref_def parse_parameter_field_def NUL_def)
    obtain st' st'' where "printf_fields nfixed st1 = Inr st'" "printf_type_step st' = Inr st''" "stuck nfixed c s st''"
      using stuck_fields [OF assms st1] by blast
    then show ?thesis using r stuck_loop [OF assms] by (simp add: Suc)
  qed simp
  then show ?thesis by (simp add: parse_fmtstr_def printf_types_def)
qed

text \<open>Witness: the conversion \<open>%D\<close>, a synonym of \<open>%ld\<close> in the C library of the guest.\<close>

theorem parse_fmtstr_hangs_witness:
  "unknown_conversion (CHR ''D'') \<and> parse_fmtstr 1000 [] (''%'' @ CHR ''D'' # [NUL]) 1 True True = Inl OutOfFuel"
proof -
  have "unknown_conversion (CHR ''D'')"
    by (simp add: unknown_conversion_def strchr_def printf_flags_def length_chars_def is_digit_def printf_type_def NUL_def)
  with parse_fmtstr_hangs [OF this] show ?thesis by blast
qed

text \<open>A placeholder that ends with the string: \<open>strchr\<close> finds the terminator of the flags or of the
  length characters, and the scan leaves the string.\<close>

theorem unfinished_placeholder_overrun:
  "printf_types 3 (''%-'' @ [NUL]) 1 = Inl Undefined \<and> printf_types 3 (''%5'' @ [NUL]) 1 = Inl Undefined"
  by code_simp

text \<open>A percent sign with an argument position stores a NUL into the encoding, which hides the
  arguments behind it.\<close>

theorem numbered_percent_truncates:
  "printf_types 5 (''%2$d %1$%'' @ [NUL]) 1 = Inr (''**'' @ [NUL] @ ''i'')
   \<and> parse_signature [] (''**'' @ [NUL] @ ''i'' @ [NUL]) = Inr (ffi_type_pointer, [ffi_type_pointer], 0)"
  by code_simp
end
