(* ===== verification/Fmtstr_Scanf.thy ===== *)
theory Fmtstr_Scanf
  imports Fmtstr_Spec
begin

text \<open>
  Well-formed \<open>scanf\<close> formats and what \<open>parse_scanf_fmtstr\<close> makes of them.
\<close>

section \<open>Formats\<close>

text \<open>
  A placeholder has a suppression mark, the digits of a width, length modifiers, and either a
  conversion character or a scan set, given by the characters between its brackets.
\<close>

datatype spiece =
  SLit string
| SConv bool string string char
| SSet bool string string string

definition star_str :: "bool \<Rightarrow> string" where
  "star_str b = (if b then ''*'' else [])"

fun srender :: "spiece \<Rightarrow> string" where
  "srender (SLit s) = s"
| "srender (SConv ign width len c) = ''%'' @ star_str ign @ width @ len @ [c]"
| "srender (SSet ign width len body) = ''%'' @ star_str ign @ width @ len @ ''['' @ body @ '']''"

fun ok_spiece :: "spiece \<Rightarrow> bool" where
  "ok_spiece (SLit s) \<longleftrightarrow> CHR ''%'' \<notin> set s \<and> NUL \<notin> set s"
| "ok_spiece (SConv ign width len c) \<longleftrightarrow>
     list_all is_digit width \<and> set len \<subseteq> set ''hlLzjtq'' \<and> scanf_type c \<noteq> None \<and> c \<noteq> CHR ''[''"
| "ok_spiece (SSet ign width len body) \<longleftrightarrow>
     list_all is_digit width \<and> set len \<subseteq> set ''hlLzjtq'' \<and> CHR '']'' \<notin> set body"

fun scodes :: "spiece \<Rightarrow> string" where
  "scodes (SLit s) = []"
| "scodes (SConv ign width len c) = (if ign \<or> c = CHR ''%'' then [] else ''*'')"
| "scodes (SSet ign width len body) = (if ign then [] else ''*'')"

section \<open>One placeholder\<close>

lemma scanf_char:
  assumes "scanf_type c \<noteq> None"
  shows "\<not> is_digit c" "\<not> strchr length_chars c" "c \<noteq> CHR ''*''" "c \<noteq> CHR ''$''" "c \<noteq> CHR ''{''" "c \<noteq> NUL"
proof -
  have "c \<in> set ''%diuoxfegacspn[''"
    using assms by (rule contrapos_np) (simp add: scanf_type_def)
  then show "\<not> is_digit c" "\<not> strchr length_chars c" "c \<noteq> CHR ''*''" "c \<noteq> CHR ''$''" "c \<noteq> CHR ''{''" "c \<noteq> NUL"
    by (auto simp: is_digit_def strchr_def length_chars_def NUL_def)
qed

lemma scanf_head:
  assumes "list_all is_digit width" "set len \<subseteq> set ''hlLzjtq''" "scanf_type c \<noteq> None"
  shows "\<exists>d r. len @ c # s = d # r \<and> \<not> is_digit d \<and> d \<noteq> CHR ''*'' \<and> d \<noteq> NUL"
    and "\<exists>d r. width @ len @ c # s = d # r \<and> d \<noteq> CHR ''*'' \<and> d \<noteq> NUL"
proof -
  show l: "\<exists>d r. len @ c # s = d # r \<and> \<not> is_digit d \<and> d \<noteq> CHR ''*'' \<and> d \<noteq> NUL"
  proof (cases len)
    case (Cons d len')
    then have d: "d \<in> set ''hlLzjtq''" using assms(2) by auto
    then have "d \<noteq> NUL" by (auto simp: NUL_def)
    with len_letter [OF d] Cons show ?thesis by simp
  qed (use scanf_char [OF assms(3)] in simp)
  show "\<exists>d r. width @ len @ c # s = d # r \<and> d \<noteq> CHR ''*'' \<and> d \<noteq> NUL"
  proof (cases width)
    case (Cons d w)
    then have "is_digit d" using assms(1) by simp
    then have "d \<noteq> CHR ''*''" "d \<noteq> NUL" by (auto simp: is_digit_def NUL_def)
    with Cons show ?thesis by simp
  qed (use l in auto)
qed

text \<open>
  The fields in front of the specifier: a state whose string starts with them, at the start of
  a round, is taken to the specifier, and the types are left alone.
\<close>

lemma scanf_fields:
  assumes ok: "list_all is_digit width" "set len \<subseteq> set ''hlLzjtq''" "scanf_type c \<noteq> None"
    and new: "sc_new_round st"
    and types: "NUL \<notin> set (sc_types st)" "unat (idx + 1) < length (sc_types st)" "length (sc_types st) < 2 ^ 32"
    and str: "sc_str st = ''%'' @ star_str ign @ width @ len @ c # s"
  shows "\<exists>st1 st2 st3. scanf_round idx st = Inr (Some st1) \<and> scanf_width_step st1 = Inr st2
    \<and> scanf_length_step st2 = Inr st3 \<and> sc_str st3 = c # s \<and> sc_types st3 = sc_types st
    \<and> sc_pos_in_ellipsis st3 = 0 \<and> sc_ignore st3 = ign"
proof -
  let ?p1 = "width @ len @ c # s" and ?p2 = "len @ c # s"
  let ?p0 = "star_str ign @ width @ len @ c # s"
  obtain d1 r1 where d1: "?p1 = d1 # r1" "d1 \<noteq> CHR ''*''" "d1 \<noteq> NUL" using scanf_head(2) [OF ok] by blast
  obtain d2 r2 where d2: "?p2 = d2 # r2" "\<not> is_digit d2" "d2 \<noteq> CHR ''*''" using scanf_head(1) [OF ok] by blast
  have mv: "move_behind_percent (sc_str st) = Inr ?p0" by (simp add: str NUL_def)
  obtain d0 where d0: "deref ?p0 = Inr d0" "d0 \<noteq> NUL" "d0 = CHR ''*'' \<longleftrightarrow> ign"
    using d1 by (cases ign) (auto simp: star_str_def deref_def NUL_def)
  have "CHR ''$'' \<notin> set (star_str ign @ width @ len)"
    using ok(1,2) by (auto simp: star_str_def list_all_iff is_digit_def)
  then have par: "parse_parameter_field ?p0 = Inr (0, ?p0)"
    using parse_parameter_none [of "star_str ign @ width @ len" c s] scanf_char(1,4) [OF ok(3)] by simp
  have tl: "(if ign then tl ?p0 else ?p0) = ?p1" by (simp add: star_str_def)
  have wi: "parse_width_field ?p1 False fm = Inr (?p2, False, 0, if width = [] then fm else fm OR FIELD_WIDTH_PARSED)" for fm
    using width_field [of "Digits width" d2 r2 fm] ok(1) d2 by (simp add: num_args_def)
  have le: "parse_length_field ?p2 fm = Inr (c # s, if len = [] then fm else fm OR FIELD_LENGTH_PARSED)" for fm
    using length_field [OF ok(2) scanf_char(2) [OF ok(3)]] .
  define m1 where "m1 = (if width = [] then 0 else 0 OR FIELD_WIDTH_PARSED)"
  have m: "m1 AND FIELD_LENGTH_PARSED = 0" by (simp add: m1_def field_defs)
  have pad: "pad_types (sc_types st) (idx + 1) = sc_types st"
    by (rule pad_types_id [OF types])
  have "scanf_round idx st = Inr (Some (st\<lparr>sc_str := ?p1, sc_field_mask := 0, sc_pos_in_ellipsis := 0,
      sc_idx_in_types := idx + 1, sc_types := sc_types st, sc_ignore := ign\<rparr>))"
    using new d0 tl by (simp add: scanf_round_def mv par pad Let_def cong: if_cong)
  moreover have "scanf_width_step (st\<lparr>sc_str := ?p1, sc_field_mask := 0, sc_pos_in_ellipsis := 0,
      sc_idx_in_types := idx + 1, sc_types := sc_types st, sc_ignore := ign\<rparr>)
    = Inr (st\<lparr>sc_str := ?p2, sc_field_mask := m1, sc_pos_in_ellipsis := 0,
      sc_idx_in_types := idx + 1, sc_types := sc_types st, sc_ignore := ign\<rparr>)"
    by (simp add: scanf_width_step_def wi m1_def)
  ultimately show ?thesis
    using m by (simp add: scanf_length_step_def le)
qed

lemma specifier_conv:
  assumes "scanf_type c \<noteq> None" "c \<noteq> CHR ''[''"
  shows "parse_specifier_field (c # s) = Inr (Some (s, if c = CHR ''%'' then FS_TYPE_NONE else FS_TYPE_POINTER))"
  using assms scanf_char(5) [OF assms(1)]
  by (subst parse_specifier_field.simps) (auto simp: deref_def scanf_type_def split: if_splits)

lemma specifier_set:
  assumes "CHR '']'' \<notin> set body"
  shows "parse_specifier_field (CHR ''['' # body @ CHR '']'' # s) = Inr (Some (s, FS_TYPE_POINTER))"
  using skip_past_append [OF assms]
  by (subst parse_specifier_field.simps) (simp add: deref_def scanf_type_def)

text \<open>The end of a round, with the specifier parsed.\<close>

lemma scanf_round_end:
  assumes "scanf_round idx st = Inr (Some st1)" "scanf_width_step st1 = Inr st2" "scanf_length_step st2 = Inr st3"
    and "parse_specifier_field (sc_str st3) = Inr (Some (s, ty))" "sc_pos_in_ellipsis st3 = 0"
  shows "\<exists>st'. scanf_loop (Suc n) idx st = scanf_loop n idx st' \<and> sc_new_round st' \<and> sc_str st' = s
    \<and> sc_types st' = sc_types st3 @ (if \<not> sc_ignore st3 \<and> ty \<noteq> FS_TYPE_NONE then [ty_char ty] else [])"
proof -
  define T where "T = sc_types st3 @ (if \<not> sc_ignore st3 \<and> ty \<noteq> FS_TYPE_NONE then [ty_char ty] else [])"
  let ?st = "st3\<lparr>sc_str := s, sc_types := T, sc_new_round := True\<rparr>"
  have "scanf_specifier_step st3 = Inr ?st"
    using assms(4,5) by (simp add: scanf_specifier_step_def scanf_store_def T_def)
  then have "scanf_loop (Suc n) idx st = scanf_loop n idx ?st" using assms(1-3) by simp
  moreover have "sc_new_round ?st" "sc_str ?st = s" "sc_types ?st = T" by simp_all
  ultimately show ?thesis unfolding T_def by blast
qed

lemma scanf_conv_round:
  assumes ok: "ok_spiece p" and p: "\<And>l. p \<noteq> SLit l" and new: "sc_new_round st"
    and types: "NUL \<notin> set (sc_types st)" "unat (idx + 1) < length (sc_types st)" "length (sc_types st) < 2 ^ 32"
    and str: "sc_str st = srender p @ s"
  shows "\<exists>st'. scanf_loop (Suc n) idx st = scanf_loop n idx st' \<and> sc_new_round st' \<and> sc_str st' = s
    \<and> sc_types st' = sc_types st @ scodes p"
proof (cases p)
  case (SConv ign width len c)
  then have o': "list_all is_digit width" "set len \<subseteq> set ''hlLzjtq''" "scanf_type c \<noteq> None" "c \<noteq> CHR ''[''"
    using ok by simp_all
  have "sc_str st = ''%'' @ star_str ign @ width @ len @ c # s" by (simp add: str SConv)
  from scanf_fields [OF o'(1-3) new types this] obtain st1 st2 st3 where st:
    "scanf_round idx st = Inr (Some st1)" "scanf_width_step st1 = Inr st2" "scanf_length_step st2 = Inr st3"
    "sc_str st3 = c # s" "sc_types st3 = sc_types st" "sc_pos_in_ellipsis st3 = 0" "sc_ignore st3 = ign" by blast
  have "parse_specifier_field (sc_str st3) = Inr (Some (s, if c = CHR ''%'' then FS_TYPE_NONE else FS_TYPE_POINTER))"
    unfolding st(4) by (rule specifier_conv [OF o'(3,4)])
  from scanf_round_end [OF st(1-3) this st(6), of n] obtain st' where
    "scanf_loop (Suc n) idx st = scanf_loop n idx st'" "sc_new_round st'" "sc_str st' = s"
    "sc_types st' = sc_types st @ scodes p"
    unfolding st(5,7) by (auto simp: SConv split: if_splits)
  then show ?thesis by blast
next
  case (SSet ign width len body)
  then have o': "list_all is_digit width" "set len \<subseteq> set ''hlLzjtq''" "CHR '']'' \<notin> set body"
    using ok by simp_all
  have sc: "scanf_type (CHR ''['') \<noteq> None" by (simp add: scanf_type_def)
  have "sc_str st = ''%'' @ star_str ign @ width @ len @ CHR ''['' # body @ CHR '']'' # s" by (simp add: str SSet)
  from scanf_fields [OF o'(1,2) sc new types this] obtain st1 st2 st3 where st:
    "scanf_round idx st = Inr (Some st1)" "scanf_width_step st1 = Inr st2" "scanf_length_step st2 = Inr st3"
    "sc_str st3 = CHR ''['' # body @ CHR '']'' # s" "sc_types st3 = sc_types st" "sc_pos_in_ellipsis st3 = 0"
    "sc_ignore st3 = ign" by blast
  have "parse_specifier_field (sc_str st3) = Inr (Some (s, FS_TYPE_POINTER))"
    unfolding st(4) by (rule specifier_set [OF o'(3)])
  from scanf_round_end [OF st(1-3) this st(6), of n] obtain st' where
    "scanf_loop (Suc n) idx st = scanf_loop n idx st'" "sc_new_round st'" "sc_str st' = s"
    "sc_types st' = sc_types st @ scodes p"
    unfolding st(5,7) by (auto simp: SSet split: if_splits)
  then show ?thesis by blast
qed (use p in simp)

lemma scanf_lit_round:
  assumes "CHR ''%'' \<notin> set l" "NUL \<notin> set l" "sc_new_round st" "sc_str st = l @ s"
  shows "scanf_loop n idx st = scanf_loop n idx (st\<lparr>sc_str := s\<rparr>)"
proof -
  have "move_behind_percent (l @ s) = move_behind_percent s"
    using assms(1,2) by (induction l) auto
  then have "scanf_round idx st = scanf_round idx (st\<lparr>sc_str := s\<rparr>)"
    using assms(3,4) by (simp add: scanf_round_def cong: if_cong)
  then show ?thesis by (cases n) simp_all
qed

definition sconvs :: "spiece list \<Rightarrow> nat" where
  "sconvs ps = length (filter (\<lambda>p. case p of SLit _ \<Rightarrow> False | _ \<Rightarrow> True) ps)"

lemma scanf_loop_pieces:
  "list_all ok_spiece ps \<Longrightarrow> sc_new_round st \<Longrightarrow> sc_str st = concat (map srender ps) @ [NUL] \<Longrightarrow>
   NUL \<notin> set (sc_types st) \<Longrightarrow> unat (idx + 1) < length (sc_types st) \<Longrightarrow>
   length (sc_types st @ concat (map scodes ps)) < 2 ^ 32 \<Longrightarrow> sconvs ps < n \<Longrightarrow>
   scanf_loop n idx st = Inr (sc_types st @ concat (map scodes ps))"
proof (induction ps arbitrary: st n)
  case Nil
  then obtain n' where "n = Suc n'" by (cases n) auto
  then show ?case using Nil by (simp add: scanf_round_def deref_def)
next
  case (Cons p ps)
  show ?case
  proof (cases "\<exists>l. p = SLit l")
    case True
    then obtain l where l: "p = SLit l" by blast
    have "scanf_loop n idx st = scanf_loop n idx (st\<lparr>sc_str := concat (map srender ps) @ [NUL]\<rparr>)"
      using Cons.prems l by (intro scanf_lit_round) auto
    also have "\<dots> = Inr (sc_types st @ concat (map scodes ps))"
      using Cons.prems l by (subst Cons.IH) (auto simp: sconvs_def)
    finally show ?thesis by (simp add: l)
  next
    case False
    then have "sconvs (p # ps) = Suc (sconvs ps)" by (cases p) (auto simp: sconvs_def)
    then obtain m where m: "n = Suc m" "sconvs ps < m" using Cons.prems(7) by (cases n) auto
    obtain st' where st': "scanf_loop n idx st = scanf_loop m idx st'" "sc_new_round st'"
      "sc_str st' = concat (map srender ps) @ [NUL]" "sc_types st' = sc_types st @ scodes p"
      using scanf_conv_round [of p st idx "concat (map srender ps) @ [NUL]" m] Cons.prems m(1) False by auto
    have "NUL \<notin> set (scodes p)" by (cases p) (auto simp: NUL_def)
    then have "scanf_loop m idx st' = Inr (sc_types st' @ concat (map scodes ps))"
      using Cons.prems st' m(2) by (intro Cons.IH) auto
    then show ?thesis using st' by simp
  qed
qed


definition wit_scanf :: "spiece list" where
  "wit_scanf = [SConv False ''5'' ''l'' (CHR ''d''), SLit '','', SConv True [] [] (CHR ''s''), SSet False ''10'' [] ''^;'',
     SConv False [] [] (CHR ''%'')]"

end
