(* ===== verification/Marshal.thy ===== *)
theory Marshal
  imports Abi_ArgInfo
begin

text \<open>
  \<open>tcg/abibridge/AArch64tox64.inc.c\<close>: moving the arguments of a bridged call from the places of
  the AArch64 convention to those of the x86-64 convention, and the result back.

  All places are bytes.  The bytes of the general registers and of the vector registers of
  \<open>CPUARMState\<close>, of the buffer \<open>arg_space\<close> (a \<open>tcg_dy_register_args\<close> followed by the stack
  arguments) and of the memory shared by guest and host have addresses of different kinds;
  \<open>arg_space\<close> is a local buffer of the callers that no argument points into.
\<close>

section \<open>Bytes\<close>

datatype addr =
  XB nat \<comment> \<open>byte of the array \<open>xregs\<close>\<close>
| ZB nat nat \<comment> \<open>register of the array \<open>vfp.zregs\<close>, byte of it\<close>
| AB nat \<comment> \<open>byte of \<open>arg_space\<close>\<close>
| MB u64 \<comment> \<open>byte of the memory\<close>

type_synonym mstate = "addr \<Rightarrow> u8"

fun addr_add :: "addr \<Rightarrow> nat \<Rightarrow> addr" where
  "addr_add (XB k) i = XB (k + i)"
| "addr_add (ZB r k) i = ZB r (k + i)"
| "addr_add (AB k) i = AB (k + i)"
| "addr_add (MB p) i = MB (p + of_nat i)"

text \<open>The distance of an address from a base, if it lies behind it.\<close>

fun addr_off :: "addr \<Rightarrow> addr \<Rightarrow> nat option" where
  "addr_off (XB b) (XB k) = (if b \<le> k then Some (k - b) else None)"
| "addr_off (ZB r b) (ZB r' k) = (if r = r' \<and> b \<le> k then Some (k - b) else None)"
| "addr_off (AB b) (AB k) = (if b \<le> k then Some (k - b) else None)"
| "addr_off (MB b) (MB p) = Some (unat (p - b))"
| "addr_off _ _ = None"

definition memcpy :: "addr \<Rightarrow> addr \<Rightarrow> nat \<Rightarrow> mstate \<Rightarrow> mstate" where
  "memcpy dst src n st =
     (\<lambda>a. case addr_off dst a of
            Some i \<Rightarrow> if i < n then st (addr_add src i) else st a
          | None \<Rightarrow> st a)"

definition store :: "addr \<Rightarrow> nat \<Rightarrow> u64 \<Rightarrow> mstate \<Rightarrow> mstate" where
  "store dst n v st =
     (\<lambda>a. case addr_off dst a of
            Some i \<Rightarrow> if i < n then get_byte v i else st a
          | None \<Rightarrow> st a)"

fun load :: "mstate \<Rightarrow> addr \<Rightarrow> nat \<Rightarrow> u64" where
  "load st p 0 = 0"
| "load st p (Suc n) = load st p n OR push_bit (8 * n) (ucast (st (addr_add p n)))"

section \<open>Where registers live\<close>

text \<open>\<open>tcg_dy_register_args\<close>: six general registers, eight vector registers, and \<open>rax\<close>.\<close>

definition gpr_off :: "nat \<Rightarrow> nat" where "gpr_off i = 8 * i"
definition sse_off :: "nat \<Rightarrow> nat" where "sse_off i = 48 + 16 * i"
definition rax_off :: nat where "rax_off = 176"
definition sizeof_register_args :: nat where "sizeof_register_args = 184"

lemmas args_layout = gpr_off_def sse_off_def rax_off_def sizeof_register_args_def

text \<open>The default case indexes the array \<open>sse\<close>; any other number leaves it.\<close>

definition x64_enum_2_ptr :: "nat \<Rightarrow> addr result" where
  "x64_enum_2_ptr num =
     (if num \<in> {TE_RAX, TE_EAX, TE_AX, TE_AL} then Inr (AB rax_off)
      else if num \<in> {TE_RDI, TE_EDI} then Inr (AB (gpr_off 0))
      else if num \<in> {TE_RSI, TE_ESI} then Inr (AB (gpr_off 1))
      else if num \<in> {TE_RDX, TE_EDX, TE_DL} then Inr (AB (gpr_off 2))
      else if num \<in> {TE_RCX, TE_ECX} then Inr (AB (gpr_off 3))
      else if num \<in> {TE_R8, TE_R8D} then Inr (AB (gpr_off 4))
      else if num \<in> {TE_R9, TE_R9D} then Inr (AB (gpr_off 5))
      else if TE_XMM 0 \<le> num \<and> num \<le> TE_XMM 7 then Inr (AB (sse_off (num - TE_XMM 0)))
      else Inl Undefined)"

text \<open>The result NULL is not usable as a place.\<close>

definition a64_enum_2_ptr :: "nat \<Rightarrow> addr result" where
  "a64_enum_2_ptr num =
     (if TE_S 0 \<le> num \<and> num \<le> TE_S 7 then Inr (ZB (num - TE_S 0) 0)
      else if TE_D 0 \<le> num \<and> num \<le> TE_D 7 then Inr (ZB (num - TE_D 0) 0)
      else if TE_Q 0 \<le> num \<and> num \<le> TE_Q 7 then Inr (ZB (num - TE_Q 0) 0)
      else if TE_W 0 \<le> num \<and> num \<le> TE_W 7 then Inr (XB (8 * (num - TE_W 0)))
      else if TE_X 0 \<le> num \<and> num \<le> TE_X 8 then Inr (XB (8 * (num - TE_X 0)))
      else Inl Undefined)"

definition is_xmm :: "nat \<Rightarrow> bool" where
  "is_xmm r \<longleftrightarrow> TE_XMM 0 \<le> r \<and> r \<le> TE_XMM 7"

section \<open>Extension of small integers\<close>

definition extend_arg_by_loc_info :: "addr \<Rightarrow> nat \<Rightarrow> mstate \<Rightarrow> mstate" where
  "extend_arg_by_loc_info dst locInfo st =
     (if locInfo = TE_SExt8_32 then store dst 4 (ucast (scast (ucast (load st dst 1) :: u8) :: u32)) st
      else if locInfo = TE_SExt16_32 then store dst 4 (ucast (scast (ucast (load st dst 2) :: u16) :: u32)) st
      else if locInfo = TE_ZExt8_32 then store dst 4 (load st dst 1) st
      else if locInfo = TE_ZExt16_32 then store dst 4 (load st dst 2) st
      else st)"

definition extend_ret_by_reg_loc_info :: "addr \<Rightarrow> nat \<Rightarrow> nat \<Rightarrow> mstate \<Rightarrow> mstate result" where
  "extend_ret_by_reg_loc_info dst x64Reg locInfo st =
     (if x64Reg = TE_AL \<or> x64Reg = TE_DL then
        (if locInfo = TE_SExt8_32
         then Inr (store dst 4 (ucast (scast (ucast (load st dst 1) :: u8) :: u32)) st)
         else
           bindR (assertR (locInfo = TE_ZExt8_32 \<or> locInfo = TE_Full)) (\<lambda>_.
           Inr (store dst 4 (load st dst 1) st)))
      else if x64Reg = TE_AX then
        (if locInfo = TE_SExt16_32
         then Inr (store dst 4 (ucast (scast (ucast (load st dst 2) :: u16) :: u32)) st)
         else
           bindR (assertR (locInfo = TE_ZExt16_32 \<or> locInfo = TE_Full)) (\<lambda>_.
           Inr (store dst 4 (load st dst 2) st)))
      else Inr st)"

section \<open>One argument\<close>

text \<open>Both in registers, of the same number: one by one from index \<open>j\<close>.\<close>

fun regs_to_regs :: "nat \<Rightarrow> nat \<Rightarrow> ABIArgInfo \<Rightarrow> ABIArgInfo \<Rightarrow> mstate \<Rightarrow> mstate result" where
  "regs_to_regs j 0 aa xx st = Inr st"
| "regs_to_regs j (Suc k) aa xx st =
     bindR (te_get_reg xx j) (\<lambda>xr.
     bindR (te_get_reg aa j) (\<lambda>ar.
     bindR (x64_enum_2_ptr xr) (\<lambda>dst.
     bindR (a64_enum_2_ptr ar) (\<lambda>src.
     let st' = (if is_xmm xr then memcpy dst src 16 st
                else extend_arg_by_loc_info dst (te_get_reg_locinfo xx j) (memcpy dst src 8 st))
     in regs_to_regs (j + 1) k aa xx st'))))"

text \<open>Copy four bytes of register \<open>ai\<close> of the AArch64 side to byte \<open>off\<close> of register \<open>xi\<close>.\<close>

definition cp_single :: "ABIArgInfo \<Rightarrow> ABIArgInfo \<Rightarrow> nat \<Rightarrow> nat \<Rightarrow> nat \<Rightarrow> mstate \<Rightarrow> mstate result" where
  "cp_single aa xx xi off ai st =
     bindR (te_get_reg xx xi) (\<lambda>xr.
     bindR (x64_enum_2_ptr xr) (\<lambda>dst.
     bindR (te_get_reg aa ai) (\<lambda>ar.
     bindR (a64_enum_2_ptr ar) (\<lambda>src.
     Inr (memcpy (addr_add dst off) src 4 st)))))"

text \<open>\<open>assert(te_get_reg(x, i) + 1 == te_get_reg(x, i + 1))\<close>\<close>

definition assert_next :: "ABIArgInfo \<Rightarrow> nat \<Rightarrow> unit result" where
  "assert_next x i =
     bindR (te_get_reg x i) (\<lambda>r. bindR (te_get_reg x (i + 1)) (\<lambda>r'. assertR (r + 1 = r')))"

definition assert_first :: "ABIArgInfo \<Rightarrow> nat \<Rightarrow> nat \<Rightarrow> unit result" where
  "assert_first x lo hi = bindR (te_get_reg x 0) (\<lambda>r. assertR (lo \<le> r \<and> r \<le> hi))"

text \<open>Homogeneous aggregates of two to four floats: packed in pairs on the x86-64 side.\<close>

definition packed_floats :: "nat \<Rightarrow> nat \<Rightarrow> ABIArgInfo \<Rightarrow> ABIArgInfo \<Rightarrow> mstate \<Rightarrow> mstate result" where
  "packed_floats xxRegCnt aaRegCnt aa xx st =
     (if xxRegCnt = 1 \<and> aaRegCnt = 2 then
        bindR (assert_first xx (TE_XMM 0) (TE_XMM 7)) (\<lambda>_.
        bindR (assert_next aa 0) (\<lambda>_.
        bindR (cp_single aa xx 0 0 0 st) (cp_single aa xx 0 4 1)))
      else if xxRegCnt = 2 then
        bindR (assert_first xx (TE_XMM 0) (TE_XMM 6)) (\<lambda>_.
        bindR (assert_next xx 0) (\<lambda>_.
        bindR (assertR (aaRegCnt = 3 \<or> aaRegCnt = 4)) (\<lambda>_.
        bindR (assert_next aa 0) (\<lambda>_.
        bindR (assert_next aa 1) (\<lambda>_.
        bindR (cp_single aa xx 0 0 0 st) (\<lambda>st1.
        bindR (cp_single aa xx 0 4 1 st1) (\<lambda>st2.
        bindR (cp_single aa xx 1 0 2 st2) (\<lambda>st3.
        if aaRegCnt = 4 then cp_single aa xx 1 4 3 st3 else Inr st3))))))))
      else Inl Abort)"

text \<open>From the AArch64 stack at \<open>p\<close> into registers, \<open>step\<close> bytes each.\<close>

fun mem_to_regs :: "nat \<Rightarrow> nat \<Rightarrow> nat \<Rightarrow> ABIArgInfo \<Rightarrow> u64 \<Rightarrow> u32 \<Rightarrow> mstate \<Rightarrow> mstate result" where
  "mem_to_regs step j 0 xx sp offset st = Inr st"
| "mem_to_regs step j (Suc k) xx sp offset st =
     bindR (te_get_reg xx j) (\<lambda>xr.
     bindR (x64_enum_2_ptr xr) (\<lambda>dst.
     let st1 = memcpy dst (MB (sp + ucast offset)) step st;
         st2 = (if step = 16 then st1 else extend_arg_by_loc_info dst (te_get_reg_locinfo xx j) st1)
     in mem_to_regs step (j + 1) k xx sp (offset + of_nat step) st2))"

text \<open>From registers to the x86-64 stack, \<open>step\<close> bytes each.\<close>

definition fake_stack :: "u32 \<Rightarrow> addr" where
  "fake_stack offset = AB (sizeof_register_args + unat offset)"

fun regs_to_mem :: "nat \<Rightarrow> nat \<Rightarrow> nat \<Rightarrow> ABIArgInfo \<Rightarrow> ABIArgInfo \<Rightarrow> u32 \<Rightarrow> mstate \<Rightarrow> mstate result" where
  "regs_to_mem step j 0 aa xx offset st = Inr st"
| "regs_to_mem step j (Suc k) aa xx offset st =
     bindR (te_get_reg aa j) (\<lambda>ar.
     bindR (a64_enum_2_ptr ar) (\<lambda>src.
     let dst = fake_stack offset;
         st1 = memcpy dst src step st;
         st2 = (if step = 16 then st1 else extend_arg_by_loc_info dst (te_get_mem_locinfo xx) st1)
     in regs_to_mem step (j + 1) k aa xx (offset + of_nat step) st2))"

definition mem_to_mem :: "ABIArgInfo \<Rightarrow> ABIArgInfo \<Rightarrow> u64 \<Rightarrow> mstate \<Rightarrow> mstate result" where
  "mem_to_mem aa xx sp st =
     (let arg_size = te_get_arg_size aa; dst = fake_stack (te_get_mem xx) in
      bindR (assertR (arg_size = te_get_arg_size xx)) (\<lambda>_.
      let st1 = memcpy dst (MB (sp + ucast (te_get_mem aa))) (unat arg_size) st in
      Inr (if arg_size \<le> 2 then extend_arg_by_loc_info dst (te_get_mem_locinfo xx) st1 else st1)))"

text \<open>From the memory a pointer at \<open>p\<close> points to, to the x86-64 stack.\<close>

definition pointee_to_mem :: "addr \<Rightarrow> ABIArgInfo \<Rightarrow> mstate \<Rightarrow> mstate result" where
  "pointee_to_mem p xx st =
     (let arg_size = te_get_arg_size xx;
          st1 = memcpy (fake_stack (te_get_mem xx)) (MB (load st p 8)) (unat arg_size) st
      in bindR (assertR (arg_size > 2)) (\<lambda>_. Inr st1))"

definition arg_case :: "ABIArgInfo \<Rightarrow> ABIArgInfo \<Rightarrow> nat" where
  "arg_case aa xx =
     of_bool (te_is_indirect xx) * 8 + of_bool (te_is_mem xx) * 4
     + of_bool (te_is_indirect aa) * 2 + of_bool (te_is_mem aa)"

definition entry_arg :: "u64 \<Rightarrow> ABIArgInfo \<Rightarrow> ABIArgInfo \<Rightarrow> mstate \<Rightarrow> mstate result" where
  "entry_arg sp aa xx st =
     (let xxRegCnt = te_num_of_reg xx; aaRegCnt = te_num_of_reg aa; k = arg_case aa xx in
      if (\<not> te_is_mem xx \<and> xxRegCnt = 0) \<or> (\<not> te_is_mem aa \<and> aaRegCnt = 0) then Inr st
      else if k = 0 then
        (if xxRegCnt = aaRegCnt then regs_to_regs 0 xxRegCnt aa xx st
         else if xxRegCnt < aaRegCnt then packed_floats xxRegCnt aaRegCnt aa xx st
         else Inl Abort)
      else if k = 1 then
        mem_to_regs (if of_nat xxRegCnt * 16 = te_get_arg_size aa then 16 else 8)
          0 xxRegCnt xx sp (te_get_mem aa) st
      else if k = 2 \<or> k = 3 then Inl Abort
      else if k = 4 then
        regs_to_mem (if of_nat aaRegCnt * 16 = te_get_arg_size xx then 16 else 8)
          0 aaRegCnt aa xx (te_get_mem xx) st
      else if k = 5 then mem_to_mem aa xx sp st
      else if k = 6 then
        bindR (te_get_reg aa 0) (\<lambda>ar. bindR (a64_enum_2_ptr ar) (\<lambda>p. pointee_to_mem p xx st))
      else if k = 7 then pointee_to_mem (MB (sp + ucast (te_get_mem aa))) xx st
      else Inl Abort)"

section \<open>All arguments\<close>

fun entry_args :: "u64 \<Rightarrow> nat \<Rightarrow> nat \<Rightarrow> ABIFnInfo \<Rightarrow> ABIFnInfo \<Rightarrow> mstate \<Rightarrow> mstate result" where
  "entry_args sp i 0 aaInfo xxInfo st = Inr st"
| "entry_args sp i (Suc k) aaInfo xxInfo st =
     (if i < length (fi_ainfo xxInfo) \<and> i < length (fi_ainfo aaInfo) then
        bindR (entry_arg sp (fi_ainfo aaInfo ! i) (fi_ainfo xxInfo ! i) st)
          (entry_args sp (i + 1) k aaInfo xxInfo)
      else Inl Undefined)"

definition ret_case :: "ABIFnInfo \<Rightarrow> ABIFnInfo \<Rightarrow> nat" where
  "ret_case aaInfo xxInfo =
     of_bool (te_is_indirect (fi_rinfo xxInfo)) * 2 + of_bool (te_is_indirect (fi_rinfo aaInfo))"

text \<open>The address for the result, if the x86-64 side takes one.\<close>

definition entry_ret :: "ABIFnInfo \<Rightarrow> ABIFnInfo \<Rightarrow> u64 \<Rightarrow> mstate \<Rightarrow> mstate result" where
  "entry_ret aaInfo xxInfo sret st =
     (let k = ret_case aaInfo xxInfo in
      if k = 2 then
        bindR (te_get_reg (fi_rinfo xxInfo) 0) (\<lambda>xr.
        bindR (x64_enum_2_ptr xr) (\<lambda>dst. Inr (store dst 8 sret st)))
      else if k = 3 then
        bindR (te_get_reg (fi_rinfo xxInfo) 0) (\<lambda>xr.
        bindR (x64_enum_2_ptr xr) (\<lambda>dst. Inr (memcpy dst (XB (8 * 8)) 8 st)))
      else Inr st)"

definition abi_dy_a2x_entry_trans_internal ::
  "ABIFnInfo \<Rightarrow> ABIFnInfo \<Rightarrow> u64 \<Rightarrow> u64 \<Rightarrow> mstate \<Rightarrow> mstate result" where
  "abi_dy_a2x_entry_trans_internal aaInfo xxInfo sret sp st =
     bindR (entry_ret aaInfo xxInfo sret st) (\<lambda>st1.
     bindR (entry_args sp 0 (fi_nargs xxInfo) aaInfo xxInfo st1) (\<lambda>st2.
     Inr (store (AB rax_off) 8 (of_nat (fi_ssecount xxInfo)) st2)))"

definition REG_SP_NUM :: nat where "REG_SP_NUM = 31"

definition xreg :: "mstate \<Rightarrow> nat \<Rightarrow> u64" where
  "xreg st r = load st (XB (8 * r)) 8"

definition abi_dy_a2x_entry_translation ::
  "ABIFnInfo \<Rightarrow> ABIFnInfo \<Rightarrow> u64 \<Rightarrow> mstate \<Rightarrow> mstate result" where
  "abi_dy_a2x_entry_translation aaInfo xxInfo sret st =
     abi_dy_a2x_entry_trans_internal aaInfo xxInfo sret (xreg st REG_SP_NUM) st"

definition abi_valist_a2x_prepare_args ::
  "ABIFnInfo \<Rightarrow> ABIFnInfo \<Rightarrow> u64 \<Rightarrow> nat \<Rightarrow> mstate \<Rightarrow> mstate result" where
  "abi_valist_a2x_prepare_args aaInfo xxInfo sret idxOfValist st =
     bindR (assertR (idxOfValist \<le> 7)) (\<lambda>_.
     abi_dy_a2x_entry_trans_internal aaInfo xxInfo sret (xreg st idxOfValist) st)"

section \<open>The result\<close>

fun ret_regs :: "nat \<Rightarrow> nat \<Rightarrow> ABIArgInfo \<Rightarrow> ABIArgInfo \<Rightarrow> mstate \<Rightarrow> mstate result" where
  "ret_regs j 0 aa xx st = Inr st"
| "ret_regs j (Suc k) aa xx st =
     bindR (te_get_reg xx j) (\<lambda>xr.
     bindR (te_get_reg aa j) (\<lambda>ar.
     bindR (x64_enum_2_ptr xr) (\<lambda>src.
     bindR (a64_enum_2_ptr ar) (\<lambda>dst.
     bindR (if is_xmm xr then Inr (memcpy dst src 16 st)
            else extend_ret_by_reg_loc_info dst xr (te_get_reg_locinfo xx j) (memcpy dst src 8 st))
       (ret_regs (j + 1) k aa xx)))))"

definition ret_single :: "ABIArgInfo \<Rightarrow> ABIArgInfo \<Rightarrow> nat \<Rightarrow> nat \<Rightarrow> nat \<Rightarrow> mstate \<Rightarrow> mstate result" where
  "ret_single aa xx xi off ai st =
     bindR (te_get_reg xx xi) (\<lambda>xr.
     bindR (x64_enum_2_ptr xr) (\<lambda>src.
     bindR (te_get_reg aa ai) (\<lambda>ar.
     bindR (a64_enum_2_ptr ar) (\<lambda>dst.
     Inr (memcpy dst (addr_add src off) 4 st)))))"

definition ret_floats :: "nat \<Rightarrow> nat \<Rightarrow> ABIArgInfo \<Rightarrow> ABIArgInfo \<Rightarrow> mstate \<Rightarrow> mstate result" where
  "ret_floats xxRegCnt aaRegCnt aa xx st =
     (if xxRegCnt = 1 \<and> aaRegCnt = 2 then
        bindR (assert_first xx (TE_XMM 0) (TE_XMM 0)) (\<lambda>_.
        bindR (assert_first aa (TE_S 0) (TE_S 0)) (\<lambda>_.
        bindR (assert_next aa 0) (\<lambda>_.
        bindR (ret_single aa xx 0 0 0 st) (ret_single aa xx 0 4 1))))
      else if xxRegCnt = 2 then
        bindR (assert_first xx (TE_XMM 0) (TE_XMM 0)) (\<lambda>_.
        bindR (assert_next xx 0) (\<lambda>_.
        bindR (assertR (aaRegCnt = 3 \<or> aaRegCnt = 4)) (\<lambda>_.
        bindR (assert_first aa (TE_S 0) (TE_S 0)) (\<lambda>_.
        bindR (assert_next aa 0) (\<lambda>_.
        bindR (assert_next aa 1) (\<lambda>_.
        bindR (ret_single aa xx 0 0 0 st) (\<lambda>st1.
        bindR (ret_single aa xx 0 4 1 st1) (\<lambda>st2.
        bindR (ret_single aa xx 1 0 2 st2) (\<lambda>st3.
        if aaRegCnt = 4 then ret_single aa xx 1 4 3 st3 else Inr st3)))))))))
      else Inl Abort)"

text \<open>
  A result that only the x86-64 side returns in memory is copied from the space at \<open>sret\<close>,
  whose address must not be NULL, to consecutive registers.
\<close>

fun assert_run :: "nat \<Rightarrow> nat \<Rightarrow> ABIArgInfo \<Rightarrow> unit result" where
  "assert_run j 0 aa = Inr ()"
| "assert_run j (Suc k) aa = bindR (assert_next aa j) (\<lambda>_. assert_run (j + 1) k aa)"

fun sret_to_regs :: "nat \<Rightarrow> nat \<Rightarrow> nat \<Rightarrow> ABIArgInfo \<Rightarrow> u64 \<Rightarrow> mstate \<Rightarrow> mstate result" where
  "sret_to_regs step j 0 aa sret st = Inr st"
| "sret_to_regs step j (Suc k) aa sret st =
     bindR (te_get_reg aa j) (\<lambda>ar.
     bindR (a64_enum_2_ptr ar) (\<lambda>dst.
     if sret = 0 then Inl Undefined
     else sret_to_regs step (j + 1) k aa sret (memcpy dst (MB (sret + of_nat (step * j))) step st)))"

definition exit_sret :: "nat \<Rightarrow> ABIArgInfo \<Rightarrow> u64 \<Rightarrow> mstate \<Rightarrow> mstate result" where
  "exit_sret aaRegCnt aa sret st =
     bindR (assert_run 0 (aaRegCnt - 1) aa) (\<lambda>_.
     bindR (te_get_reg aa 0) (\<lambda>r.
     if r = TE_D 0 then sret_to_regs 8 0 aaRegCnt aa sret st
     else if r = TE_Q 0 then sret_to_regs 16 0 aaRegCnt aa sret st
     else Inl Abort))"

definition abi_dy_a2x_exit_translation ::
  "ABIFnInfo \<Rightarrow> ABIFnInfo \<Rightarrow> u64 \<Rightarrow> mstate \<Rightarrow> mstate result" where
  "abi_dy_a2x_exit_translation aaInfo xxInfo sret st =
     (let xx = fi_rinfo xxInfo; aa = fi_rinfo aaInfo;
          xxRegCnt = te_num_of_reg xx; aaRegCnt = te_num_of_reg aa;
          k = ret_case aaInfo xxInfo
      in if fi_isCxxStructor xxInfo \<and> xxRegCnt = 0 \<and> aaRegCnt = 1 then Inr st
         else if fi_isCxxStructor xxInfo \<and> xxRegCnt = 1 \<and> aaRegCnt = 0 then Inr st
         else if k = 0 then
           (if xxRegCnt = aaRegCnt then ret_regs 0 xxRegCnt aa xx st
            else if xxRegCnt < aaRegCnt then ret_floats xxRegCnt aaRegCnt aa xx st
            else Inl Abort)
         else if k = 1 then Inl Abort
         else if k = 2 then exit_sret aaRegCnt aa sret st
         else Inr st)"

end
