(* ===== verification/Marshal_Args.thy ===== *)
theory Marshal_Args
  imports Marshal
begin

text \<open>
  One argument of the entry translation: for every combination of places that the two calling
  conventions produce for one type, \<open>entry_arg\<close> moves every byte of the argument and writes
  nothing outside its places on the x86-64 side.
\<close>

section \<open>Reading what was written\<close>

lemma memcpy_AB [simp]:
  "memcpy (AB d) src n st (AB k) = (if d \<le> k \<and> k < d + n then st (addr_add src (k - d)) else st (AB k))"
  "memcpy (AB d) src n st (XB k) = st (XB k)"
  "memcpy (AB d) src n st (ZB r k) = st (ZB r k)"
  "memcpy (AB d) src n st (MB p) = st (MB p)"
  by (auto simp: memcpy_def)

lemma store_AB [simp]:
  "store (AB d) n v st (AB k) = (if d \<le> k \<and> k < d + n then get_byte v (k - d) else st (AB k))"
  "store (AB d) n v st (XB k) = st (XB k)"
  "store (AB d) n v st (ZB r k) = st (ZB r k)"
  "store (AB d) n v st (MB p) = st (MB p)"
  by (auto simp: store_def)

lemma load_1: "load st p (Suc 0) = ucast (st (addr_add p 0))"
  by simp

lemma get_byte_ucast8: "get_byte (ucast (b :: u8)) 0 = b"
  by (rule bit_word_eqI) (auto simp: bit_get_byte bit_ucast_iff)

lemma get_byte_load:
  assumes "i < n" "n \<le> 8"
  shows "get_byte (load st p n) i = st (addr_add p i)"
  using assms
proof (induction n)
  case (Suc n)
  have hi: "get_byte (push_bit (8 * n) (ucast (b :: u8))) i = (if i = n then b else 0)" if "i \<le> n" for b i
  proof (rule bit_word_eqI)
    fix m
    assume "m < LENGTH(8)"
    then show "bit (get_byte (push_bit (8 * n) (ucast b)) i) m = bit (if i = n then b else 0) m"
      using Suc.prems that bit_imp_le_length [of b] by (auto simp: bit_get_byte bit_push_bit_iff bit_ucast_iff)
  qed
  have or: "get_byte (v OR w) i = get_byte v i OR get_byte w i" for v w i
    by (rule bit_word_eqI) (simp add: bit_get_byte bit_or_iff)
  have lo: "get_byte (load st p n) n = 0"
  proof (rule bit_word_eqI)
    fix m
    assume "m < LENGTH(8)"
    have "bit (load st p j) b \<Longrightarrow> b < 8 * j" if "j \<le> n" for j b
      using that
    proof (induction j)
      case (Suc j)
      then show ?case
        using bit_imp_le_length [of "st (addr_add p j)"]
        by (fastforce simp: bit_or_iff bit_push_bit_iff bit_ucast_iff)
    qed simp
    then show "bit (get_byte (load st p n) n) m = bit (0 :: u8) m" by (fastforce simp: bit_get_byte)
  qed
  show ?case
    using Suc lo by (cases "i = n") (simp_all add: or hi)
qed simp

section \<open>Extension keeps the value\<close>

text \<open>How many low bytes of a slot the extension for a location info leaves alone.\<close>

definition keeps :: "nat \<Rightarrow> nat" where
  "keeps loc =
     (if loc = TE_SExt8_32 \<or> loc = TE_ZExt8_32 then 1
      else if loc = TE_SExt16_32 \<or> loc = TE_ZExt16_32 then 2 else 8)"

lemma get_byte_scast:
  "i < 1 \<Longrightarrow> get_byte (ucast (scast (x :: u8) :: u32)) i = x"
  "i < 2 \<Longrightarrow> get_byte (ucast (scast (ucast w :: u16) :: u32)) i = get_byte w i"
proof -
  show "i < 1 \<Longrightarrow> get_byte (ucast (scast (x :: u8) :: u32)) i = x"
    by (rule bit_word_eqI) (auto simp: bit_get_byte bit_unsigned_iff bit_signed_iff min_absorb2)
  show "i < 2 \<Longrightarrow> get_byte (ucast (scast (ucast w :: u16) :: u32)) i = get_byte w i"
    by (rule bit_word_eqI) (auto simp: bit_get_byte bit_unsigned_iff bit_signed_iff min_absorb2)
qed

lemma keeps_le: "keeps loc \<le> 8"
  by (simp add: keeps_def)

lemma extend_arg_at:
  assumes "i < keeps loc"
  shows "extend_arg_by_loc_info (AB d) loc st (AB (d + i)) = st (AB (d + i))"
proof -
  have l: "get_byte (load st (AB d) n) j = st (AB (d + j))" if "j < n" "n \<le> 8" for j n
    using get_byte_load [OF that, of st "AB d"] by simp
  have b: "ucast (load st (AB d) 1) = st (AB d)"
    using l [of 0 1] by (simp add: get_byte_def)
  show ?thesis
    using assms l [of i 1] l [of i 2] b
    by (auto simp: extend_arg_by_loc_info_def keeps_def te_loc_defs get_byte_scast split: if_splits)
qed

lemma extend_arg_frame:
  assumes "\<And>i. i < 4 \<Longrightarrow> a \<noteq> AB (d + i)"
  shows "extend_arg_by_loc_info (AB d) loc st a = st a"
proof -
  have "store (AB d) 4 v st a = st a" for v
  proof (cases a)
    case (AB k)
    have "\<not> (d \<le> k \<and> k < d + 4)"
    proof
      assume "d \<le> k \<and> k < d + 4"
      then have "k - d < 4" "d + (k - d) = k" by auto
      with assms [of "k - d"] AB show False by simp
    qed
    then show ?thesis by (auto simp: AB)
  qed simp_all
  then show ?thesis by (simp add: extend_arg_by_loc_info_def)
qed

section \<open>Places of an argument\<close>

definition reg_of :: "ABIArgInfo \<Rightarrow> nat \<Rightarrow> nat" where
  "reg_of x j = (case te_get_reg x j of Inr r \<Rightarrow> r | Inl _ \<Rightarrow> 0)"

lemma te_get_reg_eq: "j < 4 \<Longrightarrow> te_get_reg x j = Inr (reg_of x j)"
  by (simp add: reg_of_def te_get_reg_def TE_MAX_REGS_FOR_ONE_ARG_def)

text \<open>The slot of an x86-64 register in \<open>arg_space\<close>, and its size.\<close>

definition slot :: "nat \<Rightarrow> nat" where
  "slot r =
     (if r \<in> {TE_RDI, TE_EDI} then gpr_off 0 else if r \<in> {TE_RSI, TE_ESI} then gpr_off 1
      else if r \<in> {TE_RDX, TE_EDX, TE_DL} then gpr_off 2 else if r \<in> {TE_RCX, TE_ECX} then gpr_off 3
      else if r \<in> {TE_R8, TE_R8D} then gpr_off 4 else if r \<in> {TE_R9, TE_R9D} then gpr_off 5
      else sse_off (r - TE_XMM 0))"

definition arg_reg :: "nat \<Rightarrow> bool" where
  "arg_reg r \<longleftrightarrow> TE_RDI \<le> r \<and> r \<le> TE_XMM 7"

definition slot_end :: "nat \<Rightarrow> nat" where
  "slot_end r = slot r + (if is_xmm r then 16 else 8)"

lemma x64_ptr_slot: "arg_reg r \<Longrightarrow> x64_enum_2_ptr r = Inr (AB (slot r))"
  unfolding arg_reg_def x64_enum_2_ptr_def slot_def by (simp add: te_reg_defs) presburger

text \<open>An AArch64 argument register, and where its bytes are.\<close>

definition vec_reg :: "nat \<Rightarrow> bool" where
  "vec_reg r \<longleftrightarrow> TE_S 0 \<le> r \<and> r \<le> TE_Q 7"

definition a64_reg :: "nat \<Rightarrow> bool" where
  "a64_reg r \<longleftrightarrow> TE_S 0 \<le> r \<and> r \<le> TE_X 8"

definition a64_place :: "nat \<Rightarrow> addr" where
  "a64_place r = (case a64_enum_2_ptr r of Inr p \<Rightarrow> p | Inl _ \<Rightarrow> XB 0)"

lemma a64_ptr_place: "a64_reg r \<Longrightarrow> a64_enum_2_ptr r = Inr (a64_place r)"
  unfolding a64_reg_def a64_place_def a64_enum_2_ptr_def by (auto simp: te_reg_defs)

definition not_AB :: "addr \<Rightarrow> bool" where
  "not_AB a \<longleftrightarrow> (\<forall>k. a \<noteq> AB k)"

lemma a64_place_not_AB: "not_AB (addr_add (a64_place r) i)"
  by (simp add: not_AB_def a64_place_def a64_enum_2_ptr_def)

text \<open>
  Byte \<open>k\<close> of an argument on either side.  A homogeneous aggregate has one element per vector
  register, everything else is cut into eight-byte pieces.
\<close>

definition piece :: "ABIArgInfo \<Rightarrow> nat" where
  "piece aa = (if vec_reg (reg_of aa 0) then unat (te_get_arg_size aa) div te_num_of_reg aa else 8)"

definition aa_pointer :: "u64 \<Rightarrow> ABIArgInfo \<Rightarrow> addr" where
  "aa_pointer sp aa = (if te_is_mem aa then MB (sp + ucast (te_get_mem aa)) else a64_place (reg_of aa 0))"

definition aa_byte :: "mstate \<Rightarrow> u64 \<Rightarrow> ABIArgInfo \<Rightarrow> nat \<Rightarrow> addr" where
  "aa_byte st sp aa k =
     (if te_is_indirect aa then MB (load st (aa_pointer sp aa) 8 + of_nat k)
      else if te_is_mem aa then MB (sp + ucast (te_get_mem aa) + of_nat k)
      else addr_add (a64_place (reg_of aa (k div piece aa))) (k mod piece aa))"

definition xx_byte :: "ABIArgInfo \<Rightarrow> nat \<Rightarrow> addr" where
  "xx_byte xx k =
     (if te_is_mem xx then AB (sizeof_register_args + unat (te_get_mem xx) + k)
      else AB (slot (reg_of xx (k div 8)) + k mod 8))"

definition in_slot :: "nat \<Rightarrow> addr \<Rightarrow> bool" where
  "in_slot r a \<longleftrightarrow> (\<exists>b. slot r \<le> b \<and> b < slot_end r \<and> a = AB b)"

definition apart :: "nat \<Rightarrow> nat \<Rightarrow> bool" where
  "apart r r' \<longleftrightarrow> slot_end r \<le> slot r' \<or> slot_end r' \<le> slot r"

lemma apart_slots: "apart r r' \<Longrightarrow> in_slot r a \<Longrightarrow> \<not> in_slot r' a"
  by (auto simp: apart_def in_slot_def)

lemma in_slotI: "b < 8 \<Longrightarrow> in_slot r (AB (slot r + b))"
  by (simp add: in_slot_def slot_end_def)

lemma not_AB_slot: "not_AB a \<Longrightarrow> \<not> in_slot r a"
  by (auto simp: not_AB_def in_slot_def)

text \<open>One eight- or sixteen-byte copy into a register slot, with the extension of small integers.\<close>

definition to_slot :: "nat \<Rightarrow> nat \<Rightarrow> addr \<Rightarrow> mstate \<Rightarrow> mstate" where
  "to_slot r loc src st =
     (if is_xmm r then memcpy (AB (slot r)) src 16 st
      else extend_arg_by_loc_info (AB (slot r)) loc (memcpy (AB (slot r)) src 8 st))"

lemma to_slot_frame: "\<not> in_slot r a \<Longrightarrow> to_slot r loc src st a = st a"
proof -
  assume a: "\<not> in_slot r a"
  have m: "memcpy (AB (slot r)) src n st a = st a" if "slot r + n \<le> slot_end r" for n
    using a that by (cases a) (auto simp: in_slot_def)
  have "a \<noteq> AB (slot r + i)" if "i < 4" for i
    using a that by (auto simp: in_slot_def slot_end_def)
  then show ?thesis
    using m by (auto simp: to_slot_def extend_arg_frame slot_end_def)
qed

lemma to_slot_at:
  "b < keeps loc \<Longrightarrow> to_slot r loc src st (AB (slot r + b)) = st (addr_add src b)"
  using keeps_le [of loc] by (simp add: to_slot_def extend_arg_at)

lemma regs_to_regs_spec:
  assumes "j + k \<le> 4" "\<forall>i. j \<le> i \<and> i < j + k \<longrightarrow> arg_reg (reg_of xx i) \<and> a64_reg (reg_of aa i)"
    and "\<forall>i i'. j \<le> i \<and> i < i' \<and> i' < j + k \<longrightarrow> apart (reg_of xx i) (reg_of xx i')"
  shows "\<exists>st'. regs_to_regs j k aa xx st = Inr st'
    \<and> (\<forall>a. (\<forall>i. j \<le> i \<and> i < j + k \<longrightarrow> \<not> in_slot (reg_of xx i) a) \<longrightarrow> st' a = st a)
    \<and> (\<forall>i b. j \<le> i \<longrightarrow> i < j + k \<longrightarrow> b < keeps (te_get_reg_locinfo xx i) \<longrightarrow>
         st' (AB (slot (reg_of xx i) + b)) = st (addr_add (a64_place (reg_of aa i)) b))"
  using assms
proof (induction k arbitrary: j st)
  case (Suc k)
  let ?r = "reg_of xx j" and ?loc = "te_get_reg_locinfo xx j" and ?src = "a64_place (reg_of aa j)"
  define st1 where "st1 = to_slot ?r ?loc ?src st"
  have step: "regs_to_regs j (Suc k) aa xx st = regs_to_regs (j + 1) k aa xx st1"
    using Suc.prems(1,2) by (simp add: te_get_reg_eq x64_ptr_slot a64_ptr_place st1_def to_slot_def Let_def)
  from Suc.IH [of "j + 1" st1] Suc.prems
  obtain st' where st': "regs_to_regs (j + 1) k aa xx st1 = Inr st'"
    "\<And>a. (\<And>i. j < i \<and> i < j + Suc k \<Longrightarrow> \<not> in_slot (reg_of xx i) a) \<Longrightarrow> st' a = st1 a"
    "\<And>i b. j < i \<Longrightarrow> i < j + Suc k \<Longrightarrow> b < keeps (te_get_reg_locinfo xx i) \<Longrightarrow>
       st' (AB (slot (reg_of xx i) + b)) = st1 (addr_add (a64_place (reg_of aa i)) b)"
    by (auto simp: Suc_le_eq)
  have val: "st' (AB (slot (reg_of xx i) + b)) = st (addr_add (a64_place (reg_of aa i)) b)"
    if i: "j \<le> i" "i < j + Suc k" and b: "b < keeps (te_get_reg_locinfo xx i)" for i b
  proof (cases "i = j")
    case True
    have b8: "b < 8" using b keeps_le [of "te_get_reg_locinfo xx i"] by simp
    have "st' (AB (slot ?r + b)) = st1 (AB (slot ?r + b))"
    proof (rule st'(2))
      fix i assume "j < i \<and> i < j + Suc k"
      with Suc.prems(3) have "apart ?r (reg_of xx i)" by simp
      then show "\<not> in_slot (reg_of xx i) (AB (slot ?r + b))"
        using apart_slots in_slotI [OF b8] by blast
    qed
    then show ?thesis using True b by (simp add: st1_def to_slot_at)
  next
    case False
    with i st'(3) [of i b] b have "st' (AB (slot (reg_of xx i) + b)) = st1 (addr_add (a64_place (reg_of aa i)) b)" by simp
    also have "\<dots> = st (addr_add (a64_place (reg_of aa i)) b)"
      unfolding st1_def by (rule to_slot_frame) (simp add: not_AB_slot a64_place_not_AB)
    finally show ?thesis .
  qed
  have frame: "st' a = st a" if "\<And>i. j \<le> i \<and> i < j + Suc k \<Longrightarrow> \<not> in_slot (reg_of xx i) a" for a
    using st'(2) [of a] that by (simp add: st1_def to_slot_frame)
  show ?case using step st'(1) val frame by auto
qed simp

lemma copy_slot_frame:
  "\<not> in_slot r a \<Longrightarrow> extend_arg_by_loc_info (AB (slot r)) loc (memcpy (AB (slot r)) src 8 st) a = st a"
proof -
  assume a: "\<not> in_slot r a"
  have "memcpy (AB (slot r)) src 8 st a = st a"
    using a by (cases a) (auto simp: in_slot_def slot_end_def split: if_splits)
  moreover have "a \<noteq> AB (slot r + i)" if "i < 4" for i
    using a that by (auto simp: in_slot_def slot_end_def)
  ultimately show ?thesis by (simp add: extend_arg_frame)
qed

lemma copy_slot_at:
  "b < keeps loc \<Longrightarrow> extend_arg_by_loc_info (AB d) loc (memcpy (AB d) src 8 st) (AB (d + b)) = st (addr_add src b)"
  using keeps_le [of loc] by (simp add: extend_arg_at)

lemma unat_offset_step:
  fixes off :: u32
  assumes "unat off + 8 < 2 ^ 32"
  shows "unat (off + 8) = unat off + 8" "(ucast (off + 8) :: u64) = ucast off + 8"
proof -
  show u: "unat (off + 8) = unat off + 8"
    using assms unat_add_lem [of off 8] by simp
  have "unat (ucast (off + 8) :: u64) = unat (ucast off + 8 :: u64)"
    using u assms unsigned_less [of off]
    by (simp add: unsigned_ucast_eq unsigned_take_bit_eq take_bit_nat_eq_self unat_word_ariths)
  then show "(ucast (off + 8) :: u64) = ucast off + 8" by (simp only: word_unat_eq_iff)
qed

lemma mem_to_regs_spec:
  assumes "j + k \<le> 4" "\<forall>i. j \<le> i \<and> i < j + k \<longrightarrow> arg_reg (reg_of xx i)"
    and "\<forall>i i'. j \<le> i \<and> i < i' \<and> i' < j + k \<longrightarrow> apart (reg_of xx i) (reg_of xx i')"
    and "unat off + 8 * k < 2 ^ 32"
  shows "\<exists>st'. mem_to_regs 8 j k xx sp off st = Inr st'
    \<and> (\<forall>a. (\<forall>i. j \<le> i \<and> i < j + k \<longrightarrow> \<not> in_slot (reg_of xx i) a) \<longrightarrow> st' a = st a)
    \<and> (\<forall>i b. j \<le> i \<longrightarrow> i < j + k \<longrightarrow> b < keeps (te_get_reg_locinfo xx i) \<longrightarrow>
         st' (AB (slot (reg_of xx i) + b)) = st (MB (sp + ucast off + of_nat (8 * (i - j) + b))))"
  using assms
proof (induction k arbitrary: j st off)
  case (Suc k)
  let ?r = "reg_of xx j" and ?loc = "te_get_reg_locinfo xx j" and ?src = "MB (sp + ucast off)"
  define st1 where "st1 = extend_arg_by_loc_info (AB (slot ?r)) ?loc (memcpy (AB (slot ?r)) ?src 8 st)"
  have step: "mem_to_regs 8 j (Suc k) xx sp off st = mem_to_regs 8 (j + 1) k xx sp (off + 8) st1"
    using Suc.prems(1,2) by (simp add: te_get_reg_eq x64_ptr_slot st1_def Let_def)
  have off: "unat (off + 8) = unat off + 8" "(ucast (off + 8) :: u64) = ucast off + 8"
    using Suc.prems(4) by (intro unat_offset_step; simp)+
  from Suc.IH [of "j + 1" "off + 8" st1] Suc.prems off(1)
  obtain st' where st': "mem_to_regs 8 (j + 1) k xx sp (off + 8) st1 = Inr st'"
    "\<And>a. (\<And>i. j < i \<and> i < j + Suc k \<Longrightarrow> \<not> in_slot (reg_of xx i) a) \<Longrightarrow> st' a = st1 a"
    "\<And>i b. j < i \<Longrightarrow> i < j + Suc k \<Longrightarrow> b < keeps (te_get_reg_locinfo xx i) \<Longrightarrow>
       st' (AB (slot (reg_of xx i) + b)) = st1 (MB (sp + ucast (off + 8) + of_nat (8 * (i - Suc j) + b)))"
    by (auto simp: Suc_le_eq)
  have val: "st' (AB (slot (reg_of xx i) + b)) = st (MB (sp + ucast off + of_nat (8 * (i - j) + b)))"
    if i: "j \<le> i" "i < j + Suc k" and b: "b < keeps (te_get_reg_locinfo xx i)" for i b
  proof (cases "i = j")
    case True
    have b8: "b < 8" using b keeps_le [of "te_get_reg_locinfo xx i"] by simp
    have "st' (AB (slot ?r + b)) = st1 (AB (slot ?r + b))"
    proof (rule st'(2))
      fix i assume "j < i \<and> i < j + Suc k"
      with Suc.prems(3) have "apart ?r (reg_of xx i)" by simp
      then show "\<not> in_slot (reg_of xx i) (AB (slot ?r + b))"
        using apart_slots in_slotI [OF b8] by blast
    qed
    then show ?thesis using True b by (simp add: st1_def copy_slot_at)
  next
    case False
    then have e: "8 * (i - j) + b = 8 + (8 * (i - Suc j) + b)" using i(1) by simp
    from False i st'(3) [of i b] b
    have "st' (AB (slot (reg_of xx i) + b)) = st1 (MB (sp + ucast (off + 8) + of_nat (8 * (i - Suc j) + b)))" by simp
    also have "\<dots> = st (MB (sp + ucast off + of_nat (8 * (i - j) + b)))"
      unfolding st1_def e off(2) by (subst copy_slot_frame) (simp_all add: in_slot_def add.assoc)
    finally show ?thesis .
  qed
  have frame: "st' a = st a" if "\<And>i. j \<le> i \<and> i < j + Suc k \<Longrightarrow> \<not> in_slot (reg_of xx i) a" for a
    using st'(2) [of a] that by (simp add: st1_def copy_slot_frame)
  show ?case using step st'(1) val frame by auto
qed simp

definition in_range :: "nat \<Rightarrow> nat \<Rightarrow> addr \<Rightarrow> bool" where
  "in_range lo n a \<longleftrightarrow> (\<exists>b. lo \<le> b \<and> b < lo + n \<and> a = AB b)"

lemma copy_mem_frame:
  "\<not> in_range d 8 a \<Longrightarrow> extend_arg_by_loc_info (AB d) loc (memcpy (AB d) src 8 st) a = st a"
proof -
  assume a: "\<not> in_range d 8 a"
  have "memcpy (AB d) src 8 st a = st a"
    using a by (cases a) (auto simp: in_range_def)
  moreover have "a \<noteq> AB (d + i)" if "i < 4" for i
    using a that by (auto simp: in_range_def)
  ultimately show ?thesis by (simp add: extend_arg_frame)
qed

lemma regs_to_mem_spec:
  assumes "j + k \<le> 4" "\<forall>i. j \<le> i \<and> i < j + k \<longrightarrow> a64_reg (reg_of aa i)" and "unat off + 8 * k < 2 ^ 32"
  shows "\<exists>st'. regs_to_mem 8 j k aa xx off st = Inr st'
    \<and> (\<forall>a. \<not> in_range (sizeof_register_args + unat off) (8 * k) a \<longrightarrow> st' a = st a)
    \<and> (\<forall>i b. j \<le> i \<longrightarrow> i < j + k \<longrightarrow> b < keeps (te_get_mem_locinfo xx) \<longrightarrow>
         st' (AB (sizeof_register_args + unat off + 8 * (i - j) + b)) = st (addr_add (a64_place (reg_of aa i)) b))"
  using assms
proof (induction k arbitrary: j st off)
  case (Suc k)
  let ?d = "sizeof_register_args + unat off" and ?loc = "te_get_mem_locinfo xx" and ?src = "a64_place (reg_of aa j)"
  define st1 where "st1 = extend_arg_by_loc_info (AB ?d) ?loc (memcpy (AB ?d) ?src 8 st)"
  have step: "regs_to_mem 8 j (Suc k) aa xx off st = regs_to_mem 8 (j + 1) k aa xx (off + 8) st1"
    using Suc.prems(1,2) by (simp add: te_get_reg_eq a64_ptr_place st1_def Let_def fake_stack_def)
  have off: "unat (off + 8) = unat off + 8"
    using Suc.prems(3) by (intro unat_offset_step) simp
  from Suc.IH [of "j + 1" "off + 8" st1] Suc.prems off
  obtain st' where st': "regs_to_mem 8 (j + 1) k aa xx (off + 8) st1 = Inr st'"
    "\<And>a. \<not> in_range (?d + 8) (8 * k) a \<Longrightarrow> st' a = st1 a"
    "\<And>i b. j < i \<Longrightarrow> i < j + Suc k \<Longrightarrow> b < keeps ?loc \<Longrightarrow>
       st' (AB (?d + 8 + 8 * (i - Suc j) + b)) = st1 (addr_add (a64_place (reg_of aa i)) b)"
    by (auto simp: Suc_le_eq add.assoc)
  have val: "st' (AB (?d + 8 * (i - j) + b)) = st (addr_add (a64_place (reg_of aa i)) b)"
    if i: "j \<le> i" "i < j + Suc k" and b: "b < keeps ?loc" for i b
  proof (cases "i = j")
    case True
    have b8: "b < 8" using b keeps_le [of ?loc] by simp
    have "st' (AB (?d + b)) = st1 (AB (?d + b))" by (rule st'(2)) (use b8 in \<open>simp add: in_range_def\<close>)
    then show ?thesis using True b by (simp add: st1_def copy_slot_at)
  next
    case False
    then have e: "?d + 8 * (i - j) + b = ?d + 8 + 8 * (i - Suc j) + b" using i(1) by simp
    from False i st'(3) [of i b] b
    have "st' (AB (?d + 8 + 8 * (i - Suc j) + b)) = st1 (addr_add (a64_place (reg_of aa i)) b)" by simp
    also have "\<dots> = st (addr_add (a64_place (reg_of aa i)) b)"
      using a64_place_not_AB [of "reg_of aa i" b]
      unfolding st1_def by (intro copy_mem_frame) (auto simp: in_range_def not_AB_def)
    finally show ?thesis unfolding e .
  qed
  have frame: "st' a = st a" if "\<not> in_range ?d (8 * Suc k) a" for a
  proof -
    have "\<not> in_range (?d + 8) (8 * k) a" "\<not> in_range ?d 8 a" using that by (auto simp: in_range_def)
    then show ?thesis using st'(2) [of a] by (simp add: st1_def copy_mem_frame)
  qed
  show ?case using step st'(1) val frame by auto
qed simp

section \<open>One argument\<close>

abbreviation size_of :: "ABIArgInfo \<Rightarrow> nat" where
  "size_of x \<equiv> unat (te_get_arg_size x)"

definition words_for :: "nat \<Rightarrow> nat" where
  "words_for n = (n + 7) div 8"

definition fits32 :: "nat \<Rightarrow> bool" where
  "fits32 n \<longleftrightarrow> int n < 2 ^ 32"

lemma fits32_iff [simp]: "fits32 n \<longleftrightarrow> n < 2 ^ 32"
  by (simp add: fits32_def)

definition ext_ok :: "nat \<Rightarrow> nat \<Rightarrow> bool" where
  "ext_ok loc n \<longleftrightarrow> keeps loc = 8 \<or> n \<le> keeps loc"

text \<open>
  What the two descriptions of an argument have to satisfy: usable registers in slots of their
  own, an extension only for types that small, and one of the combinations of places that the
  two conventions produce for the same type.
\<close>

definition xx_ok :: "ABIArgInfo \<Rightarrow> bool" where
  "xx_ok xx \<longleftrightarrow> \<not> te_is_indirect xx \<and> 0 < size_of xx \<and>
     (if te_is_mem xx
      then ext_ok (te_get_mem_locinfo xx) (size_of xx)
        \<and> fits32 (unat (te_get_mem xx) + 8 * words_for (size_of xx))
      else 0 < te_num_of_reg xx \<and> te_num_of_reg xx \<le> 4 \<and> size_of xx \<le> 8 * te_num_of_reg xx
        \<and> (\<forall>j<te_num_of_reg xx. arg_reg (reg_of xx j) \<and> ext_ok (te_get_reg_locinfo xx j) (size_of xx))
        \<and> (\<forall>j<te_num_of_reg xx. \<forall>i<j. apart (reg_of xx i) (reg_of xx j)))"

definition aa_regs_ok :: "ABIArgInfo \<Rightarrow> bool" where
  "aa_regs_ok aa \<longleftrightarrow> 0 < te_num_of_reg aa \<and> te_num_of_reg aa \<le> 4 \<and> (\<forall>j<te_num_of_reg aa. a64_reg (reg_of aa j))"

definition plain_pieces :: "ABIArgInfo \<Rightarrow> bool" where
  "plain_pieces aa \<longleftrightarrow> (piece aa = 8 \<or> te_num_of_reg aa = 1) \<and> size_of aa \<le> 8 * te_num_of_reg aa"

definition packed_pieces :: "ABIArgInfo \<Rightarrow> ABIArgInfo \<Rightarrow> bool" where
  "packed_pieces aa xx \<longleftrightarrow>
     vec_reg (reg_of aa 0) \<and> size_of aa = 4 * te_num_of_reg aa \<and> reg_of aa 1 = reg_of aa 0 + 1 \<and>
     (te_num_of_reg xx = 1 \<and> te_num_of_reg aa = 2 \<and> is_xmm (reg_of xx 0)
      \<or> te_num_of_reg xx = 2 \<and> te_num_of_reg aa \<in> {3, 4} \<and> is_xmm (reg_of xx 0)
        \<and> reg_of xx 1 = reg_of xx 0 + 1 \<and> is_xmm (reg_of xx 1) \<and> reg_of aa 2 = reg_of aa 1 + 1)"

definition compat :: "ABIArgInfo \<Rightarrow> ABIArgInfo \<Rightarrow> bool" where
  "compat aa xx \<longleftrightarrow> te_get_arg_size aa = te_get_arg_size xx \<and> xx_ok xx \<and>
     (if te_is_indirect aa then te_is_mem xx \<and> 2 < size_of xx \<and> (\<not> te_is_mem aa \<longrightarrow> aa_regs_ok aa)
      else if te_is_mem aa then
        te_is_mem xx \<or> te_num_of_reg xx * 16 \<noteq> size_of xx \<and> fits32 (unat (te_get_mem aa) + 8 * te_num_of_reg xx)
      else aa_regs_ok aa \<and>
        (if te_is_mem xx
         then plain_pieces aa \<and> te_num_of_reg aa * 16 \<noteq> size_of xx \<and> te_num_of_reg aa \<le> words_for (size_of xx)
         else te_num_of_reg aa = te_num_of_reg xx \<and> plain_pieces aa \<or> packed_pieces aa xx))"

definition in_foot :: "ABIArgInfo \<Rightarrow> addr \<Rightarrow> bool" where
  "in_foot xx a \<longleftrightarrow>
     (if te_is_mem xx
      then in_range (sizeof_register_args + unat (te_get_mem xx)) (8 * words_for (size_of xx)) a
      else \<exists>j<te_num_of_reg xx. in_slot (reg_of xx j) a)"

definition arg_moved :: "u64 \<Rightarrow> ABIArgInfo \<Rightarrow> ABIArgInfo \<Rightarrow> mstate \<Rightarrow> mstate \<Rightarrow> bool" where
  "arg_moved sp aa xx st st' \<longleftrightarrow>
     (\<forall>a. \<not> in_foot xx a \<longrightarrow> st' a = st a)
     \<and> (\<forall>k < size_of xx. st' (xx_byte xx k) = st (aa_byte st sp aa k))"

lemma times16: "n \<le> 4 \<Longrightarrow> n * 16 \<noteq> unat s \<Longrightarrow> of_nat n * 16 \<noteq> (s :: u32)"
proof
  assume n: "n \<le> 4" "n * 16 \<noteq> unat s" "of_nat n * 16 = s"
  have "unat (of_nat n * 16 :: u32) = n * 16"
    using n(1) by (simp add: unat_word_ariths unat_of_nat)
  with n(2,3) show False by simp
qed

lemma ext_keeps:
  assumes "ext_ok loc n" "k < n" "i \<le> k" "i < 8"
  shows "i < keeps loc"
  using assms by (auto simp: ext_ok_def)

lemma plain_piece:
  assumes "plain_pieces aa" "k < size_of aa"
  shows "k div piece aa = k div 8" "k mod piece aa = k mod 8" "k div 8 < te_num_of_reg aa"
proof -
  show lt: "k div 8 < te_num_of_reg aa"
    using assms by (auto simp: plain_pieces_def intro!: less_mult_imp_div_less)
  have "k div piece aa = k div 8 \<and> k mod piece aa = k mod 8"
  proof (cases "piece aa = 8")
    case False
    with assms have "te_num_of_reg aa = 1" "size_of aa \<le> 8" by (auto simp: plain_pieces_def)
    moreover from this False have "piece aa = size_of aa" by (simp add: piece_def split: if_splits)
    ultimately show ?thesis using assms(2) by simp
  qed simp
  then show "k div piece aa = k div 8" "k mod piece aa = k mod 8" by simp_all
qed

lemma xx_byte_reg: "\<not> te_is_mem xx \<Longrightarrow> xx_byte xx k = AB (slot (reg_of xx (k div 8)) + k mod 8)"
  by (simp add: xx_byte_def)

lemma aa_byte_reg:
  "\<not> te_is_mem aa \<Longrightarrow> \<not> te_is_indirect aa \<Longrightarrow> plain_pieces aa \<Longrightarrow> k < size_of aa \<Longrightarrow>
   aa_byte st sp aa k = addr_add (a64_place (reg_of aa (k div 8))) (k mod 8)"
  by (simp add: aa_byte_def plain_piece)

lemma moved_reg_reg:
  assumes c: "compat aa xx" and m: "\<not> te_is_mem xx" "\<not> te_is_mem aa" "\<not> te_is_indirect aa"
    and n: "te_num_of_reg aa = te_num_of_reg xx" "plain_pieces aa"
  shows "\<exists>st'. entry_arg sp aa xx st = Inr st' \<and> arg_moved sp aa xx st st'"
proof -
  let ?n = "te_num_of_reg xx"
  have x: "0 < ?n" "?n \<le> 4" "size_of xx \<le> 8 * ?n" "\<And>j. j < ?n \<Longrightarrow> arg_reg (reg_of xx j)"
    "\<And>j. j < ?n \<Longrightarrow> ext_ok (te_get_reg_locinfo xx j) (size_of xx)"
    "\<And>i j. j < ?n \<Longrightarrow> i < j \<Longrightarrow> apart (reg_of xx i) (reg_of xx j)"
    using c m by (auto simp: compat_def xx_ok_def)
  have a: "\<And>j. j < ?n \<Longrightarrow> a64_reg (reg_of aa j)" and sz: "te_get_arg_size aa = te_get_arg_size xx"
    "\<not> te_is_indirect xx"
    using c m n by (auto simp: compat_def aa_regs_ok_def xx_ok_def)
  obtain st' where st': "regs_to_regs 0 ?n aa xx st = Inr st'"
    "\<And>a. (\<forall>i<?n. \<not> in_slot (reg_of xx i) a) \<Longrightarrow> st' a = st a"
    "\<And>i b. i < ?n \<Longrightarrow> b < keeps (te_get_reg_locinfo xx i) \<Longrightarrow>
       st' (AB (slot (reg_of xx i) + b)) = st (addr_add (a64_place (reg_of aa i)) b)"
    using regs_to_regs_spec [of 0 ?n xx aa st] x a by auto
  have "entry_arg sp aa xx st = Inr st'"
    using m n x(1) sz st'(1) by (simp add: entry_arg_def arg_case_def Let_def)
  moreover have "st' (xx_byte xx k) = st (aa_byte st sp aa k)" if k: "k < size_of xx" for k
  proof -
    have d: "k div 8 < ?n" using k x(3) by (intro less_mult_imp_div_less) simp
    have "k mod 8 < keeps (te_get_reg_locinfo xx (k div 8))"
      using ext_keeps [OF x(5) [OF d] k, of "k mod 8"] by simp
    then show ?thesis
      using st'(3) [OF d] k m n sz by (simp add: xx_byte_reg aa_byte_reg)
  qed
  ultimately show ?thesis
    using st'(2) m by (auto simp: arg_moved_def in_foot_def)
qed

lemma moved_mem_reg:
  assumes c: "compat aa xx" and m: "\<not> te_is_mem xx" "te_is_mem aa" "\<not> te_is_indirect aa"
  shows "\<exists>st'. entry_arg sp aa xx st = Inr st' \<and> arg_moved sp aa xx st st'"
proof -
  let ?n = "te_num_of_reg xx" and ?off = "te_get_mem aa"
  have x: "0 < ?n" "?n \<le> 4" "size_of xx \<le> 8 * ?n" "\<And>j. j < ?n \<Longrightarrow> arg_reg (reg_of xx j)"
    "\<And>j. j < ?n \<Longrightarrow> ext_ok (te_get_reg_locinfo xx j) (size_of xx)"
    "\<And>i j. j < ?n \<Longrightarrow> i < j \<Longrightarrow> apart (reg_of xx i) (reg_of xx j)"
    using c m by (auto simp: compat_def xx_ok_def)
  have sz: "te_get_arg_size aa = te_get_arg_size xx" "\<not> te_is_indirect xx"
    "?n * 16 \<noteq> size_of xx" "unat ?off + 8 * ?n < 2 ^ 32"
    using c m by (auto simp: compat_def xx_ok_def)
  obtain st' where st': "mem_to_regs 8 0 ?n xx sp ?off st = Inr st'"
    "\<And>a. (\<forall>i<?n. \<not> in_slot (reg_of xx i) a) \<Longrightarrow> st' a = st a"
    "\<And>i b. i < ?n \<Longrightarrow> b < keeps (te_get_reg_locinfo xx i) \<Longrightarrow>
       st' (AB (slot (reg_of xx i) + b)) = st (MB (sp + ucast ?off + of_nat (8 * i + b)))"
    using mem_to_regs_spec [of 0 ?n xx ?off sp st] x sz(4) by auto
  have "entry_arg sp aa xx st = Inr st'"
    using m x(1) sz st'(1) times16 [OF x(2), of "te_get_arg_size xx"] by (simp add: entry_arg_def arg_case_def Let_def)
  moreover have "st' (xx_byte xx k) = st (aa_byte st sp aa k)" if k: "k < size_of xx" for k
  proof -
    have d: "k div 8 < ?n" using k x(3) by (intro less_mult_imp_div_less) simp
    have "k mod 8 < keeps (te_get_reg_locinfo xx (k div 8))"
      using ext_keeps [OF x(5) [OF d] k, of "k mod 8"] by simp
    from st'(3) [OF d this] show ?thesis
      using m by (simp add: xx_byte_reg aa_byte_def)
  qed
  ultimately show ?thesis
    using st'(2) m by (auto simp: arg_moved_def in_foot_def)
qed

lemma moved_reg_mem:
  assumes c: "compat aa xx" and m: "te_is_mem xx" "\<not> te_is_mem aa" "\<not> te_is_indirect aa"
  shows "\<exists>st'. entry_arg sp aa xx st = Inr st' \<and> arg_moved sp aa xx st st'"
proof -
  let ?n = "te_num_of_reg aa" and ?off = "te_get_mem xx"
  have x: "ext_ok (te_get_mem_locinfo xx) (size_of xx)" "unat ?off + 8 * words_for (size_of xx) < 2 ^ 32"
    "te_get_arg_size aa = te_get_arg_size xx" "\<not> te_is_indirect xx"
    using c m by (auto simp: compat_def xx_ok_def)
  have a: "0 < ?n" "?n \<le> 4" "\<And>j. j < ?n \<Longrightarrow> a64_reg (reg_of aa j)" "plain_pieces aa"
    "?n * 16 \<noteq> size_of xx" "?n \<le> words_for (size_of xx)"
    using c m by (auto simp: compat_def aa_regs_ok_def)
  obtain st' where st': "regs_to_mem 8 0 ?n aa xx ?off st = Inr st'"
    "\<And>a. \<not> in_range (sizeof_register_args + unat ?off) (8 * ?n) a \<Longrightarrow> st' a = st a"
    "\<And>i b. i < ?n \<Longrightarrow> b < keeps (te_get_mem_locinfo xx) \<Longrightarrow>
       st' (AB (sizeof_register_args + unat ?off + 8 * i + b)) = st (addr_add (a64_place (reg_of aa i)) b)"
    using regs_to_mem_spec [of 0 ?n aa ?off xx st] a x(2) by auto
  have "entry_arg sp aa xx st = Inr st'"
    using m a(1) x st'(1) times16 [OF a(2,5)] by (simp add: entry_arg_def arg_case_def Let_def)
  moreover have "st' (xx_byte xx k) = st (aa_byte st sp aa k)" if k: "k < size_of xx" for k
  proof -
    have d: "k div 8 < ?n" using plain_piece(3) [OF a(4)] k x(3) by simp
    have "k mod 8 < keeps (te_get_mem_locinfo xx)"
      using ext_keeps [OF x(1) k, of "k mod 8"] by simp
    from st'(3) [OF d this] show ?thesis
      using k m a(4) x(3) by (simp add: xx_byte_def aa_byte_reg add.assoc)
  qed
  moreover have "st' b = st b" if "\<not> in_foot xx b" for b
    using that m a(6) by (intro st'(2)) (auto simp: in_foot_def in_range_def)
  ultimately show ?thesis by (auto simp: arg_moved_def)
qed

lemma words_for_ge: "n \<le> 8 * words_for n" "0 < n \<Longrightarrow> 8 \<le> 8 * words_for n"
  unfolding words_for_def by presburger+

lemma stack_copy:
  assumes "te_is_mem xx"
  shows "\<not> in_foot xx a \<Longrightarrow> memcpy (fake_stack (te_get_mem xx)) src (size_of xx) st a = st a"
    and "k < size_of xx \<Longrightarrow> memcpy (fake_stack (te_get_mem xx)) src (size_of xx) st (xx_byte xx k) = st (addr_add src k)"
proof -
  show "memcpy (fake_stack (te_get_mem xx)) src (size_of xx) st a = st a" if "\<not> in_foot xx a"
    using that assms words_for_ge(1) [of "size_of xx"]
    by (cases a) (auto simp: fake_stack_def in_foot_def in_range_def)
  show "k < size_of xx \<Longrightarrow> memcpy (fake_stack (te_get_mem xx)) src (size_of xx) st (xx_byte xx k) = st (addr_add src k)"
    using assms by (simp add: fake_stack_def xx_byte_def)
qed

lemma moved_mem_mem:
  assumes c: "compat aa xx" and m: "te_is_mem xx" "te_is_mem aa" "\<not> te_is_indirect aa"
  shows "\<exists>st'. entry_arg sp aa xx st = Inr st' \<and> arg_moved sp aa xx st st'"
proof -
  let ?src = "MB (sp + ucast (te_get_mem aa))"
  define st1 where "st1 = memcpy (fake_stack (te_get_mem xx)) ?src (size_of xx) st"
  define st' where "st' = (if te_get_arg_size xx \<le> 2
    then extend_arg_by_loc_info (fake_stack (te_get_mem xx)) (te_get_mem_locinfo xx) st1 else st1)"
  have x: "ext_ok (te_get_mem_locinfo xx) (size_of xx)" "te_get_arg_size aa = te_get_arg_size xx"
    "\<not> te_is_indirect xx" "0 < size_of xx"
    using c m by (auto simp: compat_def xx_ok_def)
  have "entry_arg sp aa xx st = Inr st'"
    using m x by (simp add: entry_arg_def arg_case_def Let_def mem_to_mem_def st'_def st1_def)
  moreover have "st' a = st a" if a: "\<not> in_foot xx a" for a
  proof -
    have "a \<noteq> AB (sizeof_register_args + unat (te_get_mem xx) + i)" if "i < 4" for i
      using a that m words_for_ge(2) [OF x(4)] by (auto simp: in_foot_def in_range_def)
    then show ?thesis
      using stack_copy(1) [OF m(1) a, of ?src st] by (simp add: st'_def st1_def fake_stack_def extend_arg_frame)
  qed
  moreover have "st' (xx_byte xx k) = st (aa_byte st sp aa k)" if k: "k < size_of xx" for k
  proof -
    have "st1 (xx_byte xx k) = st (aa_byte st sp aa k)"
      using stack_copy(2) [OF m(1) k, of ?src st] m by (simp add: st1_def aa_byte_def)
    moreover have "st' (xx_byte xx k) = st1 (xx_byte xx k)"
    proof (cases "te_get_arg_size xx \<le> 2")
      case True
      then have "size_of xx \<le> 2" by (simp add: word_le_nat_alt)
      then have "k < keeps (te_get_mem_locinfo xx)" using ext_keeps [OF x(1) k, of k] k by simp
      then show ?thesis using True m by (simp add: st'_def fake_stack_def xx_byte_def extend_arg_at)
    qed (simp add: st'_def)
    ultimately show ?thesis by simp
  qed
  ultimately show ?thesis by (auto simp: arg_moved_def)
qed

lemma moved_indirect:
  assumes c: "compat aa xx" and m: "te_is_indirect aa"
  shows "\<exists>st'. entry_arg sp aa xx st = Inr st' \<and> arg_moved sp aa xx st st'"
proof -
  let ?p = "aa_pointer sp aa"
  let ?st' = "memcpy (fake_stack (te_get_mem xx)) (MB (load st ?p 8)) (size_of xx) st"
  have x: "te_is_mem xx" "2 < size_of xx" "te_get_arg_size aa = te_get_arg_size xx" "\<not> te_is_indirect xx"
    "\<not> te_is_mem aa \<Longrightarrow> aa_regs_ok aa"
    using c m by (auto simp: compat_def xx_ok_def)
  have "pointee_to_mem ?p xx st = Inr ?st'"
    using x(2) by (simp add: pointee_to_mem_def Let_def word_less_nat_alt)
  moreover have "entry_arg sp aa xx st = pointee_to_mem ?p xx st"
  proof (cases "te_is_mem aa")
    case True
    then show ?thesis using m x by (simp add: entry_arg_def arg_case_def Let_def aa_pointer_def)
  next
    case False
    with x(5) have "0 < te_num_of_reg aa" "a64_reg (reg_of aa 0)" by (auto simp: aa_regs_ok_def)
    then show ?thesis
      using m x False by (simp add: entry_arg_def arg_case_def Let_def aa_pointer_def te_get_reg_eq a64_ptr_place)
  qed
  moreover have "arg_moved sp aa xx st ?st'"
    using stack_copy [OF x(1), of _ "MB (load st ?p 8)" st] m by (simp add: arg_moved_def aa_byte_def)
  ultimately show ?thesis by simp
qed

lemma cp_single_eq:
  "xi < 4 \<Longrightarrow> ai < 4 \<Longrightarrow> arg_reg (reg_of xx xi) \<Longrightarrow> a64_reg (reg_of aa ai) \<Longrightarrow>
   cp_single aa xx xi off ai st = Inr (memcpy (AB (slot (reg_of xx xi) + off)) (a64_place (reg_of aa ai)) 4 st)"
  by (simp add: cp_single_def te_get_reg_eq x64_ptr_slot a64_ptr_place)

lemma assert_next_eq:
  "i < 3 \<Longrightarrow> reg_of x (i + 1) = reg_of x i + 1 \<Longrightarrow> assert_next x i = Inr ()"
  by (simp add: assert_next_def te_get_reg_eq)

lemma assert_first_eq: "lo \<le> reg_of x 0 \<Longrightarrow> reg_of x 0 \<le> hi \<Longrightarrow> assert_first x lo hi = Inr ()"
  by (simp add: assert_first_def te_get_reg_eq)

text \<open>A sequence of four-byte copies to targets apart from each other.\<close>

fun cp_seq :: "(nat \<Rightarrow> nat) \<Rightarrow> (nat \<Rightarrow> addr) \<Rightarrow> nat \<Rightarrow> mstate \<Rightarrow> mstate" where
  "cp_seq t src 0 st = st"
| "cp_seq t src (Suc n) st = memcpy (AB (t n)) (src n) 4 (cp_seq t src n st)"

lemma cp_seq_frame:
  "(\<And>i. i < n \<Longrightarrow> \<not> in_range (t i) 4 a) \<Longrightarrow> cp_seq t src n st a = st a"
proof (induction n)
  case (Suc n)
  then have "\<not> in_range (t n) 4 a" by simp
  then have "memcpy (AB (t n)) (src n) 4 (cp_seq t src n st) a = cp_seq t src n st a"
    by (cases a) (auto simp: in_range_def)
  with Suc show ?case by simp
qed simp

lemma cp_seq_at:
  assumes "\<And>i j. i < n \<Longrightarrow> j < i \<Longrightarrow> t j + 4 \<le> t i \<or> t i + 4 \<le> t j" "\<And>i b. not_AB (addr_add (src i) b)"
    and "i < n" "b < 4"
  shows "cp_seq t src n st (AB (t i + b)) = st (addr_add (src i) b)"
  using assms
proof (induction n)
  case (Suc n)
  show ?case
  proof (cases "i = n")
    case True
    have "cp_seq t src n st (addr_add (src n) b) = st (addr_add (src n) b)"
      using Suc.prems(2) [of n b] by (intro cp_seq_frame) (auto simp: in_range_def not_AB_def)
    then show ?thesis using True Suc.prems(4) by simp
  next
    case False
    with Suc.prems have "t i + 4 \<le> t n \<or> t n + 4 \<le> t i" "i < n" by simp_all
    then have "\<not> (t n \<le> t i + b \<and> t i + b < t n + 4)" using Suc.prems(4) by linarith
    moreover have "cp_seq t src n st (AB (t i + b)) = st (addr_add (src i) b)"
      using Suc.IH Suc.prems \<open>i < n\<close> by simp
    ultimately show ?thesis by auto
  qed
qed simp

lemma cp_seq_numeral:
  "cp_seq t src 2 st = memcpy (AB (t 1)) (src 1) 4 (memcpy (AB (t 0)) (src 0) 4 st)"
  "cp_seq t src 3 st = memcpy (AB (t 2)) (src 2) 4 (cp_seq t src 2 st)"
  "cp_seq t src 4 st = memcpy (AB (t 3)) (src 3) 4 (cp_seq t src 3 st)"
  by (simp_all add: eval_nat_numeral)

lemma packed_regs:
  assumes c: "compat aa xx" and m: "\<not> te_is_mem xx" "\<not> te_is_mem aa" "\<not> te_is_indirect aa" and p: "packed_pieces aa xx"
  shows "entry_arg sp aa xx st = Inr (cp_seq (\<lambda>i. slot (reg_of xx (i div 2)) + 4 * (i mod 2))
    (\<lambda>i. a64_place (reg_of aa i)) (te_num_of_reg aa) st)"
proof -
  let ?n = "te_num_of_reg xx" and ?m = "te_num_of_reg aa"
  have x: "\<And>j. j < ?n \<Longrightarrow> arg_reg (reg_of xx j)" "\<not> te_is_indirect xx"
    using c m by (auto simp: compat_def xx_ok_def)
  have a: "\<And>j. j < ?m \<Longrightarrow> a64_reg (reg_of aa j)"
    using c m by (auto simp: compat_def aa_regs_ok_def)
  have x0: "TE_XMM 0 \<le> reg_of xx 0" "reg_of xx 0 \<le> TE_XMM 7" using p by (auto simp: packed_pieces_def is_xmm_def)
  consider (two) "?n = 1" "?m = 2" | (three) "?n = 2" "?m = 3" | (four) "?n = 2" "?m = 4"
    using p by (auto simp: packed_pieces_def)
  then show ?thesis
  proof cases
    case two
    have n1: "reg_of aa (0 + 1) = reg_of aa 0 + 1" using p by (simp add: packed_pieces_def)
    have "packed_floats 1 2 aa xx st = Inr (memcpy (AB (slot (reg_of xx 0) + 4)) (a64_place (reg_of aa 1)) 4
        (memcpy (AB (slot (reg_of xx 0) + 0)) (a64_place (reg_of aa 0)) 4 st))"
      using two x(1) a x0 by (simp add: packed_floats_def cp_single_eq assert_first_eq assert_next_eq [OF _ n1])
    then show ?thesis
      using m x(2) two by (simp add: entry_arg_def arg_case_def Let_def cp_seq_numeral)
  next
    case three
    have n1: "reg_of aa (0 + 1) = reg_of aa 0 + 1" "reg_of aa (1 + 1) = reg_of aa 1 + 1"
      "reg_of xx (0 + 1) = reg_of xx 0 + 1" "reg_of xx 0 \<le> TE_XMM 6"
      using p three by (simp_all add: packed_pieces_def numeral_2_eq_2 is_xmm_def TE_XMM_def)
    have "packed_floats 2 3 aa xx st = Inr (memcpy (AB (slot (reg_of xx 1) + 0)) (a64_place (reg_of aa 2)) 4
        (memcpy (AB (slot (reg_of xx 0) + 4)) (a64_place (reg_of aa 1)) 4
        (memcpy (AB (slot (reg_of xx 0) + 0)) (a64_place (reg_of aa 0)) 4 st)))"
      using three x(1) a x0 n1(4) assert_next_eq [OF _ n1(1)] assert_next_eq [OF _ n1(2)] assert_next_eq [OF _ n1(3)]
      by (simp add: packed_floats_def cp_single_eq assert_first_eq)
    then show ?thesis
      using m x(2) three by (simp add: entry_arg_def arg_case_def Let_def cp_seq_numeral)
  next
    case four
    have n1: "reg_of aa (0 + 1) = reg_of aa 0 + 1" "reg_of aa (1 + 1) = reg_of aa 1 + 1"
      "reg_of xx (0 + 1) = reg_of xx 0 + 1" "reg_of xx 0 \<le> TE_XMM 6"
      using p four by (simp_all add: packed_pieces_def numeral_2_eq_2 is_xmm_def TE_XMM_def)
    have "packed_floats 2 4 aa xx st = Inr (memcpy (AB (slot (reg_of xx 1) + 4)) (a64_place (reg_of aa 3)) 4
        (memcpy (AB (slot (reg_of xx 1) + 0)) (a64_place (reg_of aa 2)) 4
        (memcpy (AB (slot (reg_of xx 0) + 4)) (a64_place (reg_of aa 1)) 4
        (memcpy (AB (slot (reg_of xx 0) + 0)) (a64_place (reg_of aa 0)) 4 st))))"
      using four x(1) a x0 n1(4) assert_next_eq [OF _ n1(1)] assert_next_eq [OF _ n1(2)] assert_next_eq [OF _ n1(3)]
      by (simp add: packed_floats_def cp_single_eq assert_first_eq)
    then show ?thesis
      using m x(2) four by (simp add: entry_arg_def arg_case_def Let_def cp_seq_numeral)
  qed
qed

lemma moved_packed:
  assumes c: "compat aa xx" and m: "\<not> te_is_mem xx" "\<not> te_is_mem aa" "\<not> te_is_indirect aa" and p: "packed_pieces aa xx"
  shows "\<exists>st'. entry_arg sp aa xx st = Inr st' \<and> arg_moved sp aa xx st st'"
proof -
  let ?n = "te_num_of_reg xx" and ?m = "te_num_of_reg aa"
  let ?t = "\<lambda>i. slot (reg_of xx (i div 2)) + 4 * (i mod 2)" and ?src = "\<lambda>i. a64_place (reg_of aa i)"
  let ?st' = "cp_seq ?t ?src ?m st"
  have n: "?n = 1 \<and> ?m = 2 \<or> ?n = 2 \<and> (?m = 3 \<or> ?m = 4)" using p by (auto simp: packed_pieces_def)
  have idx: "i div 2 < ?n" if "i < ?m" for i using that n by auto
  have x: "\<And>i j. j < ?n \<Longrightarrow> i < j \<Longrightarrow> apart (reg_of xx i) (reg_of xx j)" "\<And>j. j < ?n \<Longrightarrow> is_xmm (reg_of xx j)"
    using c m p n by (auto simp: compat_def xx_ok_def packed_pieces_def less_2_cases_iff)
  have sz: "size_of xx = 4 * ?m" "te_get_arg_size aa = te_get_arg_size xx" "piece aa = 4"
    using c p n by (auto simp: compat_def packed_pieces_def piece_def)
  have ap: "?t j + 4 \<le> ?t i \<or> ?t i + 4 \<le> ?t j" if "i < ?m" "j < i" for i j
  proof (cases "i div 2 = j div 2")
    case True
    then have "j mod 2 < i mod 2" using that(2) div_mult_mod_eq [of i 2] div_mult_mod_eq [of j 2] by linarith
    then show ?thesis using True by simp
  next
    case False
    with that have "j div 2 < i div 2" using div_le_mono [of j i 2] by simp
    then have "apart (reg_of xx (j div 2)) (reg_of xx (i div 2))" using x(1) idx [OF that(1)] by blast
    moreover define u v where "u = i mod 2" and "v = j mod 2"
    then have "u \<le> 1" "v \<le> 1" by simp_all
    ultimately show ?thesis
      unfolding apart_def slot_end_def u_def [symmetric] v_def [symmetric] by (auto split: if_splits)
  qed
  have val: "?st' (xx_byte xx k) = st (aa_byte st sp aa k)" if k: "k < size_of xx" for k
  proof -
    have e: "k mod 8 = 4 * (k div 4 mod 2) + k mod 4" using mod_mult2_eq [of k 4 2] by simp
    have "k div 8 = k div 4 div 2" by (simp add: div_mult2_eq [symmetric])
    then have "xx_byte xx k = AB (?t (k div 4) + k mod 4)" using m by (simp add: xx_byte_def e)
    moreover have "?st' (AB (?t (k div 4) + k mod 4)) = st (addr_add (?src (k div 4)) (k mod 4))"
      by (rule cp_seq_at) (use ap k sz(1) a64_place_not_AB in \<open>auto intro: less_mult_imp_div_less\<close>)
    ultimately show ?thesis using m sz(3) by (simp add: aa_byte_def)
  qed
  have frame: "?st' a = st a" if "\<not> in_foot xx a" for a
  proof (rule cp_seq_frame)
    fix i assume "i < ?m"
    then have "\<not> in_slot (reg_of xx (i div 2)) a" "is_xmm (reg_of xx (i div 2))"
      using that m idx x(2) by (auto simp: in_foot_def)
    then show "\<not> in_range (?t i) 4 a"
      by (auto simp: in_slot_def in_range_def slot_end_def)
  qed
  show ?thesis
    using packed_regs [OF assms] val frame by (auto simp: arg_moved_def)
qed

lemma entry_arg_moved:
  assumes "compat aa xx"
  shows "\<exists>st'. entry_arg sp aa xx st = Inr st' \<and> arg_moved sp aa xx st st'"
proof -
  consider (ind) "te_is_indirect aa" | (mm) "\<not> te_is_indirect aa" "te_is_mem aa" "te_is_mem xx"
    | (mr) "\<not> te_is_indirect aa" "te_is_mem aa" "\<not> te_is_mem xx"
    | (rm) "\<not> te_is_indirect aa" "\<not> te_is_mem aa" "te_is_mem xx"
    | (rr) "\<not> te_is_indirect aa" "\<not> te_is_mem aa" "\<not> te_is_mem xx" by blast
  then show ?thesis
  proof cases
    case rr
    then have "te_num_of_reg aa = te_num_of_reg xx \<and> plain_pieces aa \<or> packed_pieces aa xx"
      using assms by (simp add: compat_def)
    then show ?thesis using rr moved_reg_reg moved_packed assms by blast
  qed (use assms moved_indirect moved_mem_mem moved_mem_reg moved_reg_mem in blast)+
qed
end
