(* ===== verification/Marshal_Entry.thy ===== *)
theory Marshal_Entry
  imports Marshal_Args Types_Handle
begin

text \<open>
  The whole entry translation of \<open>AArch64tox64.inc.c\<close>: every byte of every argument arrives, and
  nothing outside the buffer changes.
\<close>

section \<open>Places written\<close>

definition spans :: "ABIArgInfo \<Rightarrow> (nat \<times> nat) list" where
  "spans xx =
     (if te_is_mem xx
      then [(sizeof_register_args + unat (te_get_mem xx),
             sizeof_register_args + unat (te_get_mem xx) + 8 * words_for (size_of xx))]
      else map (\<lambda>j. (slot (reg_of xx j), slot_end (reg_of xx j))) [0..<te_num_of_reg xx])"

definition spans_apart :: "(nat \<times> nat) list \<Rightarrow> (nat \<times> nat) list \<Rightarrow> bool" where
  "spans_apart us vs \<longleftrightarrow> (\<forall>u \<in> set us. \<forall>v \<in> set vs. snd u \<le> fst v \<or> snd v \<le> fst u)"

lemma in_foot_spans: "in_foot xx a \<longleftrightarrow> (\<exists>u \<in> set (spans xx). \<exists>b. fst u \<le> b \<and> b < snd u \<and> a = AB b)"
  by (auto simp: in_foot_def spans_def in_range_def in_slot_def)

lemma spans_apart_foot: "spans_apart (spans xx) (spans yy) \<Longrightarrow> in_foot xx a \<Longrightarrow> \<not> in_foot yy a"
  unfolding spans_apart_def in_foot_spans by fastforce

lemma not_AB_foot: "not_AB a \<Longrightarrow> \<not> in_foot xx a"
  by (auto simp: in_foot_spans not_AB_def)

lemma xx_byte_foot:
  assumes "xx_ok xx" "k < size_of xx"
  shows "in_foot xx (xx_byte xx k)"
proof (cases "te_is_mem xx")
  case True
  then show ?thesis
    using assms words_for_ge(1) [of "size_of xx"] by (auto simp: in_foot_def in_range_def xx_byte_def)
next
  case False
  with assms have "k div 8 < te_num_of_reg xx" by (simp add: xx_ok_def less_mult_imp_div_less mult.commute)
  then show ?thesis
    using False in_slotI [of "k mod 8" "reg_of xx (k div 8)"] by (auto simp: in_foot_def xx_byte_def)
qed

lemma slot_end_le: "arg_reg r \<Longrightarrow> slot_end r \<le> rax_off"
  by (auto simp: slot_end_def slot_def arg_reg_def is_xmm_def args_layout te_reg_defs)

lemma rax_not_in_foot:
  assumes "xx_ok xx" "rax_off \<le> b" "b < sizeof_register_args"
  shows "\<not> in_foot xx (AB b)"
proof (cases "te_is_mem xx")
  case True
  then show ?thesis using assms by (simp add: in_foot_def in_range_def)
next
  case False
  then have "slot_end (reg_of xx j) \<le> rax_off" if "j < te_num_of_reg xx" for j
    using assms(1) that slot_end_le by (simp add: xx_ok_def)
  then show ?thesis using False assms(2) by (fastforce simp: in_foot_def in_slot_def)
qed

section \<open>Bytes read\<close>

lemma load_cong: "(\<And>i. i < n \<Longrightarrow> st (addr_add p i) = st' (addr_add p i)) \<Longrightarrow> load st p n = load st' p n"
  by (induction n) simp_all

lemma aa_pointer_not_AB: "not_AB (addr_add (aa_pointer sp aa) i)"
  using a64_place_not_AB by (simp add: aa_pointer_def not_AB_def)

lemma aa_byte_not_AB: "not_AB (aa_byte st sp aa k)"
  using a64_place_not_AB by (simp add: aa_byte_def not_AB_def)

lemma aa_byte_cong:
  assumes "\<And>a. not_AB a \<Longrightarrow> st a = st' a"
  shows "aa_byte st sp aa k = aa_byte st' sp aa k"
  using load_cong [of 8 st "aa_pointer sp aa" st'] assms aa_pointer_not_AB by (simp add: aa_byte_def)

lemma load_bytes:
  assumes "\<And>i. i < 8 \<Longrightarrow> st (addr_add p i) = get_byte v i"
  shows "load st p 8 = v"
proof (rule bit_word_eqI)
  fix m :: nat
  assume m: "m < LENGTH(64)"
  then have i: "m div 8 < 8" "m = 8 * (m div 8) + m mod 8" by simp_all
  have "bit (load st p 8) m = bit (get_byte (load st p 8) (m div 8)) (m mod 8)"
    using i by (simp add: bit_get_byte)
  also have "\<dots> = bit (get_byte v (m div 8)) (m mod 8)"
    using get_byte_load [OF i(1) order_refl, of st p] assms [OF i(1)] by simp
  also have "\<dots> = bit v m" using i by (simp add: bit_get_byte)
  finally show "bit (load st p 8) m = bit v m" .
qed

section \<open>All arguments\<close>

lemma entry_args_moved:
  assumes "i + n \<le> length (fi_ainfo aaI)" "i + n \<le> length (fi_ainfo xxI)"
    and "\<And>j. i \<le> j \<Longrightarrow> j < i + n \<Longrightarrow> compat (fi_ainfo aaI ! j) (fi_ainfo xxI ! j)"
    and "\<And>j j'. i \<le> j \<Longrightarrow> j < j' \<Longrightarrow> j' < i + n \<Longrightarrow> spans_apart (spans (fi_ainfo xxI ! j)) (spans (fi_ainfo xxI ! j'))"
  shows "\<exists>st'. entry_args sp i n aaI xxI st = Inr st'
    \<and> (\<forall>a. (\<forall>j. i \<le> j \<and> j < i + n \<longrightarrow> \<not> in_foot (fi_ainfo xxI ! j) a) \<longrightarrow> st' a = st a)
    \<and> (\<forall>j k. i \<le> j \<longrightarrow> j < i + n \<longrightarrow> k < size_of (fi_ainfo xxI ! j) \<longrightarrow>
         st' (xx_byte (fi_ainfo xxI ! j) k) = st (aa_byte st sp (fi_ainfo aaI ! j) k))"
  using assms
proof (induction n arbitrary: i st)
  case (Suc n)
  let ?aa = "fi_ainfo aaI ! i" and ?xx = "fi_ainfo xxI ! i"
  from entry_arg_moved [OF Suc.prems(3) [of i]] obtain st1
    where st1: "entry_arg sp ?aa ?xx st = Inr st1" "arg_moved sp ?aa ?xx st st1" by fastforce
  have eqst: "st1 a = st a" if "not_AB a" for a
    using st1(2) not_AB_foot [OF that] by (simp add: arg_moved_def)
  have "\<exists>st'. entry_args sp (i + 1) n aaI xxI st1 = Inr st'
    \<and> (\<forall>a. (\<forall>j. i + 1 \<le> j \<and> j < i + 1 + n \<longrightarrow> \<not> in_foot (fi_ainfo xxI ! j) a) \<longrightarrow> st' a = st1 a)
    \<and> (\<forall>j k. i + 1 \<le> j \<longrightarrow> j < i + 1 + n \<longrightarrow> k < size_of (fi_ainfo xxI ! j) \<longrightarrow>
         st' (xx_byte (fi_ainfo xxI ! j) k) = st1 (aa_byte st1 sp (fi_ainfo aaI ! j) k))"
    by (rule Suc.IH) (use Suc.prems in auto)
  then obtain st' where st': "entry_args sp (i + 1) n aaI xxI st1 = Inr st'"
    "\<And>a. (\<And>j. i < j \<Longrightarrow> j < i + Suc n \<Longrightarrow> \<not> in_foot (fi_ainfo xxI ! j) a) \<Longrightarrow> st' a = st1 a"
    "\<And>j k. i < j \<Longrightarrow> j < i + Suc n \<Longrightarrow> k < size_of (fi_ainfo xxI ! j) \<Longrightarrow>
         st' (xx_byte (fi_ainfo xxI ! j) k) = st1 (aa_byte st1 sp (fi_ainfo aaI ! j) k)"
    by (auto simp: Suc_le_eq)
  have step: "entry_args sp i (Suc n) aaI xxI st = Inr st'"
    using Suc.prems(1,2) st1(1) st'(1) by simp
  have frame: "st' a = st a" if "\<And>j. i \<le> j \<Longrightarrow> j < i + Suc n \<Longrightarrow> \<not> in_foot (fi_ainfo xxI ! j) a" for a
    using st'(2) [of a] that [of i] that st1(2) by (simp add: arg_moved_def)
  have val: "st' (xx_byte (fi_ainfo xxI ! j) k) = st (aa_byte st sp (fi_ainfo aaI ! j) k)"
    if j: "i \<le> j" "j < i + Suc n" and k: "k < size_of (fi_ainfo xxI ! j)" for j k
  proof (cases "j = i")
    case True
    have ok: "xx_ok ?xx" using Suc.prems(3) [of i] by (simp add: compat_def)
    have "st' (xx_byte ?xx k) = st1 (xx_byte ?xx k)"
      by (rule st'(2)) (use Suc.prems(4) [of i] spans_apart_foot xx_byte_foot [OF ok] k True in blast)
    then show ?thesis using True st1(2) k by (simp add: arg_moved_def)
  next
    case False
    then have "st' (xx_byte (fi_ainfo xxI ! j) k) = st1 (aa_byte st1 sp (fi_ainfo aaI ! j) k)"
      using st'(3) [of j k] j k by simp
    then show ?thesis using eqst aa_byte_not_AB aa_byte_cong [of st1 st] by simp
  qed
  show ?case using step frame val by blast
qed simp

section \<open>The translation\<close>

text \<open>The register for the address of the result, apart from the places of all arguments.\<close>

definition sret_span :: "ABIFnInfo \<Rightarrow> (nat \<times> nat) list" where
  "sret_span xxI =
     (let r = slot (reg_of (fi_rinfo xxI) 0) in if te_is_indirect (fi_rinfo xxI) then [(r, r + 8)] else [])"

definition entry_ok :: "ABIFnInfo \<Rightarrow> ABIFnInfo \<Rightarrow> bool" where
  "entry_ok aaI xxI \<longleftrightarrow>
     fi_nargs xxI \<le> length (fi_ainfo aaI) \<and> fi_nargs xxI \<le> length (fi_ainfo xxI)
     \<and> (\<forall>j < fi_nargs xxI. compat (fi_ainfo aaI ! j) (fi_ainfo xxI ! j)
          \<and> spans_apart (sret_span xxI) (spans (fi_ainfo xxI ! j))
          \<and> (\<forall>i < j. spans_apart (spans (fi_ainfo xxI ! i)) (spans (fi_ainfo xxI ! j))))
     \<and> (te_is_indirect (fi_rinfo xxI) \<longrightarrow> arg_reg (reg_of (fi_rinfo xxI) 0))"

definition result_address :: "ABIFnInfo \<Rightarrow> u64 \<Rightarrow> mstate \<Rightarrow> u64" where
  "result_address aaI sret st = (if te_is_indirect (fi_rinfo aaI) then xreg st 8 else sret)"

lemma entry_ret_eq:
  assumes "te_is_indirect (fi_rinfo xxI) \<longrightarrow> arg_reg (reg_of (fi_rinfo xxI) 0)"
  shows "\<exists>st'. entry_ret aaI xxI sret st = Inr st' \<and> (\<forall>a. not_AB a \<longrightarrow> st' a = st a)
    \<and> (te_is_indirect (fi_rinfo xxI) \<longrightarrow>
        (\<forall>i<8. st' (AB (slot (reg_of (fi_rinfo xxI) 0) + i)) = get_byte (result_address aaI sret st) i))
    \<and> (\<forall>k. sizeof_register_args \<le> k \<longrightarrow> st' (AB k) = st (AB k))"
proof -
  let ?d = "AB (slot (reg_of (fi_rinfo xxI) 0))"
  have lo: "slot (reg_of (fi_rinfo xxI) 0) + 8 \<le> sizeof_register_args" if "te_is_indirect (fi_rinfo xxI)"
    using that assms slot_end_le by (fastforce simp: slot_end_def args_layout split: if_splits)
  consider (dir) "\<not> te_is_indirect (fi_rinfo xxI)"
    | (st) "te_is_indirect (fi_rinfo xxI)" "\<not> te_is_indirect (fi_rinfo aaI)"
    | (cp) "te_is_indirect (fi_rinfo xxI)" "te_is_indirect (fi_rinfo aaI)" by blast
  then show ?thesis
  proof cases
    case dir
    then show ?thesis by (simp add: entry_ret_def ret_case_def Let_def)
  next
    case st
    then have "entry_ret aaI xxI sret st = Inr (store ?d 8 sret st)"
      using assms by (simp add: entry_ret_def ret_case_def Let_def te_get_reg_eq x64_ptr_slot)
    moreover have "store ?d 8 sret st a = st a" if "not_AB a" for a
      using that by (cases a) (auto simp: not_AB_def)
    ultimately show ?thesis using st lo by (auto simp: result_address_def)
  next
    case cp
    then have "entry_ret aaI xxI sret st = Inr (memcpy ?d (XB (8 * 8)) 8 st)"
      using assms by (simp add: entry_ret_def ret_case_def Let_def te_get_reg_eq x64_ptr_slot)
    moreover have "memcpy ?d (XB (8 * 8)) 8 st a = st a" if "not_AB a" for a
      using that by (cases a) (auto simp: not_AB_def)
    moreover have "st (XB (64 + i)) = get_byte (xreg st 8) i" if "i < 8" for i
      using get_byte_load [of i 8 st "XB 64"] that by (simp add: xreg_def)
    ultimately show ?thesis using cp lo by (auto simp: result_address_def)
  qed
qed

lemma entry_moves:
  assumes "entry_ok aaI xxI"
  shows "\<exists>st'. abi_dy_a2x_entry_trans_internal aaI xxI sret sp st = Inr st'
    \<and> (\<forall>i < fi_nargs xxI. \<forall>k < size_of (fi_ainfo xxI ! i).
         st' (xx_byte (fi_ainfo xxI ! i) k) = st (aa_byte st sp (fi_ainfo aaI ! i) k))
    \<and> (te_is_indirect (fi_rinfo xxI) \<longrightarrow>
         load st' (AB (slot (reg_of (fi_rinfo xxI) 0))) 8 = result_address aaI sret st)
    \<and> load st' (AB rax_off) 8 = of_nat (fi_ssecount xxI)
    \<and> (\<forall>a. not_AB a \<longrightarrow> st' a = st a)
    \<and> (\<forall>k. sizeof_register_args \<le> k \<longrightarrow> (\<forall>i < fi_nargs xxI. \<not> in_foot (fi_ainfo xxI ! i) (AB k)) \<longrightarrow>
         st' (AB k) = st (AB k))"
proof -
  let ?n = "fi_nargs xxI" and ?X = "\<lambda>i. fi_ainfo xxI ! i" and ?A = "\<lambda>i. fi_ainfo aaI ! i"
    and ?r = "reg_of (fi_rinfo xxI) 0"
  have c: "?n \<le> length (fi_ainfo aaI)" "?n \<le> length (fi_ainfo xxI)"
    "\<And>j. j < ?n \<Longrightarrow> compat (?A j) (?X j)" "\<And>j. j < ?n \<Longrightarrow> spans_apart (sret_span xxI) (spans (?X j))"
    "\<And>i j. i < j \<Longrightarrow> j < ?n \<Longrightarrow> spans_apart (spans (?X i)) (spans (?X j))"
    "te_is_indirect (fi_rinfo xxI) \<longrightarrow> arg_reg ?r"
    using assms by (auto simp: entry_ok_def)
  from entry_ret_eq [OF c(6)] obtain st1 where st1: "entry_ret aaI xxI sret st = Inr st1"
    "\<And>a. not_AB a \<Longrightarrow> st1 a = st a"
    "\<And>i. te_is_indirect (fi_rinfo xxI) \<Longrightarrow> i < 8 \<Longrightarrow> st1 (AB (slot ?r + i)) = get_byte (result_address aaI sret st) i"
    "\<And>k. sizeof_register_args \<le> k \<Longrightarrow> st1 (AB k) = st (AB k)"
    by blast
  from entry_args_moved [of 0 ?n aaI xxI sp st1] c obtain st2 where st2: "entry_args sp 0 ?n aaI xxI st1 = Inr st2"
    "\<And>a. (\<And>j. j < ?n \<Longrightarrow> \<not> in_foot (?X j) a) \<Longrightarrow> st2 a = st1 a"
    "\<And>j k. j < ?n \<Longrightarrow> k < size_of (?X j) \<Longrightarrow> st2 (xx_byte (?X j) k) = st1 (aa_byte st1 sp (?A j) k)"
    by auto
  let ?st = "store (AB rax_off) 8 (of_nat (fi_ssecount xxI)) st2"
  have ok: "xx_ok (?X j)" if "j < ?n" for j using c(3) [OF that] by (simp add: compat_def)
  have rax: "?st (xx_byte (?X j) k) = st2 (xx_byte (?X j) k)" if "j < ?n" "k < size_of (?X j)" for j k
    using xx_byte_foot [OF ok that(2)] rax_not_in_foot [OF ok] that(1)
    by (cases "xx_byte (?X j) k") (auto simp: args_layout)
  have "?st (xx_byte (?X j) k) = st (aa_byte st sp (?A j) k)" if "j < ?n" "k < size_of (?X j)" for j k
    using rax st2(3) st1(2) aa_byte_not_AB aa_byte_cong [of st1 st] that by simp
  moreover have "load ?st (AB (slot ?r)) 8 = result_address aaI sret st" if ind: "te_is_indirect (fi_rinfo xxI)"
  proof (rule load_bytes)
    fix i :: nat assume i: "i < 8"
    have "slot_end ?r \<le> rax_off" using c(6) ind slot_end_le by blast
    then have "slot ?r + 8 \<le> rax_off" by (auto simp: slot_end_def split: if_splits)
    moreover have "\<not> in_foot (?X j) (AB (slot ?r + i))" if "j < ?n" for j
    proof -
      have "slot ?r + 8 \<le> fst v \<or> snd v \<le> slot ?r" if "v \<in> set (spans (?X j))" for v
        using c(4) [OF \<open>j < ?n\<close>] ind that by (simp add: spans_apart_def sret_span_def Let_def)
      then show ?thesis using i by (fastforce simp: in_foot_spans)
    qed
    ultimately show "?st (addr_add (AB (slot ?r)) i) = get_byte (result_address aaI sret st) i"
      using st1(3) [OF ind i] st2(2) i by simp
  qed
  moreover have "load ?st (AB rax_off) 8 = of_nat (fi_ssecount xxI)"
    by (rule load_bytes) simp
  moreover have "?st a = st a" if "not_AB a" for a
    using that st2(2) not_AB_foot st1(2) by (cases a) (auto simp: not_AB_def)
  moreover have "?st (AB k) = st (AB k)"
    if "sizeof_register_args \<le> k" "\<forall>i < ?n. \<not> in_foot (?X i) (AB k)" for k
    using that st1(4) st2(2) [of "AB k"] by (simp add: args_layout)
  ultimately show ?thesis
    using st1(1) st2(1) by (auto simp: abi_dy_a2x_entry_trans_internal_def)
qed

text \<open>
  C16. Entry translation.  If the two descriptions of a call fit each other, the arguments have
  places of their own on the x86-64 side, and the register for the address of the result is
  none of them, then the translation does not fail; every byte of every argument is at its x86-64
  place what it was at its AArch64 place when the translation started, the result register holds
  the address of the result, \<open>rax\<close> the number of vector registers, and neither the guest
  registers nor the memory change.
\<close>

theorem entry_translation_moves_arguments:
  assumes "entry_ok aaI xxI"
  shows "\<exists>st'. abi_dy_a2x_entry_trans_internal aaI xxI sret sp st = Inr st'
    \<and> (\<forall>i < fi_nargs xxI. \<forall>k < size_of (fi_ainfo xxI ! i).
         st' (xx_byte (fi_ainfo xxI ! i) k) = st (aa_byte st sp (fi_ainfo aaI ! i) k))
    \<and> (te_is_indirect (fi_rinfo xxI) \<longrightarrow>
         load st' (AB (slot (reg_of (fi_rinfo xxI) 0))) 8 = result_address aaI sret st)
    \<and> load st' (AB rax_off) 8 = of_nat (fi_ssecount xxI)
    \<and> (\<forall>a. not_AB a \<longrightarrow> st' a = st a)"
  using entry_moves [OF assms] by blast

section \<open>A concrete call\<close>

text \<open>A function of an int, a structure of two floats and a char that returns a structure of
  three doubles: the result is returned in memory by x86-64 only, the floats are packed.\<close>

abbreviation bridge_sig :: string where
  "bridge_sig \<equiv> ''{P=ddd}i{V=ff}c'' @ [NUL]"

abbreviation bridge_state :: mstate where
  "bridge_state \<equiv> (\<lambda>a. 0) (XB 0 := 7, ZB 1 2 := 9, MB 4105 := 5)"

lemma bridge_handle:
  "case handle wit_junk bridge_sig True True InvalidValue of
     Inr (True, Some aa, Some xx) \<Rightarrow> entry_ok aa xx \<and> fi_nargs xx = 3 \<and> te_is_indirect (fi_rinfo xx)
       \<and> reg_of (fi_rinfo xx) 0 = TE_RDI \<and> fi_ssecount xx = 1 \<and> \<not> te_is_indirect (fi_rinfo aa)
       \<and> 0 < size_of (fi_ainfo xx ! 0) \<and> 6 < size_of (fi_ainfo xx ! 1)
       \<and> xx_byte (fi_ainfo xx ! 0) 0 = AB 8 \<and> aa_byte (\<lambda>a. 0) 0 (fi_ainfo aa ! 0) 0 = XB 0
       \<and> xx_byte (fi_ainfo xx ! 1) 6 = AB 54 \<and> aa_byte (\<lambda>a. 0) 0 (fi_ainfo aa ! 1) 6 = ZB 1 2
   | _ \<Rightarrow> False"
  by code_simp

lemma aa_byte_direct: "aa_byte st sp aa k = XB j \<or> aa_byte st sp aa k = ZB q j \<Longrightarrow> aa_byte st' sp' aa k = aa_byte st sp aa k"
  by (auto simp: aa_byte_def split: if_splits)

theorem entry_translation_moves_arguments_witness:
  "\<exists>aa xx st'. handle wit_junk bridge_sig True True InvalidValue = Inr (True, Some aa, Some xx)
    \<and> abi_dy_a2x_entry_trans_internal aa xx 4096 8192 bridge_state = Inr st'
    \<and> st' (AB (gpr_off 1)) = 7 \<and> st' (AB (sse_off 0 + 6)) = 9
    \<and> load st' (AB (gpr_off 0)) 8 = 4096 \<and> load st' (AB rax_off) 8 = 1"
proof -
  from bridge_handle obtain aa xx where h: "handle wit_junk bridge_sig True True InvalidValue = Inr (True, Some aa, Some xx)"
    and ok: "entry_ok aa xx" and f: "fi_nargs xx = 3" "te_is_indirect (fi_rinfo xx)"
      "reg_of (fi_rinfo xx) 0 = TE_RDI" "fi_ssecount xx = 1" "\<not> te_is_indirect (fi_rinfo aa)"
      "0 < size_of (fi_ainfo xx ! 0)" "6 < size_of (fi_ainfo xx ! 1)"
      "xx_byte (fi_ainfo xx ! 0) 0 = AB 8" "aa_byte (\<lambda>a. 0) 0 (fi_ainfo aa ! 0) 0 = XB 0"
      "xx_byte (fi_ainfo xx ! 1) 6 = AB 54" "aa_byte (\<lambda>a. 0) 0 (fi_ainfo aa ! 1) 6 = ZB 1 2"
    by (auto split: sum.splits option.splits bool.splits)
  from entry_translation_moves_arguments [OF ok, of 4096 8192 bridge_state] obtain st' where
    st': "abi_dy_a2x_entry_trans_internal aa xx 4096 8192 bridge_state = Inr st'"
    "\<And>i k. i < fi_nargs xx \<Longrightarrow> k < size_of (fi_ainfo xx ! i) \<Longrightarrow>
       st' (xx_byte (fi_ainfo xx ! i) k) = bridge_state (aa_byte bridge_state 8192 (fi_ainfo aa ! i) k)"
    "load st' (AB (slot (reg_of (fi_rinfo xx) 0))) 8 = result_address aa 4096 bridge_state"
    "load st' (AB rax_off) 8 = of_nat (fi_ssecount xx)"
    using f(2) by blast
  have "aa_byte bridge_state 8192 (fi_ainfo aa ! 0) 0 = XB 0" "aa_byte bridge_state 8192 (fi_ainfo aa ! 1) 6 = ZB 1 2"
    using aa_byte_direct f(9,11) by metis+
  then have "st' (AB 8) = 7" "st' (AB 54) = 9"
    using st'(2) [of 0 0] st'(2) [of 1 6] f by simp_all
  moreover have "slot TE_RDI = gpr_off 0" by code_simp
  ultimately show ?thesis
    using h st'(1,3,4) f(3,4,5) by (auto simp: args_layout result_address_def)
qed

end
