(* ===== verification/Marshal_Exit.thy ===== *)
theory Marshal_Exit
  imports Marshal_Entry
begin

text \<open>
  The exit translation of \<open>AArch64tox64.inc.c\<close>: every byte of the result arrives in the AArch64
  result registers, and no other place changes.
\<close>

section \<open>Writing a register\<close>

definition not_MB :: "addr \<Rightarrow> bool" where
  "not_MB a \<longleftrightarrow> (case a of MB _ \<Rightarrow> False | _ \<Rightarrow> True)"

lemma addr_off_add: "not_MB d \<Longrightarrow> addr_off d (addr_add d b) = Some b"
  by (cases d) (simp_all add: not_MB_def)

lemma addr_off_SomeD: "not_MB d \<Longrightarrow> addr_off d a = Some i \<Longrightarrow> a = addr_add d i"
  by (cases d; cases a) (auto simp: not_MB_def split: if_splits)

lemma memcpy_at: "not_MB d \<Longrightarrow> b < n \<Longrightarrow> memcpy d src n st (addr_add d b) = st (addr_add src b)"
  by (simp add: memcpy_def addr_off_add)

lemma memcpy_frame: "not_MB d \<Longrightarrow> (\<And>b. b < n \<Longrightarrow> a \<noteq> addr_add d b) \<Longrightarrow> memcpy d src n st a = st a"
  by (auto simp: memcpy_def split: option.split dest: addr_off_SomeD)

lemma store_at: "not_MB d \<Longrightarrow> b < n \<Longrightarrow> store d n v st (addr_add d b) = get_byte v b"
  by (simp add: store_def addr_off_add)

lemma store_frame: "not_MB d \<Longrightarrow> (\<And>b. b < n \<Longrightarrow> a \<noteq> addr_add d b) \<Longrightarrow> store d n v st a = st a"
  by (auto simp: store_def split: option.split dest: addr_off_SomeD)

lemma store_at_above: "not_MB d \<Longrightarrow> n \<le> b \<Longrightarrow> store d n v st (addr_add d b) = st (addr_add d b)"
  by (simp add: store_def addr_off_add)

section \<open>Result registers\<close>

lemma a64_place_not_MB: "not_MB (a64_place r)"
  by (simp add: not_MB_def a64_place_def a64_enum_2_ptr_def)

definition reg_width :: "nat \<Rightarrow> nat" where
  "reg_width r = (if vec_reg r then 16 else 8)"

definition in_reg :: "nat \<Rightarrow> addr \<Rightarrow> bool" where
  "in_reg r a \<longleftrightarrow> (\<exists>b < reg_width r. a = addr_add (a64_place r) b)"

lemma in_regI: "b < reg_width r \<Longrightarrow> in_reg r (addr_add (a64_place r) b)"
  by (auto simp: in_reg_def)

lemma in_reg_register: "in_reg r a \<Longrightarrow> (\<exists>k. a = XB k) \<or> (\<exists>q k. a = ZB q k)"
  using a64_place_not_MB [of r] a64_place_not_AB [of r 0]
  by (cases "a64_place r") (auto simp: in_reg_def not_MB_def not_AB_def)

lemma place_form:
  assumes "a64_reg r"
  shows "\<exists>i. a64_place r = (if vec_reg r then ZB i 0 else XB (8 * i))"
  using assms by (auto simp: a64_reg_def vec_reg_def a64_place_def a64_enum_2_ptr_def te_reg_defs)

lemma place_apart:
  assumes "a64_reg r" "a64_reg r'" "a64_place r \<noteq> a64_place r'" "in_reg r a"
  shows "\<not> in_reg r' a"
  using place_form [OF assms(1)] place_form [OF assms(2)] assms(3,4)
  by (auto simp: in_reg_def reg_width_def split: if_splits)

definition ret_reg :: "nat \<Rightarrow> bool" where
  "ret_reg r \<longleftrightarrow> (case x64_enum_2_ptr r of Inr _ \<Rightarrow> True | Inl _ \<Rightarrow> False)"

definition rslot :: "nat \<Rightarrow> nat" where
  "rslot r = (case x64_enum_2_ptr r of Inr (AB k) \<Rightarrow> k | _ \<Rightarrow> 0)"

lemma ret_ptr: "ret_reg r \<Longrightarrow> x64_enum_2_ptr r = Inr (AB (rslot r))"
  by (simp add: ret_reg_def rslot_def x64_enum_2_ptr_def split: if_splits)

text \<open>The bytes of a result register that its extension keeps.\<close>

definition ret_keeps :: "nat \<Rightarrow> nat" where
  "ret_keeps r = (if r = TE_AL \<or> r = TE_DL then 1 else if r = TE_AX then 2 else 8)"

definition ret_loc_ok :: "nat \<Rightarrow> nat \<Rightarrow> bool" where
  "ret_loc_ok r loc \<longleftrightarrow>
     (if r = TE_AL \<or> r = TE_DL then loc \<in> {TE_SExt8_32, TE_ZExt8_32, TE_Full}
      else if r = TE_AX then loc \<in> {TE_SExt16_32, TE_ZExt16_32, TE_Full} else True)"

lemma extend_ret_spec:
  assumes d: "not_MB d" and "ret_loc_ok r loc"
  shows "\<exists>st'. extend_ret_by_reg_loc_info d r loc st = Inr st'
    \<and> (\<forall>a. (\<forall>b<4. a \<noteq> addr_add d b) \<longrightarrow> st' a = st a)
    \<and> (\<forall>b < ret_keeps r. st' (addr_add d b) = st (addr_add d b))"
proof -
  have sx: "b < 1 \<Longrightarrow> get_byte (ucast (scast (ucast (load st d 1) :: u8) :: u32)) b = st (addr_add d b)"
    "b < 2 \<Longrightarrow> get_byte (ucast (scast (ucast (load st d 2) :: u16) :: u32)) b = st (addr_add d b)" for b
    using get_byte_scast(1) [of b "ucast (load st d 1)"] get_byte_scast(2) [of b "load st d 2"]
      get_byte_load [of b 1 st d] get_byte_load [of b 2 st d] by (auto simp: get_byte_def)
  have zx: "b < 1 \<Longrightarrow> get_byte (load st d 1) b = st (addr_add d b)"
    "b < 2 \<Longrightarrow> get_byte (load st d 2) b = st (addr_add d b)" for b
    using get_byte_load [of b 1 st d] get_byte_load [of b 2 st d] by simp_all
  have "extend_ret_by_reg_loc_info d r loc st = Inr st
    \<or> (\<exists>v. extend_ret_by_reg_loc_info d r loc st = Inr (store d 4 v st) \<and> ret_keeps r \<le> 2
         \<and> (\<forall>b < ret_keeps r. get_byte v b = st (addr_add d b)))"
    (is "?none \<or> ?some")
  proof -
    consider (b) "r = TE_AL \<or> r = TE_DL" | (w) "\<not> (r = TE_AL \<or> r = TE_DL)" "r = TE_AX"
      | (full) "\<not> (r = TE_AL \<or> r = TE_DL)" "r \<noteq> TE_AX" by blast
    then show ?thesis
    proof cases
      case b
      let ?v = "if loc = TE_SExt8_32 then ucast (scast (ucast (load st d 1) :: u8) :: u32) else load st d 1"
      have "extend_ret_by_reg_loc_info d r loc st = Inr (store d 4 ?v st)" "ret_keeps r = 1"
        using b assms(2) by (auto simp: extend_ret_by_reg_loc_info_def ret_loc_ok_def ret_keeps_def)
      moreover have "\<forall>b<1. get_byte ?v b = st (addr_add d b)" using sx(1) zx(1) by simp
      ultimately show ?thesis by (metis one_le_numeral)
    next
      case w
      let ?v = "if loc = TE_SExt16_32 then ucast (scast (ucast (load st d 2) :: u16) :: u32) else load st d 2"
      have "extend_ret_by_reg_loc_info d r loc st = Inr (store d 4 ?v st)" "ret_keeps r = 2"
        using w assms(2) by (auto simp: extend_ret_by_reg_loc_info_def ret_loc_ok_def ret_keeps_def)
      moreover have "\<forall>b<2. get_byte ?v b = st (addr_add d b)" using sx(2) zx(2) by simp
      ultimately show ?thesis by (metis order_refl)
    next
      case full
      then show ?thesis by (simp add: extend_ret_by_reg_loc_info_def)
    qed
  qed
  then show ?thesis
  proof (elim disjE exE conjE)
    fix v
    assume "extend_ret_by_reg_loc_info d r loc st = Inr (store d 4 v st)" "ret_keeps r \<le> 2"
      "\<forall>b < ret_keeps r. get_byte v b = st (addr_add d b)"
    moreover have "store d 4 v st a = st a" if "\<forall>b<4. a \<noteq> addr_add d b" for a
      using that by (intro store_frame [OF d]) blast
    ultimately show ?thesis using store_at [OF d, of _ 4 v st] by simp
  qed simp
qed

section \<open>Register by register\<close>

lemma ret_keeps_le: "ret_keeps r \<le> 8"
  by (simp add: ret_keeps_def)

definition ret_pair_ok :: "ABIArgInfo \<Rightarrow> ABIArgInfo \<Rightarrow> nat \<Rightarrow> bool" where
  "ret_pair_ok aa xx i \<longleftrightarrow> ret_reg (reg_of xx i) \<and> a64_reg (reg_of aa i)
     \<and> ret_loc_ok (reg_of xx i) (te_get_reg_locinfo xx i)
     \<and> (is_xmm (reg_of xx i) \<longrightarrow> vec_reg (reg_of aa i))"

lemma ret_one:
  assumes ok: "ret_pair_ok aa xx i"
  shows "\<exists>st'. (if is_xmm (reg_of xx i) then Inr (memcpy (a64_place (reg_of aa i)) (AB (rslot (reg_of xx i))) 16 st)
        else extend_ret_by_reg_loc_info (a64_place (reg_of aa i)) (reg_of xx i) (te_get_reg_locinfo xx i)
          (memcpy (a64_place (reg_of aa i)) (AB (rslot (reg_of xx i))) 8 st)) = Inr st'
    \<and> (\<forall>a. \<not> in_reg (reg_of aa i) a \<longrightarrow> st' a = st a)
    \<and> (\<forall>b < ret_keeps (reg_of xx i). st' (addr_add (a64_place (reg_of aa i)) b) = st (AB (rslot (reg_of xx i) + b)))"
proof -
  let ?d = "a64_place (reg_of aa i)" and ?s = "AB (rslot (reg_of xx i))"
  note nm = a64_place_not_MB [of "reg_of aa i"]
  have keep: "b < 8" if "b < ret_keeps (reg_of xx i)" for b using that ret_keeps_le [of "reg_of xx i"] by simp
  have fr: "memcpy ?d ?s n st a = st a" if "\<not> in_reg (reg_of aa i) a" "n \<le> reg_width (reg_of aa i)" for n a
    by (rule memcpy_frame [OF nm]) (use that in \<open>auto simp: in_reg_def\<close>)
  show ?thesis
  proof (cases "is_xmm (reg_of xx i)")
    case True
    then have "reg_width (reg_of aa i) = 16" using ok by (simp add: ret_pair_ok_def reg_width_def)
    moreover have "memcpy ?d ?s 16 st (addr_add ?d b) = st (AB (rslot (reg_of xx i) + b))"
      if "b < ret_keeps (reg_of xx i)" for b
      using memcpy_at [OF nm, of b 16 ?s st] keep [OF that] by simp
    ultimately show ?thesis using True fr [of _ 16] by simp
  next
    case False
    have ge: "8 \<le> reg_width (reg_of aa i)" by (simp add: reg_width_def)
    have "ret_loc_ok (reg_of xx i) (te_get_reg_locinfo xx i)" using ok by (simp add: ret_pair_ok_def)
    from extend_ret_spec [OF nm this, of "memcpy ?d ?s 8 st"] obtain st' where
      st': "extend_ret_by_reg_loc_info ?d (reg_of xx i) (te_get_reg_locinfo xx i) (memcpy ?d ?s 8 st) = Inr st'"
      "\<And>a. (\<forall>b<4. a \<noteq> addr_add ?d b) \<Longrightarrow> st' a = memcpy ?d ?s 8 st a"
      "\<And>b. b < ret_keeps (reg_of xx i) \<Longrightarrow> st' (addr_add ?d b) = memcpy ?d ?s 8 st (addr_add ?d b)" by blast
    have "st' a = st a" if "\<not> in_reg (reg_of aa i) a" for a
    proof -
      have "\<forall>b<4. a \<noteq> addr_add ?d b" using that ge by (auto simp: in_reg_def)
      then show ?thesis using st'(2) fr [OF that ge] by simp
    qed
    then show ?thesis using False st' keep memcpy_at [OF nm, of _ 8 ?s st] by simp
  qed
qed

definition places_apart :: "ABIArgInfo \<Rightarrow> nat \<Rightarrow> bool" where
  "places_apart aa n \<longleftrightarrow> (\<forall>j<n. \<forall>i<j. a64_place (reg_of aa i) \<noteq> a64_place (reg_of aa j))"

lemma AB_not_in_reg: "\<not> in_reg r (AB k)" "\<not> in_reg r (MB p)"
  using in_reg_register by blast+

lemma ret_regs_spec:
  assumes "j + k \<le> 4" "\<forall>i. j \<le> i \<and> i < j + k \<longrightarrow> ret_pair_ok aa xx i" "places_apart aa (j + k)"
  shows "\<exists>st'. ret_regs j k aa xx st = Inr st'
    \<and> (\<forall>a. (\<forall>i. j \<le> i \<and> i < j + k \<longrightarrow> \<not> in_reg (reg_of aa i) a) \<longrightarrow> st' a = st a)
    \<and> (\<forall>i b. j \<le> i \<longrightarrow> i < j + k \<longrightarrow> b < ret_keeps (reg_of xx i) \<longrightarrow>
         st' (addr_add (a64_place (reg_of aa i)) b) = st (AB (rslot (reg_of xx i) + b)))"
  using assms
proof (induction k arbitrary: j st)
  case (Suc k)
  have ok: "ret_pair_ok aa xx j" using Suc.prems(2) by simp
  from ret_one [OF ok, of st] obtain st1 where st1:
    "(if is_xmm (reg_of xx j) then Inr (memcpy (a64_place (reg_of aa j)) (AB (rslot (reg_of xx j))) 16 st)
        else extend_ret_by_reg_loc_info (a64_place (reg_of aa j)) (reg_of xx j) (te_get_reg_locinfo xx j)
          (memcpy (a64_place (reg_of aa j)) (AB (rslot (reg_of xx j))) 8 st)) = Inr st1"
    "\<And>a. \<not> in_reg (reg_of aa j) a \<Longrightarrow> st1 a = st a"
    "\<And>b. b < ret_keeps (reg_of xx j) \<Longrightarrow> st1 (addr_add (a64_place (reg_of aa j)) b) = st (AB (rslot (reg_of xx j) + b))"
    by blast
  have step: "ret_regs j (Suc k) aa xx st = ret_regs (j + 1) k aa xx st1"
    using Suc.prems(1) ok st1(1) by (simp add: te_get_reg_eq ret_pair_ok_def ret_ptr a64_ptr_place)
  have "\<exists>st'. ret_regs (j + 1) k aa xx st1 = Inr st'
    \<and> (\<forall>a. (\<forall>i. j + 1 \<le> i \<and> i < j + 1 + k \<longrightarrow> \<not> in_reg (reg_of aa i) a) \<longrightarrow> st' a = st1 a)
    \<and> (\<forall>i b. j + 1 \<le> i \<longrightarrow> i < j + 1 + k \<longrightarrow> b < ret_keeps (reg_of xx i) \<longrightarrow>
         st' (addr_add (a64_place (reg_of aa i)) b) = st1 (AB (rslot (reg_of xx i) + b)))"
    by (rule Suc.IH) (use Suc.prems in auto)
  then obtain st' where st': "ret_regs (j + 1) k aa xx st1 = Inr st'"
    "\<And>a. (\<And>i. j < i \<Longrightarrow> i < j + Suc k \<Longrightarrow> \<not> in_reg (reg_of aa i) a) \<Longrightarrow> st' a = st1 a"
    "\<And>i b. j < i \<Longrightarrow> i < j + Suc k \<Longrightarrow> b < ret_keeps (reg_of xx i) \<Longrightarrow>
         st' (addr_add (a64_place (reg_of aa i)) b) = st1 (AB (rslot (reg_of xx i) + b))"
    by (auto simp: Suc_le_eq)
  have frame: "st' a = st a" if "\<And>i. j \<le> i \<Longrightarrow> i < j + Suc k \<Longrightarrow> \<not> in_reg (reg_of aa i) a" for a
    using st'(2) [of a] st1(2) [of a] that that [of j] by simp
  have val: "st' (addr_add (a64_place (reg_of aa i)) b) = st (AB (rslot (reg_of xx i) + b))"
    if i: "j \<le> i" "i < j + Suc k" and b: "b < ret_keeps (reg_of xx i)" for i b
  proof (cases "i = j")
    case True
    have b8: "b < reg_width (reg_of aa i)" using b ret_keeps_le [of "reg_of xx i"] by (simp add: reg_width_def)
    have "st' (addr_add (a64_place (reg_of aa j)) b) = st1 (addr_add (a64_place (reg_of aa j)) b)"
    proof (rule st'(2))
      fix i' assume i': "j < i'" "i' < j + Suc k"
      then have "a64_place (reg_of aa j) \<noteq> a64_place (reg_of aa i')" "a64_reg (reg_of aa j)" "a64_reg (reg_of aa i')"
        using Suc.prems(2,3) by (auto simp: places_apart_def ret_pair_ok_def)
      then show "\<not> in_reg (reg_of aa i') (addr_add (a64_place (reg_of aa j)) b)"
        using place_apart in_regI b8 True by blast
    qed
    then show ?thesis using True st1(3) b by simp
  next
    case False
    then show ?thesis using st'(3) [of i b] i b st1(2) AB_not_in_reg by simp
  qed
  show ?case using step st'(1) frame val by auto
qed simp

section \<open>Copies of one size\<close>

fun cp_regs :: "nat \<Rightarrow> (nat \<Rightarrow> addr) \<Rightarrow> ABIArgInfo \<Rightarrow> nat \<Rightarrow> mstate \<Rightarrow> mstate" where
  "cp_regs w src aa 0 st = st"
| "cp_regs w src aa (Suc n) st = memcpy (a64_place (reg_of aa n)) (src n) w (cp_regs w src aa n st)"

lemma cp_regs_frame:
  assumes "\<And>i. i < n \<Longrightarrow> w \<le> reg_width (reg_of aa i)" "\<And>i. i < n \<Longrightarrow> \<not> in_reg (reg_of aa i) a"
  shows "cp_regs w src aa n st a = st a"
  using assms
proof (induction n)
  case (Suc n)
  then have "w \<le> reg_width (reg_of aa n)" "\<not> in_reg (reg_of aa n) a" by simp_all
  then have "memcpy (a64_place (reg_of aa n)) (src n) w (cp_regs w src aa n st) a = cp_regs w src aa n st a"
    by (intro memcpy_frame [OF a64_place_not_MB]) (auto simp: in_reg_def)
  then show ?case using Suc by simp
qed simp

lemma cp_regs_at:
  assumes "\<And>i. i < n \<Longrightarrow> w \<le> reg_width (reg_of aa i)" "\<And>i. i < n \<Longrightarrow> a64_reg (reg_of aa i)" "places_apart aa n"
    and "\<And>i b r. \<not> in_reg r (addr_add (src i) b)" and "i < n" "b < w"
  shows "cp_regs w src aa n st (addr_add (a64_place (reg_of aa i)) b) = st (addr_add (src i) b)"
  using assms
proof (induction n)
  case (Suc n)
  let ?m = "cp_regs w src aa n st"
  show ?case
  proof (cases "i = n")
    case True
    have "?m (addr_add (src n) b) = st (addr_add (src n) b)"
      by (rule cp_regs_frame) (use Suc.prems in auto)
    then show ?thesis using True Suc.prems(6) memcpy_at [OF a64_place_not_MB] by simp
  next
    case False
    with Suc.prems(5) have i: "i < n" by simp
    then have "a64_place (reg_of aa i) \<noteq> a64_place (reg_of aa n)" using Suc.prems(3) by (simp add: places_apart_def)
    moreover have "in_reg (reg_of aa i) (addr_add (a64_place (reg_of aa i)) b)"
      using Suc.prems(1) [of i] Suc.prems(6) i by (intro in_regI) simp
    ultimately have "\<not> in_reg (reg_of aa n) (addr_add (a64_place (reg_of aa i)) b)"
      using place_apart Suc.prems(2) [of i] Suc.prems(2) [of n] i by simp
    then have "\<And>c. c < w \<Longrightarrow> addr_add (a64_place (reg_of aa i)) b \<noteq> addr_add (a64_place (reg_of aa n)) c"
      using Suc.prems(1) [of n] by (auto simp: in_reg_def)
    then have "memcpy (a64_place (reg_of aa n)) (src n) w ?m (addr_add (a64_place (reg_of aa i)) b)
      = ?m (addr_add (a64_place (reg_of aa i)) b)"
      by (rule memcpy_frame [OF a64_place_not_MB])
    moreover have "?m (addr_add (a64_place (reg_of aa i)) b) = st (addr_add (src i) b)"
      using Suc.IH Suc.prems i by (simp add: places_apart_def)
    ultimately show ?thesis by simp
  qed
qed simp

lemma sret_to_regs_eq:
  assumes "j + k \<le> 4" "\<And>i. i < j + k \<Longrightarrow> a64_reg (reg_of aa i)" "sret \<noteq> 0"
  shows "sret_to_regs w j k aa sret (cp_regs w (\<lambda>i. MB (sret + of_nat (w * i))) aa j st)
    = Inr (cp_regs w (\<lambda>i. MB (sret + of_nat (w * i))) aa (j + k) st)"
  using assms
proof (induction k arbitrary: j)
  case (Suc k)
  from Suc.IH [of "Suc j"] Suc.prems show ?case by (simp add: te_get_reg_eq a64_ptr_place)
qed simp

lemma ret_single_eq:
  "xi < 4 \<Longrightarrow> ai < 4 \<Longrightarrow> ret_reg (reg_of xx xi) \<Longrightarrow> a64_reg (reg_of aa ai) \<Longrightarrow>
   ret_single aa xx xi off ai st = Inr (memcpy (a64_place (reg_of aa ai)) (AB (rslot (reg_of xx xi) + off)) 4 st)"
  by (simp add: ret_single_def te_get_reg_eq ret_ptr a64_ptr_place)

lemma assert_run_eq:
  assumes "j + k \<le> 3" "\<And>i. j \<le> i \<Longrightarrow> i < j + k \<Longrightarrow> reg_of aa (i + 1) = reg_of aa i + 1"
  shows "assert_run j k aa = Inr ()"
  using assms
proof (induction k arbitrary: j)
  case (Suc k)
  have "assert_next aa j = Inr ()" using Suc.prems by (intro assert_next_eq) simp_all
  then show ?case using Suc by simp
qed simp

section \<open>The result\<close>

definition packed_result :: "ABIArgInfo \<Rightarrow> ABIArgInfo \<Rightarrow> bool" where
  "packed_result aa xx \<longleftrightarrow>
     (te_num_of_reg xx = 1 \<and> te_num_of_reg aa = 2 \<or> te_num_of_reg xx = 2 \<and> te_num_of_reg aa \<in> {3, 4})
     \<and> (\<forall>i < te_num_of_reg xx. reg_of xx i = TE_XMM i) \<and> (\<forall>i < te_num_of_reg aa. reg_of aa i = TE_S i)"

definition sret_result :: "nat \<Rightarrow> ABIArgInfo \<Rightarrow> bool" where
  "sret_result e aa \<longleftrightarrow> 0 < te_num_of_reg aa \<and> te_num_of_reg aa \<le> 4 \<and>
     (e = 8 \<and> (\<forall>i < te_num_of_reg aa. reg_of aa i = TE_D i) \<or> e = 16 \<and> (\<forall>i < te_num_of_reg aa. reg_of aa i = TE_Q i))"

definition plain_result :: "nat \<Rightarrow> ABIArgInfo \<Rightarrow> ABIArgInfo \<Rightarrow> bool" where
  "plain_result n aa xx \<longleftrightarrow> te_num_of_reg xx = te_num_of_reg aa \<and> te_num_of_reg aa \<le> 4 \<and> n \<le> 8 * te_num_of_reg aa
     \<and> (\<forall>i < te_num_of_reg aa. ret_pair_ok aa xx i \<and> min 8 (n - 8 * i) \<le> ret_keeps (reg_of xx i))
     \<and> places_apart aa (te_num_of_reg aa)"

text \<open>A result of \<open>n\<close> bytes, in registers of \<open>e\<close> bytes each on the AArch64 side.\<close>

definition result_ok :: "nat \<Rightarrow> nat \<Rightarrow> u64 \<Rightarrow> ABIArgInfo \<Rightarrow> ABIArgInfo \<Rightarrow> bool" where
  "result_ok n e sret aa xx \<longleftrightarrow> \<not> te_is_indirect aa \<and>
     (if te_is_indirect xx then 0 < te_num_of_reg xx \<and> sret \<noteq> 0 \<and> sret_result e aa \<and> n = e * te_num_of_reg aa
      else e = 8 \<and> plain_result n aa xx \<or> e = 4 \<and> packed_result aa xx \<and> n = 4 * te_num_of_reg aa)"

definition xx_result_byte :: "u64 \<Rightarrow> ABIArgInfo \<Rightarrow> nat \<Rightarrow> addr" where
  "xx_result_byte sret xx k =
     (if te_is_indirect xx then MB (sret + of_nat k) else AB (rslot (reg_of xx (k div 8)) + k mod 8))"

definition aa_result_byte :: "nat \<Rightarrow> ABIArgInfo \<Rightarrow> nat \<Rightarrow> addr" where
  "aa_result_byte e aa k = addr_add (a64_place (reg_of aa (k div e))) (k mod e)"

definition result_moved :: "nat \<Rightarrow> nat \<Rightarrow> u64 \<Rightarrow> ABIArgInfo \<Rightarrow> ABIArgInfo \<Rightarrow> mstate \<Rightarrow> mstate \<Rightarrow> bool" where
  "result_moved n e sret aa xx st st' \<longleftrightarrow>
     (\<forall>k<n. st' (aa_result_byte e aa k) = st (xx_result_byte sret xx k))
     \<and> (\<forall>a. (\<forall>i < te_num_of_reg aa. \<not> in_reg (reg_of aa i) a) \<longrightarrow> st' a = st a)"

lemma plain_result_moved:
  assumes "plain_result n aa xx" "\<not> te_is_indirect xx"
  shows "\<exists>st'. ret_regs 0 (te_num_of_reg xx) aa xx st = Inr st' \<and> result_moved n 8 sret aa xx st st'"
proof -
  let ?m = "te_num_of_reg aa"
  have ok: "te_num_of_reg xx = ?m" "?m \<le> 4" "n \<le> 8 * ?m" "\<And>i. i < ?m \<Longrightarrow> ret_pair_ok aa xx i"
    "\<And>i. i < ?m \<Longrightarrow> min 8 (n - 8 * i) \<le> ret_keeps (reg_of xx i)" "places_apart aa ?m"
    using assms(1) by (auto simp: plain_result_def)
  from ret_regs_spec [of 0 ?m aa xx st] ok obtain st' where st': "ret_regs 0 ?m aa xx st = Inr st'"
    "\<And>a. (\<And>i. i < ?m \<Longrightarrow> \<not> in_reg (reg_of aa i) a) \<Longrightarrow> st' a = st a"
    "\<And>i b. i < ?m \<Longrightarrow> b < ret_keeps (reg_of xx i) \<Longrightarrow>
       st' (addr_add (a64_place (reg_of aa i)) b) = st (AB (rslot (reg_of xx i) + b))"
    by auto
  have "st' (aa_result_byte 8 aa k) = st (xx_result_byte sret xx k)" if k: "k < n" for k
  proof -
    have i: "k div 8 < ?m" using k ok(3) by (simp add: less_mult_imp_div_less mult.commute)
    have "k mod 8 < n - 8 * (k div 8)" using k mult_div_mod_eq [of 8 k] by linarith
    then have "k mod 8 < min 8 (n - 8 * (k div 8))" by simp
    with ok(5) [OF i] have "k mod 8 < ret_keeps (reg_of xx (k div 8))" by simp
    from st'(3) [OF i this] show ?thesis using assms(2) by (simp add: aa_result_byte_def xx_result_byte_def)
  qed
  then show ?thesis using st' ok(1) by (auto simp: result_moved_def)
qed

lemma cp_regs_moved:
  assumes w: "\<And>i. i < te_num_of_reg aa \<Longrightarrow> e \<le> reg_width (reg_of aa i) \<and> a64_reg (reg_of aa i)"
    and p: "places_apart aa (te_num_of_reg aa)" and s: "\<And>i b r. \<not> in_reg r (addr_add (src i) b)"
    and x: "\<And>k. k < e * te_num_of_reg aa \<Longrightarrow> xx_result_byte sret xx k = addr_add (src (k div e)) (k mod e)" and e: "0 < e"
  shows "result_moved (e * te_num_of_reg aa) e sret aa xx st (cp_regs e src aa (te_num_of_reg aa) st)"
proof -
  have "cp_regs e src aa (te_num_of_reg aa) st (aa_result_byte e aa k) = st (xx_result_byte sret xx k)"
    if k: "k < e * te_num_of_reg aa" for k
  proof -
    have "k div e < te_num_of_reg aa" "k mod e < e"
      using k e by (simp_all add: less_mult_imp_div_less mult.commute)
    then show ?thesis
      using cp_regs_at [of "te_num_of_reg aa" e aa src "k div e" "k mod e" st] w p s x [OF k]
      by (simp add: aa_result_byte_def)
  qed
  then show ?thesis using cp_regs_frame w by (simp add: result_moved_def)
qed

lemma vec_places:
  assumes "\<forall>i < n. reg_of aa i = TE_S i \<or> reg_of aa i = TE_D i \<or> reg_of aa i = TE_Q i" "n \<le> 4"
  shows "places_apart aa n" "\<And>i. i < n \<Longrightarrow> a64_reg (reg_of aa i) \<and> reg_width (reg_of aa i) = 16"
proof -
  have "a64_place (reg_of aa i) = ZB i 0" if "i < n" for i
    using assms that by (auto simp: a64_place_def a64_enum_2_ptr_def te_reg_defs)
  then show "places_apart aa n" by (simp add: places_apart_def)
  show "a64_reg (reg_of aa i) \<and> reg_width (reg_of aa i) = 16" if "i < n" for i
    using assms that by (auto simp: a64_reg_def reg_width_def vec_reg_def te_reg_defs)
qed

lemma cp_regs_numeral:
  "cp_regs w src aa 2 st = memcpy (a64_place (reg_of aa 1)) (src 1) w (memcpy (a64_place (reg_of aa 0)) (src 0) w st)"
  "cp_regs w src aa 3 st = memcpy (a64_place (reg_of aa 2)) (src 2) w (cp_regs w src aa 2 st)"
  "cp_regs w src aa 4 st = memcpy (a64_place (reg_of aa 3)) (src 3) w (cp_regs w src aa 3 st)"
  by (simp_all add: eval_nat_numeral)

lemma packed_result_moved:
  assumes p: "packed_result aa xx" and d: "\<not> te_is_indirect xx"
  shows "\<exists>st'. ret_floats (te_num_of_reg xx) (te_num_of_reg aa) aa xx st = Inr st'
    \<and> result_moved (4 * te_num_of_reg aa) 4 sret aa xx st st'"
proof -
  let ?n = "te_num_of_reg xx" and ?m = "te_num_of_reg aa"
  let ?src = "\<lambda>i. AB (rslot (reg_of xx (i div 2)) + 4 * (i mod 2))"
  have n: "?n = 1 \<and> ?m = 2 \<or> ?n = 2 \<and> ?m = 3 \<or> ?n = 2 \<and> ?m = 4" using p by (auto simp: packed_result_def)
  have S: "reg_of aa i = TE_S i" if "i < ?m" for i using p that by (simp add: packed_result_def)
  have X: "reg_of xx i = TE_XMM i" if "i < ?n" for i using p that by (simp add: packed_result_def)
  have v: "places_apart aa ?m" "\<And>i. i < ?m \<Longrightarrow> a64_reg (reg_of aa i) \<and> reg_width (reg_of aa i) = 16"
    using vec_places [of ?m aa] S n by auto
  have rr: "ret_reg (reg_of xx i)" if "i < ?n" for i
  proof -
    have "ret_reg (TE_XMM 0) \<and> ret_reg (TE_XMM 1)" by code_simp
    moreover have "i = 0 \<or> i = 1" using that n by auto
    ultimately show ?thesis using X [OF that] by auto
  qed
  have aN: "assert_next aa i = Inr ()" if "i + 1 < ?m" for i
    using that S n by (intro assert_next_eq) (auto simp: TE_S_def)
  have aF: "assert_first aa (TE_S 0) (TE_S 0) = Inr ()" "assert_first xx (TE_XMM 0) (TE_XMM 0) = Inr ()"
    using S [of 0] X [of 0] n by (auto intro!: assert_first_eq)
  have xN: "assert_next xx 0 = Inr ()" if "?n = 2"
    using that X by (intro assert_next_eq) (auto simp: TE_XMM_def)
  note eqs = ret_floats_def cp_regs_numeral aF ret_single_eq
  have "ret_floats ?n ?m aa xx st = Inr (cp_regs 4 ?src aa ?m st)"
    using n
  proof (elim disjE conjE)
    assume c: "?n = 1" "?m = 2"
    have "ret_reg (reg_of xx 0)" "a64_reg (reg_of aa 0)" "a64_reg (reg_of aa 1)" "assert_next aa 0 = Inr ()"
      using c rr v(2) aN by simp_all
    then show ?thesis unfolding c by (simp add: eqs)
  next
    assume c: "?n = 2" "?m = 3"
    have "ret_reg (reg_of xx 0)" "ret_reg (reg_of xx 1)" "a64_reg (reg_of aa 0)" "a64_reg (reg_of aa 1)"
      "a64_reg (reg_of aa 2)" "assert_next aa 0 = Inr ()" "assert_next aa 1 = Inr ()" "assert_next xx 0 = Inr ()"
      using c rr v(2) aN xN by simp_all
    then show ?thesis unfolding c by (simp add: eqs)
  next
    assume c: "?n = 2" "?m = 4"
    have "ret_reg (reg_of xx 0)" "ret_reg (reg_of xx 1)" "a64_reg (reg_of aa 0)" "a64_reg (reg_of aa 1)"
      "a64_reg (reg_of aa 2)" "a64_reg (reg_of aa 3)" "assert_next aa 0 = Inr ()" "assert_next aa 1 = Inr ()"
      "assert_next xx 0 = Inr ()"
      using c rr v(2) aN xN by simp_all
    then show ?thesis unfolding c by (simp add: eqs)
  qed
  moreover have "xx_result_byte sret xx k = addr_add (?src (k div 4)) (k mod 4)" for k
  proof -
    have "k mod 8 = 4 * (k div 4 mod 2) + k mod 4" using mod_mult2_eq [of k 4 2] by simp
    moreover have "k div 8 = k div 4 div 2" by (simp add: div_mult2_eq [symmetric])
    ultimately show ?thesis using d by (simp add: xx_result_byte_def)
  qed
  then have "result_moved (4 * ?m) 4 sret aa xx st (cp_regs 4 ?src aa ?m st)"
    by (intro cp_regs_moved) (use v AB_not_in_reg in auto)
  ultimately show ?thesis by blast
qed

lemma sret_result_moved:
  assumes r: "sret_result e aa" and s: "sret \<noteq> 0" and d: "te_is_indirect xx"
  shows "\<exists>st'. exit_sret (te_num_of_reg aa) aa sret st = Inr st'
    \<and> result_moved (e * te_num_of_reg aa) e sret aa xx st st'"
proof -
  let ?m = "te_num_of_reg aa" and ?src = "\<lambda>i. MB (sret + of_nat (e * i))"
  have m: "0 < ?m" "?m \<le> 4" "e = 8 \<or> e = 16" using r by (auto simp: sret_result_def)
  have v: "places_apart aa ?m" "\<And>i. i < ?m \<Longrightarrow> a64_reg (reg_of aa i) \<and> reg_width (reg_of aa i) = 16"
    using vec_places [of ?m aa] r m(2) by (auto simp: sret_result_def)
  have "assert_run 0 (?m - 1) aa = Inr ()"
    by (rule assert_run_eq) (use r m in \<open>auto simp: sret_result_def TE_D_def TE_Q_def\<close>)
  moreover have "reg_of aa 0 = (if e = 8 then TE_D 0 else TE_Q 0)"
    using r m by (auto simp: sret_result_def)
  ultimately have "exit_sret ?m aa sret st = sret_to_regs e 0 ?m aa sret st"
    using m by (auto simp: exit_sret_def te_get_reg_eq TE_D_def TE_Q_def)
  moreover have "sret_to_regs e 0 ?m aa sret st = Inr (cp_regs e ?src aa ?m st)"
    using sret_to_regs_eq [of 0 ?m aa sret e st] v s m(2) by simp
  moreover have "xx_result_byte sret xx k = addr_add (?src (k div e)) (k mod e)" for k
  proof -
    have "of_nat k = of_nat (e * (k div e)) + (of_nat (k mod e) :: u64)"
      by (metis mult_div_mod_eq of_nat_add)
    then show ?thesis using d by (simp add: xx_result_byte_def)
  qed
  then have "result_moved (e * ?m) e sret aa xx st (cp_regs e ?src aa ?m st)"
    by (intro cp_regs_moved) (use v m AB_not_in_reg in auto)
  ultimately show ?thesis by simp
qed

lemma exit_moves:
  assumes "result_ok n e sret (fi_rinfo aaI) (fi_rinfo xxI)"
  shows "\<exists>st'. abi_dy_a2x_exit_translation aaI xxI sret st = Inr st'
    \<and> (\<forall>k<n. st' (aa_result_byte e (fi_rinfo aaI) k) = st (xx_result_byte sret (fi_rinfo xxI) k))
    \<and> (\<forall>a. (\<forall>i < te_num_of_reg (fi_rinfo aaI). \<not> in_reg (reg_of (fi_rinfo aaI) i) a) \<longrightarrow> st' a = st a)"
proof -
  let ?aa = "fi_rinfo aaI" and ?xx = "fi_rinfo xxI"
  have "\<exists>st'. abi_dy_a2x_exit_translation aaI xxI sret st = Inr st' \<and> result_moved n e sret ?aa ?xx st st'"
  proof (cases "te_is_indirect ?xx")
    case True
    with assms have c: "\<not> te_is_indirect ?aa" "0 < te_num_of_reg ?xx" "sret \<noteq> 0" "sret_result e ?aa"
      "n = e * te_num_of_reg ?aa" "0 < te_num_of_reg ?aa"
      by (auto simp: result_ok_def sret_result_def)
    then have "abi_dy_a2x_exit_translation aaI xxI sret st = exit_sret (te_num_of_reg ?aa) ?aa sret st"
      using True by (simp add: abi_dy_a2x_exit_translation_def Let_def ret_case_def)
    then show ?thesis using sret_result_moved [OF c(4,3) True, of st] c(5) by simp
  next
    case False
    with assms have na: "\<not> te_is_indirect ?aa" by (simp add: result_ok_def)
    from assms False consider (plain) "e = 8" "plain_result n ?aa ?xx"
      | (packed) "e = 4" "packed_result ?aa ?xx" "n = 4 * te_num_of_reg ?aa" by (auto simp: result_ok_def)
    then show ?thesis
    proof cases
      case plain
      then have "te_num_of_reg ?xx = te_num_of_reg ?aa" by (simp add: plain_result_def)
      then have "abi_dy_a2x_exit_translation aaI xxI sret st = ret_regs 0 (te_num_of_reg ?xx) ?aa ?xx st"
        using na False by (auto simp: abi_dy_a2x_exit_translation_def Let_def ret_case_def)
      then show ?thesis using plain_result_moved [OF plain(2) False] plain(1) by simp
    next
      case packed
      then have "te_num_of_reg ?xx < te_num_of_reg ?aa" "te_num_of_reg ?xx \<noteq> 0" by (auto simp: packed_result_def)
      then have "abi_dy_a2x_exit_translation aaI xxI sret st
        = ret_floats (te_num_of_reg ?xx) (te_num_of_reg ?aa) ?aa ?xx st"
        using na False by (simp add: abi_dy_a2x_exit_translation_def Let_def ret_case_def)
      then show ?thesis using packed_result_moved [OF packed(2) False] packed(1,3) by simp
    qed
  qed
  then show ?thesis by (simp add: result_moved_def)
qed

text \<open>
  C17. Exit translation.  For a result in the places the two conventions choose for one type
  (registers on both sides, packed floats, or memory on the x86-64 side only), the translation does
  not fail, every byte of the result arrives in its AArch64 register, and nothing but the
  result registers changes.
\<close>

theorem exit_translation_moves_result:
  assumes "result_ok n e sret (fi_rinfo aaI) (fi_rinfo xxI)"
  shows "\<exists>st'. abi_dy_a2x_exit_translation aaI xxI sret st = Inr st'
    \<and> (\<forall>k<n. st' (aa_result_byte e (fi_rinfo aaI) k) = st (xx_result_byte sret (fi_rinfo xxI) k))
    \<and> (\<forall>a. (\<forall>i < te_num_of_reg (fi_rinfo aaI). \<not> in_reg (reg_of (fi_rinfo aaI) i) a) \<longrightarrow> st' a = st a)"
  using exit_moves [OF assms] .

lemma bridge_result:
  "case handle wit_junk bridge_sig True True InvalidValue of
     Inr (True, Some aa, Some xx) \<Rightarrow> result_ok 24 8 4096 (fi_rinfo aa) (fi_rinfo xx)
       \<and> aa_result_byte 8 (fi_rinfo aa) 9 = ZB 1 1 \<and> xx_result_byte 4096 (fi_rinfo xx) 9 = MB 4105
   | _ \<Rightarrow> False"
  by code_simp

theorem exit_translation_moves_result_witness:
  "\<exists>aa xx st'. handle wit_junk bridge_sig True True InvalidValue = Inr (True, Some aa, Some xx)
    \<and> abi_dy_a2x_exit_translation aa xx 4096 bridge_state = Inr st' \<and> st' (ZB 1 1) = 5"
proof -
  from bridge_result obtain aa xx where h: "handle wit_junk bridge_sig True True InvalidValue = Inr (True, Some aa, Some xx)"
    and ok: "result_ok 24 8 4096 (fi_rinfo aa) (fi_rinfo xx)"
    and b: "aa_result_byte 8 (fi_rinfo aa) 9 = ZB 1 1" "xx_result_byte 4096 (fi_rinfo xx) 9 = MB 4105"
    by (auto split: sum.splits option.splits bool.splits)
  from exit_translation_moves_result [OF ok, of bridge_state] obtain st' where
    "abi_dy_a2x_exit_translation aa xx 4096 bridge_state = Inr st'"
    "\<forall>k<24. st' (aa_result_byte 8 (fi_rinfo aa) k) = bridge_state (xx_result_byte 4096 (fi_rinfo xx) k)" by blast
  then show ?thesis using h b by (auto dest: spec [of _ 9])
qed

end
