(* ===== verification/Bridge_Scalars.thy ===== *)
theory Bridge_Scalars
  imports Marshal_Entry
begin

text \<open>
  From the type encoding of a call to its arguments: for arguments of scalar types, what the two
  preparation functions compute for one signature always fits the entry translation.
\<close>

section \<open>Scalar types\<close>

definition scalar_types :: "ffi_type list" where
  "scalar_types = [ffi_type_uint8, ffi_type_sint8, ffi_type_uint16, ffi_type_sint16, ffi_type_uint32, ffi_type_sint32,
     ffi_type_uint64, ffi_type_sint64, ffi_type_pointer, ffi_type_float, ffi_type_double]"

abbreviation scalar_type :: "ffi_type \<Rightarrow> bool" where
  "scalar_type ty \<equiv> ty \<in> set scalar_types"

lemma scalar_size:
  assumes "scalar_type ty"
  shows "0 < unat (ffi_size ty)" "unat (ffi_size ty) \<le> 8" "ok_align (ffi_alignment ty)" "unat (ffi_alignment ty) \<le> 8"
    "keeps (locinfo_of (ffi_code ty)) = 8 \<or> unat (ffi_size ty) \<le> keeps (locinfo_of (ffi_code ty))"
proof -
  have "\<forall>ty \<in> set scalar_types. 0 < unat (ffi_size ty) \<and> unat (ffi_size ty) \<le> 8 \<and> unat (ffi_alignment ty) \<le> 8
      \<and> (keeps (locinfo_of (ffi_code ty)) = 8 \<or> unat (ffi_size ty) \<le> keeps (locinfo_of (ffi_code ty)))"
    by code_simp
  then show "0 < unat (ffi_size ty)" "unat (ffi_size ty) \<le> 8" "unat (ffi_alignment ty) \<le> 8"
    "keeps (locinfo_of (ffi_code ty)) = 8 \<or> unat (ffi_size ty) \<le> keeps (locinfo_of (ffi_code ty))"
    using assms by blast+
  show "ok_align (ffi_alignment ty)"
    using assms by (auto simp: scalar_types_def ffi_basic_defs)
qed

lemma scalar_kind:
  assumes "scalar_type ty"
  shows "kind_of ty = Inr KInt \<or> kind_of ty = Inr (KHfa 1)"
proof -
  have "\<forall>ty \<in> set scalar_types. kind_of ty = Inr KInt \<or> kind_of ty = Inr (KHfa 1)" by code_simp
  then show ?thesis using assms by blast
qed

lemma classify_scalar:
  assumes "scalar_type ty" "classify_argument junk ty cs0 0 = Inr (n, cs)"
  shows "\<exists>c. take n cs = [c] \<and> (is_int_class c \<or> is_sse_class c)"
  using assms unfolding scalar_types_def
  by (auto simp: ffi_basic_defs is_scalar_int_def do_integer_def set_class_def bindR_Inr_iff take_Suc_conv_app_nth
      split: if_splits)

lemma classified_scalar:
  "scalar_type ty \<Longrightarrow> classified junk ty cs \<Longrightarrow> \<exists>c. cs = [c] \<and> (is_int_class c \<or> is_sse_class c)"
  using classify_scalar by (auto simp: classified_def)

section \<open>One place per argument\<close>

definition one_place :: "ABIArgInfo \<Rightarrow> loc \<Rightarrow> bool" where
  "one_place x l \<longleftrightarrow> \<not> te_is_indirect x \<and>
     (case l of LMem p \<Rightarrow> te_is_mem x \<and> unat (te_get_mem x) = p
      | LRegs rs \<Rightarrow> \<not> te_is_mem x \<and> te_num_of_reg x = 1 \<and> rs = [reg_of x 0])"

lemma placed_one:
  assumes "placed x ty k l" "k \<noteq> KRef" "\<And>rs. l = LRegs rs \<Longrightarrow> length rs = 1"
  shows "one_place x l"
proof (cases "te_is_mem x")
  case True
  then show ?thesis using assms(1,2) by (auto simp: placed_def loc_of_def one_place_def)
next
  case False
  then have l: "l = LRegs (te_regs x)" "\<not> te_is_indirect x"
    using assms(1,2) by (auto simp: placed_def loc_of_def)
  then have "te_num_of_reg x = 1" using assms(3) by (simp add: te_regs_def)
  moreover from this have "te_regs x = [reg_of x 0]"
    by (simp add: te_regs_def reg_of_def te_get_reg_def TE_MAX_REGS_FOR_ONE_ARG_def)
  ultimately show ?thesis using l False by (simp add: one_place_def)
qed

lemma a64_reg_XQ: "g < 8 \<Longrightarrow> a64_reg (TE_X g)" "g < 8 \<Longrightarrow> a64_reg (TE_Q g)"
  by (simp_all add: a64_reg_def te_reg_defs)

lemma alloc_one:
  assumes "alloc s k sz al = (s', l)" "k = KInt \<or> k = KHfa 1"
  shows "(\<exists>p. l = LMem p \<and> p + sz \<le> nsaa s') \<or> (\<exists>r. l = LRegs [r] \<and> a64_reg r)"
  using assms
  by (auto simp: to_stack_def Let_def a64_reg_XQ split: if_splits)

lemma alloc_all_one:
  assumes "alloc_all s nf i as = (s', ls)" "\<forall>a \<in> set as. fst a = KInt \<or> fst a = KHfa 1" "j < length as"
  shows "(\<exists>p. ls ! j = LMem p) \<or> (\<exists>r. ls ! j = LRegs [r] \<and> a64_reg r)"
  using assms
proof (induction as arbitrary: s i ls j)
  case (Cons a as)
  obtain k sz al where a: "a = (k, sz, al)" by (cases a)
  obtain s1 l where b: "alloc s k sz al = (s1, l)" by fastforce
  obtain s2 ls1 where c: "alloc_all (end_fixed nf i s1) nf (i + 1) as = (s2, ls1)" by fastforce
  have eq: "s' = s2" "ls = l # ls1" using Cons.prems(1) a b c by auto
  show ?case
  proof (cases j)
    case 0
    then show ?thesis using alloc_one [OF b] Cons.prems(2) a eq by auto
  next
    case (Suc j')
    then show ?thesis using Cons.IH [OF c [folded eq(1)], of j'] Cons.prems(2,3) eq by auto
  qed
qed simp

lemma table_arg_reg: "r \<in> set (xx_gprcnt2reg @ xx_ssecnt2reg) \<Longrightarrow> arg_reg r"
proof -
  have "\<forall>r \<in> set (xx_gprcnt2reg @ xx_ssecnt2reg). arg_reg r" by code_simp
  then show "r \<in> set (xx_gprcnt2reg @ xx_ssecnt2reg) \<Longrightarrow> arg_reg r" by blast
qed

lemma table_apart:
  assumes "r \<in> set (xx_gprcnt2reg @ xx_ssecnt2reg)" "r' \<in> set (xx_gprcnt2reg @ xx_ssecnt2reg)" "r \<noteq> r'"
  shows "apart r r'"
proof -
  have "\<forall>r \<in> set (xx_gprcnt2reg @ xx_ssecnt2reg). \<forall>r' \<in> set (xx_gprcnt2reg @ xx_ssecnt2reg). r = r' \<or> apart r r'"
    by code_simp
  then show ?thesis using assms by blast
qed

definition single_class :: "x86_64_reg_class list \<Rightarrow> bool" where
  "single_class cs \<longleftrightarrow> cs = [] \<or> (\<exists>c. cs = [c] \<and> (is_int_class c \<or> is_sse_class c))"

lemma xalloc_one:
  assumes "xalloc s cs sz al = (s', l)" "single_class cs" "al \<le> 8"
  shows "(\<exists>p. l = LMem p \<and> 8 dvd p) \<or> (\<exists>r. l = LRegs [r])"
  using assms by (auto simp: xalloc_def Let_def single_class_def align_up_def max_def split: if_splits)

lemma xalloc_all_one:
  assumes "xalloc_all s as = (s', ls)" "\<forall>a \<in> set as. single_class (fst a) \<and> snd (snd a) \<le> 8" "j < length as"
  shows "(\<exists>p. ls ! j = LMem p \<and> 8 dvd p) \<or> (\<exists>r. ls ! j = LRegs [r])"
  using assms
proof (induction as arbitrary: s ls j)
  case (Cons a as)
  obtain cs sz al where a: "a = (cs, sz, al)" by (cases a)
  obtain s1 l where b: "xalloc s cs sz al = (s1, l)" by fastforce
  obtain s2 ls1 where c: "xalloc_all s1 as = (s2, ls1)" by fastforce
  have eq: "s' = s2" "ls = l # ls1" using Cons.prems(1) a b c by auto
  show ?case
  proof (cases j)
    case 0
    then show ?thesis using xalloc_one [OF b] Cons.prems(2) a eq by auto
  next
    case (Suc j')
    then show ?thesis using Cons.IH [OF c [folded eq(1)], of j'] Cons.prems(2,3) eq by auto
  qed
qed simp

section \<open>Both sides of one argument\<close>

lemma single_compat:
  assumes s: "te_get_arg_size aa = te_get_arg_size xx" "0 < size_of xx" "size_of xx \<le> 8"
    and a: "one_place aa la" "\<And>r. la = LRegs [r] \<Longrightarrow> a64_reg r" "\<And>p. la = LMem p \<Longrightarrow> p + 8 < 2 ^ 32"
    and x: "one_place xx lx" "\<And>r. lx = LRegs [r] \<Longrightarrow> arg_reg r" "\<And>p. lx = LMem p \<Longrightarrow> p + 8 < 2 ^ 32"
    and e: "if te_is_mem xx then ext_ok (te_get_mem_locinfo xx) (size_of xx)
      else ext_ok (te_get_reg_locinfo xx 0) (size_of xx)"
  shows "compat aa xx"
proof -
  have w: "words_for (size_of xx) = 1" unfolding words_for_def using s(2,3) by presburger
  have xr: "\<not> te_is_mem xx \<Longrightarrow> te_num_of_reg xx = 1 \<and> arg_reg (reg_of xx 0)"
    "te_is_mem xx \<Longrightarrow> unat (te_get_mem xx) + 8 < 2 ^ 32" "\<not> te_is_indirect xx"
    using x by (auto simp: one_place_def split: loc.splits)
  have ar: "\<not> te_is_mem aa \<Longrightarrow> te_num_of_reg aa = 1 \<and> a64_reg (reg_of aa 0)"
    "te_is_mem aa \<Longrightarrow> unat (te_get_mem aa) + 8 < 2 ^ 32" "\<not> te_is_indirect aa"
    using a by (auto simp: one_place_def split: loc.splits)
  have "xx_ok xx" using s xr e w by (auto simp: xx_ok_def)
  moreover have "\<not> te_is_mem aa \<Longrightarrow> aa_regs_ok aa \<and> plain_pieces aa"
    using ar s by (simp add: aa_regs_ok_def plain_pieces_def)
  ultimately show ?thesis using s xr ar w by (auto simp: compat_def)
qed

lemma words_for_le:
  assumes "8 dvd p" "8 dvd q" "p + n \<le> q"
  shows "p + 8 * words_for n \<le> q"
proof -
  from assms obtain a b where "p = 8 * a" "q = 8 * b" by (elim dvdE)
  then show ?thesis using assms(3) unfolding words_for_def by presburger
qed

lemma spans_one:
  assumes "one_place x l" "size_of x \<le> 8" "0 < size_of x"
  shows "spans x = (case l of LMem p \<Rightarrow> [(sizeof_register_args + p, sizeof_register_args + p + 8)]
    | LRegs rs \<Rightarrow> [(slot (hd rs), slot_end (hd rs))])"
proof -
  have "words_for (size_of x) = 1" unfolding words_for_def using assms(2,3) by presburger
  then show ?thesis using assms(1) by (auto simp: spans_def one_place_def split: loc.splits)
qed

definition loc_in_table :: "loc \<Rightarrow> bool" where
  "loc_in_table l \<longleftrightarrow> (case l of LMem p \<Rightarrow> 8 dvd p | LRegs rs \<Rightarrow> \<exists>r \<in> set (xx_gprcnt2reg @ xx_ssecnt2reg). rs = [r])"

lemma table_slot_end: "r \<in> set (xx_gprcnt2reg @ xx_ssecnt2reg) \<Longrightarrow> slot_end r \<le> sizeof_register_args"
  using slot_end_le [OF table_arg_reg] by (fastforce simp: args_layout)

lemma spans_apart_one:
  assumes "one_place x l" "size_of x \<le> 8" "0 < size_of x" "loc_in_table l"
    and "one_place x' l'" "size_of x' \<le> 8" "0 < size_of x'" "loc_in_table l'"
    and "set (loc_regs l) \<inter> set (loc_regs l') = {}"
    and "\<And>p p'. l = LMem p \<Longrightarrow> l' = LMem p' \<Longrightarrow> p + size_of x \<le> p'"
  shows "spans_apart (spans x) (spans x')"
proof (cases l)
  case (LRegs rs)
  then obtain r where r: "r \<in> set (xx_gprcnt2reg @ xx_ssecnt2reg)" "rs = [r]" using assms(4) by (auto simp: loc_in_table_def)
  show ?thesis
  proof (cases l')
    case l': (LRegs rs')
    then obtain r' where "r' \<in> set (xx_gprcnt2reg @ xx_ssecnt2reg)" "rs' = [r']" using assms(8) by (auto simp: loc_in_table_def)
    then show ?thesis
      using table_apart [OF r(1), of r'] r LRegs l' assms(9) spans_one [OF assms(1-3)] spans_one [OF assms(5-7)]
      by (auto simp: spans_apart_def apart_def)
  next
    case l': (LMem p)
    then show ?thesis
      using table_slot_end [OF r(1)] r LRegs spans_one [OF assms(1-3)] spans_one [OF assms(5-7)]
      by (simp add: spans_apart_def)
  qed
next
  case (LMem p)
  show ?thesis
  proof (cases l')
    case l': (LRegs rs')
    then obtain r' where r: "r' \<in> set (xx_gprcnt2reg @ xx_ssecnt2reg)" "rs' = [r']" using assms(8) by (auto simp: loc_in_table_def)
    then show ?thesis
      using table_slot_end [OF r(1)] LMem l' spans_one [OF assms(1-3)] spans_one [OF assms(5-7)]
      by (simp add: spans_apart_def)
  next
    case l': (LMem p')
    then have "p + 8 \<le> p'"
      using words_for_le [of p p' "size_of x"] words_for_ge(2) [OF assms(3)] assms(4,8,10) LMem
      by (auto simp: loc_in_table_def)
    then show ?thesis using LMem l' spans_one [OF assms(1-3)] spans_one [OF assms(5-7)] by (simp add: spans_apart_def)
  qed
qed

section \<open>Whole signatures\<close>

lemma scalars_init:
  "list_all scalar_type tys \<Longrightarrow> xx_init_args tys = Inr tys"
proof (induction tys)
  case (Cons ty tys)
  then have "ffi_size ty \<noteq> 0" using scalar_size(1) [of ty] by auto
  then show ?case using Cons by (simp add: xx_init_type_def)
qed simp

lemma scalars_room:
  assumes "list_all scalar_type tys" "length tys \<le> 64"
  shows "sum_list (map arg_room tys) \<le> 64 * (16 + 2 ^ 15)"
proof -
  have "arg_room ty \<le> 16 + 2 ^ 15" if "ty \<in> set tys" for ty
    using assms(1) that scalar_size(2) [of ty] by (simp add: arg_room_def list_all_iff)
  then have "sum_list (map arg_room tys) \<le> sum_list (map (\<lambda>_. 16 + 2 ^ 15) tys)" by (rule sum_list_mono)
  also have "\<dots> = length tys * (16 + 2 ^ 15)" by (simp add: sum_list_triv)
  also have "\<dots> \<le> 64 * (16 + 2 ^ 15)" using assms(2) by (rule mult_le_mono1)
  finally show ?thesis .
qed

lemma scalar_arg_size:
  assumes "placed x ty k l" "scalar_type ty"
  shows "te_get_arg_size x = ucast (ffi_size ty)" "size_of x = unat (ffi_size ty)"
proof -
  show "te_get_arg_size x = ucast (ffi_size ty)" using assms(1) by (simp add: placed_def te_get_arg_size_def)
  then show "size_of x = unat (ffi_size ty)"
    using scalar_size(2) [OF assms(2)] by (simp add: unsigned_ucast_eq unsigned_take_bit_eq take_bit_nat_eq_self)
qed

lemma newFnInfo_zero:
  "fi_ainfo (newFnInfo n) = replicate n zeroArgInfo" "fi_rinfo (newFnInfo n) = zeroArgInfo"
  by (simp_all add: newFnInfo_def)

lemma aa_side:
  assumes p: "my_aa_fi_prep_cif_core abi isv nf (length tys) rtype tys (Some (newFnInfo (length tys))) = Inr (cif, Some ai)"
    and s: "list_all scalar_type tys" "length tys \<le> 64" and i: "i < length tys"
  shows "\<exists>l. one_place (fi_ainfo ai ! i) l \<and> (\<forall>r. l = LRegs [r] \<longrightarrow> a64_reg r)
    \<and> (\<forall>p. l = LMem p \<longrightarrow> p + 8 < 2 ^ 32) \<and> te_get_arg_size (fi_ainfo ai ! i) = ucast (ffi_size (tys ! i))"
proof -
  have ty: "aa_arg_types cif = tys"
    using p by (rule prep_core_Inr) (use aa_init_args_id xx_init_args_nonzero [OF scalars_init [OF s(1)]] in blast)
  have sc: "scalar_type ty" if "ty \<in> set tys" for ty using s(1) that by (simp add: list_all_iff)
  have "\<forall>ty \<in> set tys. ok_align (ffi_alignment ty)" using sc scalar_size(3) by blast
  with prep_core_refines [OF p newFnInfo_zero(1)] ty scalars_room [OF s]
  obtain ks st ls where pl: "all_placed (fi_ainfo ai) tys ks ls"
    and al: "alloc_all init_nstate (if isv then nf else 0) 0 (map2 abs_arg ks tys) = (st, ls)"
    and top: "nsaa st \<le> 64 * (16 + 2 ^ 15)" by auto
  have len: "length ks = length tys" using pl by (simp add: all_placed_def)
  have k: "ks ! j = KInt \<or> ks ! j = KHfa 1" if "j < length tys" for j
    using pl that scalar_kind [OF sc, of "tys ! j"] by (auto simp: all_placed_def)
  then have "\<forall>a \<in> set (map2 abs_arg ks tys). fst a = KInt \<or> fst a = KHfa 1"
    by (auto simp: set_zip abs_arg_def)
  from alloc_all_one [OF al this, of i] len i
  have one: "(\<exists>p. ls ! i = LMem p) \<or> (\<exists>r. ls ! i = LRegs [r] \<and> a64_reg r)" by simp
  have "\<forall>a \<in> set (map2 abs_arg ks tys). 0 < snd (snd a)"
    using sc scalar_size(3) ok_align_pos by (auto simp: set_zip abs_arg_def)
  from alloc_all_slots [OF al this] have sl: "slots (nsaa init_nstate) (map2 abs_arg ks tys) ls (nsaa st)" .
  have mem: "q + 8 < 2 ^ 32" if "ls ! i = LMem q" for q
    using slots_order(3) [OF sl, of i q] that i len top by simp
  have pi: "placed (fi_ainfo ai ! i) (tys ! i) (ks ! i) (ls ! i)" using pl i by (simp add: all_placed_def)
  have "one_place (fi_ainfo ai ! i) (ls ! i)"
    by (rule placed_one [OF pi]) (use k [OF i] one in auto)
  then show ?thesis
    using one mem scalar_arg_size(1) [OF pi sc] i by (intro exI [of _ "ls ! i"]) auto
qed

lemma distinct_concat_nth:
  "distinct (concat xss) \<Longrightarrow> j < i \<Longrightarrow> i < length xss \<Longrightarrow> set (xss ! j) \<inter> set (xss ! i) = {}"
proof (induction xss arbitrary: i j)
  case (Cons ys xss)
  then show ?case
    by (cases i; cases j) (auto dest!: nth_mem)
qed simp

text \<open>What the x86-64 side guarantees of one argument at location \<open>l\<close>.\<close>

definition xx_single :: "ABIArgInfo \<Rightarrow> loc \<Rightarrow> nat \<Rightarrow> bool" where
  "xx_single x l lim \<longleftrightarrow> one_place x l \<and> loc_in_table l \<and> 0 < size_of x \<and> size_of x \<le> 8
     \<and> (if te_is_mem x then ext_ok (te_get_mem_locinfo x) (size_of x) else ext_ok (te_get_reg_locinfo x 0) (size_of x))
     \<and> (case l of LMem p \<Rightarrow> p + 8 \<le> lim | _ \<Rightarrow> True)"

lemma scalar_ext:
  assumes "xinfo x ty" "one_place x l" "scalar_type ty"
  shows "if te_is_mem x then ext_ok (te_get_mem_locinfo x) (unat (ffi_size ty))
    else ext_ok (te_get_reg_locinfo x 0) (unat (ffi_size ty))"
proof -
  have "keeps TE_Full = 8" by (simp add: keeps_def te_loc_defs)
  moreover have "\<not> te_is_mem x \<Longrightarrow> te_num_of_reg x = 1"
    using assms(2) by (auto simp: one_place_def split: loc.splits)
  ultimately show ?thesis
    using assms(1) scalar_size(5) [OF assms(3)] by (auto simp: xinfo_def ext_ok_def)
qed

lemma xx_side:
  assumes p: "my_xx_fi_prep_cif junk abi (length tys) rtype tys (Some (newFnInfo (length tys))) = Inr (cif, Some xi)"
    and s: "list_all scalar_type tys" "length tys \<le> 64"
  shows "\<exists>ls. (\<forall>i < length tys. xx_single (fi_ainfo xi ! i) (ls ! i) (unat (fi_bytes xi))
        \<and> te_get_arg_size (fi_ainfo xi ! i) = ucast (ffi_size (tys ! i))
        \<and> (te_is_indirect (fi_rinfo xi) \<longrightarrow> TE_RDI \<notin> set (loc_regs (ls ! i)))
        \<and> (\<forall>j < i. set (loc_regs (ls ! j)) \<inter> set (loc_regs (ls ! i)) = {}
             \<and> (\<forall>q q'. ls ! j = LMem q \<longrightarrow> ls ! i = LMem q' \<longrightarrow> q + size_of (fi_ainfo xi ! j) \<le> q')))
    \<and> (te_is_indirect (fi_rinfo xi) \<longrightarrow> te_get_reg (fi_rinfo xi) 0 = Inr TE_RDI)
    \<and> unat (fi_bytes xi) < 2 ^ 31"
proof -
  have ty: "xx_arg_types cif = tys" using p by (rule xx_prep_Inr) (use scalars_init [OF s(1)] in simp)
  have sc: "scalar_type ty" if "ty \<in> set tys" for ty using s(1) that by (simp add: list_all_iff)
  have "\<forall>ty \<in> set tys. ok_align (ffi_alignment ty)" using sc scalar_size(3) by blast
  with xx_prep_refines [OF p newFnInfo_zero] ty scalars_room [OF s]
  obtain g css st ls where pl: "xall_placed junk (fi_ainfo xi) tys css ls"
    and al: "xalloc_all \<lparr>xg = g, xv = 0, xoff = 0\<rparr> (map2 xabs_arg css tys) = (st, ls)"
    and g: "te_is_indirect (fi_rinfo xi) \<longrightarrow> g = 1 \<and> te_get_reg (fi_rinfo xi) 0 = Inr TE_RDI"
    and bytes: "unat (fi_bytes xi) = align_up (xoff st) 8" and top: "xoff st \<le> 64 * (16 + 2 ^ 15)"
    by auto
  let ?as = "map2 xabs_arg css tys"
  have len: "length css = length tys" "length ls = length tys" "length (fi_ainfo xi) = length tys"
    using pl by (simp_all add: xall_placed_def)
  have "single_class (css ! j)" if "j < length tys" for j
    using pl that classified_scalar [OF sc, of "tys ! j" junk "css ! j"]
    by (cases "css ! j = []") (auto simp: xall_placed_def single_class_def eightbytes_def)
  then have "\<forall>a \<in> set ?as. single_class (fst a) \<and> snd (snd a) \<le> 8"
    using sc scalar_size(4) by (auto simp: set_zip xabs_arg_def)
  note one = xalloc_all_one [OF al this]
  note regs = xalloc_all_regs [OF al]
  have tab: "xfree \<lparr>xg = g, xv = 0, xoff = 0\<rparr> \<subseteq> set (xx_gprcnt2reg @ xx_ssecnt2reg)"
    using set_drop_subset [of g xx_gprcnt2reg] set_drop_subset [of 0 xx_ssecnt2reg] by (auto simp: xfree_def)
  have sub: "set (loc_regs (ls ! i)) \<subseteq> xfree \<lparr>xg = g, xv = 0, xoff = 0\<rparr>" if "i < length tys" for i
  proof -
    have "ls ! i \<in> set ls" using that len by simp
    then show ?thesis using conjunct2 [OF regs] by auto
  qed
  have "\<forall>a \<in> set ?as. 0 < snd (snd a)"
    using sc scalar_size(3) ok_align_pos by (auto simp: set_zip xabs_arg_def)
  from xalloc_all_slots [OF al this] have sl: "slots 0 (map xslot ?as) ls (xoff st)" by simp
  have sz: "slot_size (fst (map xslot ?as ! i)) (fst (snd (map xslot ?as ! i))) = unat (ffi_size (tys ! i))" if "i < length tys" for i
    using that len by (simp add: xabs_arg_def)
  have lo: "loc_in_table (ls ! i)" if "i < length tys" for i
    using one [of i] sub [OF that] tab that len by (auto simp: loc_in_table_def)
  have pi: "placed (fi_ainfo xi ! i) (tys ! i) KInt (ls ! i)" "xinfo (fi_ainfo xi ! i) (tys ! i)" if "i < length tys" for i
    using pl that by (simp_all add: xall_placed_def)
  have op: "one_place (fi_ainfo xi ! i) (ls ! i)" if "i < length tys" for i
    by (rule placed_one [OF pi(1) [OF that]]) (use one [of i] that len in auto)
  note size = scalar_arg_size [OF pi(1) sc]
  have mem: "q + 8 \<le> unat (fi_bytes xi)" if i: "i < length tys" "ls ! i = LMem q" for i q
  proof -
    have "q + unat (ffi_size (tys ! i)) \<le> xoff st" using slots_order(3) [OF sl, of i q] i len sz [OF i(1)] by simp
    also have "\<dots> \<le> unat (fi_bytes xi)" using align_up_bounds(1) [of 8 "xoff st"] bytes by simp
    finally show ?thesis
      using words_for_le [of q "unat (fi_bytes xi)"] words_for_ge(2) [OF scalar_size(1) [OF sc], of "tys ! i"] lo [OF i(1)] i
      by (fastforce simp: loc_in_table_def bytes)
  qed
  have single: "xx_single (fi_ainfo xi ! i) (ls ! i) (unat (fi_bytes xi))" if "i < length tys" for i
    using op [OF that] lo [OF that] size [OF that] scalar_size(1,2) [OF sc, of "tys ! i"] that mem
      scalar_ext [OF pi(2) [OF that] op [OF that] sc]
    by (auto simp: xx_single_def split: loc.splits)
  have dj: "set (loc_regs (ls ! j)) \<inter> set (loc_regs (ls ! i)) = {}" if "j < i" "i < length tys" for i j
    using distinct_concat_nth [OF conjunct1 [OF regs], of j i] that len by simp
  have ord: "q + size_of (fi_ainfo xi ! j) \<le> q'"
    if "j < i" "i < length tys" "ls ! j = LMem q" "ls ! i = LMem q'" for i j q q'
    using slots_order(4) [OF sl, of j i q q'] sz [of j] size(2) [of j] that len by simp
  have rdi: "TE_RDI \<notin> set (loc_regs (ls ! i))" if "i < length tys" "te_is_indirect (fi_rinfo xi)" for i
  proof -
    have "TE_RDI \<notin> xfree \<lparr>xg = 1, xv = 0, xoff = 0\<rparr>" by (auto simp: xfree_def xx_tables te_reg_defs)
    then show ?thesis using sub [OF that(1)] g that(2) by auto
  qed
  have "unat (fi_bytes xi) < 2 ^ 31" using bytes align_up_bounds(2) [of 8 "xoff st"] top by simp
  then show ?thesis
    using single size(1) dj ord rdi g by (intro exI [of _ ls]) simp
qed

section \<open>The call\<close>

lemma mark_if_place [simp]:
  "one_place (mark_if m i x) l = one_place x l" "te_get_arg_size (mark_if m i x) = te_get_arg_size x"
  "te_get_mem_locinfo (mark_if m i x) = te_get_mem_locinfo x"
  "te_get_reg_locinfo (mark_if m i x) j = te_get_reg_locinfo x j" "reg_of (mark_if m i x) j = reg_of x j"
  using te_num_of_reg_cong [of "mark_if m i x" x]
  by (simp_all add: one_place_def te_get_arg_size_def te_get_mem_locinfo_def te_get_reg_locinfo_def te_get_mem_def
      reg_of_def te_get_reg_def split: loc.splits)

lemma mark_if_single [simp]: "xx_single (mark_if m i x) l lim = xx_single x l lim"
  by (simp add: xx_single_def)

lemma mark_blocks_frame:
  assumes "mark_blocks m f = Inr f'"
  shows "fi_rinfo f' = mark_if m 63 (fi_rinfo f)" "fi_bytes f' = fi_bytes f" "fi_nargs f' = fi_nargs f"
    "length (fi_ainfo f') = length (fi_ainfo f)" "fi_nargs f \<le> 64"
    "i < length (fi_ainfo f) \<Longrightarrow> fi_ainfo f' ! i = mark_if m i (fi_ainfo f ! i)"
  using assms by (auto simp: mark_blocks_def nth_enumerate_eq split: if_splits)

lemma scalar_entry_ok:
  assumes h: "handle junk types True True nfixed = Inr (True, Some aa, Some xx)"
    and sig: "parse_signature junk types = Inr (rtype, atypes, m)" and s: "list_all scalar_type atypes"
  shows "entry_ok aa xx" "i < fi_nargs xx \<Longrightarrow> u \<in> set (spans (fi_ainfo xx ! i)) \<Longrightarrow>
    snd u \<le> sizeof_register_args + unat (fi_bytes xx)" "fi_nargs xx = length atypes"
    "i < length atypes \<Longrightarrow> size_of (fi_ainfo xx ! i) = unat (ffi_size (atypes ! i))"
proof -
  let ?n = "length atypes"
  from h sig obtain rtype' atypes' where x: "handle_xx junk rtype atypes m = Inr (Some (xx, rtype', atypes'))"
    and a: "handle_aa rtype' atypes' m nfixed = Inr (Some aa)"
    by (auto elim!: handle_both)
  from x obtain xcif xi where xp: "my_xx_fi_prep_cif junk XX_FI_UNIX64 ?n rtype atypes (Some (newFnInfo ?n)) = Inr (xcif, Some xi)"
    and xm: "mark_blocks m xi = Inr xx" and "atypes' = xx_arg_types xcif"
    by (rule handle_xx_Some)
  moreover from xp have "xx_arg_types xcif = atypes" by (rule xx_prep_Inr) (use scalars_init [OF s] in simp)
  ultimately have at: "atypes' = atypes" by simp
  from a at obtain acif ai isv nf where ap: "my_aa_fi_prep_cif_core AA_FI_SYSV isv nf ?n rtype' atypes
        (Some (newFnInfo ?n)) = Inr (acif, Some ai)" and am: "mark_blocks m ai = Inr aa"
    by (auto elim: handle_aa_Some)
  note bx = blocks_Some [OF xx_prep_blocks [OF xp, unfolded blocks_newFnInfo]]
  note ba = blocks_Some [OF aa_prep_blocks [OF ap, unfolded blocks_newFnInfo]]
  note mx = mark_blocks_frame [OF xm] and ma = mark_blocks_frame [OF am]
  have n: "?n \<le> 64" "fi_nargs xx = ?n" "length (fi_ainfo xx) = ?n" "length (fi_ainfo aa) = ?n"
    using mx bx ma ba by simp_all
  then show "fi_nargs xx = ?n" by simp
  from xx_side [OF xp s n(1)] obtain ls where
    L: "\<forall>i < ?n. xx_single (fi_ainfo xi ! i) (ls ! i) (unat (fi_bytes xi))
        \<and> te_get_arg_size (fi_ainfo xi ! i) = ucast (ffi_size (atypes ! i))
        \<and> (te_is_indirect (fi_rinfo xi) \<longrightarrow> TE_RDI \<notin> set (loc_regs (ls ! i)))
        \<and> (\<forall>j < i. set (loc_regs (ls ! j)) \<inter> set (loc_regs (ls ! i)) = {}
             \<and> (\<forall>q q'. ls ! j = LMem q \<longrightarrow> ls ! i = LMem q' \<longrightarrow> q + size_of (fi_ainfo xi ! j) \<le> q'))"
    and R: "te_is_indirect (fi_rinfo xi) \<longrightarrow> te_get_reg (fi_rinfo xi) 0 = Inr TE_RDI"
    and B: "unat (fi_bytes xi) < 2 ^ 31" by (elim exE conjE)
  have X: "xx_single (fi_ainfo xi ! i) (ls ! i) (unat (fi_bytes xi))"
      "te_get_arg_size (fi_ainfo xi ! i) = ucast (ffi_size (atypes ! i))"
      "te_is_indirect (fi_rinfo xi) \<Longrightarrow> TE_RDI \<notin> set (loc_regs (ls ! i))"
      "j < i \<Longrightarrow> set (loc_regs (ls ! j)) \<inter> set (loc_regs (ls ! i)) = {}" if "i < ?n" for i j
    using L that by simp_all
  have ord: "q + size_of (fi_ainfo xi ! j) \<le> q'" if "i < ?n" "j < i" "ls ! j = LMem q" "ls ! i = LMem q'" for i j q q'
    using L [rule_format, OF that(1)] that(2-4) by blast
  have Xx: "xx_single (fi_ainfo xx ! i) (ls ! i) (unat (fi_bytes xx))"
      "te_get_arg_size (fi_ainfo xx ! i) = ucast (ffi_size (atypes ! i))"
      "size_of (fi_ainfo xx ! i) = size_of (fi_ainfo xi ! i)" if "i < ?n" for i
    using X(1,2) [OF that] mx bx that by simp_all
  show "size_of (fi_ainfo xx ! i) = unat (ffi_size (atypes ! i))" if "i < ?n"
    using Xx(2) [OF that] scalar_size(2) [of "atypes ! i"] s that
    by (simp add: list_all_length unsigned_ucast_eq unsigned_take_bit_eq take_bit_nat_eq_self)
  have comp: "compat (fi_ainfo aa ! i) (fi_ainfo xx ! i)" if i: "i < ?n" for i
  proof -
    from aa_side [OF ap s n(1) i] obtain l where l: "one_place (fi_ainfo ai ! i) l" "\<And>r. l = LRegs [r] \<Longrightarrow> a64_reg r"
      "\<And>p. l = LMem p \<Longrightarrow> p + 8 < 2 ^ 32" "te_get_arg_size (fi_ainfo ai ! i) = ucast (ffi_size (atypes ! i))" by blast
    have "one_place (fi_ainfo aa ! i) l" "te_get_arg_size (fi_ainfo aa ! i) = ucast (ffi_size (atypes ! i))"
      using l ma ba i by simp_all
    note al = this
    have sx: "one_place (fi_ainfo xx ! i) (ls ! i)" "loc_in_table (ls ! i)" "0 < size_of (fi_ainfo xx ! i)"
      "size_of (fi_ainfo xx ! i) \<le> 8" "if te_is_mem (fi_ainfo xx ! i)
        then ext_ok (te_get_mem_locinfo (fi_ainfo xx ! i)) (size_of (fi_ainfo xx ! i))
        else ext_ok (te_get_reg_locinfo (fi_ainfo xx ! i) 0) (size_of (fi_ainfo xx ! i))"
      "case ls ! i of LMem p \<Rightarrow> p + 8 \<le> unat (fi_bytes xx) | _ \<Rightarrow> True"
      using Xx(1) [OF i] unfolding xx_single_def by blast+
    show ?thesis
    proof (rule single_compat [OF _ sx(3,4) al(1) l(2,3) sx(1) _ _ sx(5)])
      show "te_get_arg_size (fi_ainfo aa ! i) = te_get_arg_size (fi_ainfo xx ! i)" using al(2) Xx(2) [OF i] by simp
      show "arg_reg r" if "ls ! i = LRegs [r]" for r
        using sx(2) that table_arg_reg by (simp add: loc_in_table_def)
      show "p + 8 < 2 ^ 32" if "ls ! i = LMem p" for p
        using sx(6) that B mx(2) by simp
    qed
  qed
  have ap': "spans_apart (spans (fi_ainfo xx ! j)) (spans (fi_ainfo xx ! i))" if ij: "j < i" "i < ?n" for i j
    using Xx(1) [OF ij(2)] Xx(1) [of j] ij X(4) [OF ij(2,1)] ord [OF ij(2,1)] Xx(3) [of j]
    by (intro spans_apart_one [of _ "ls ! j" _ "ls ! i"]) (simp_all add: xx_single_def)
  have rdi: "reg_of (fi_rinfo xx) 0 = TE_RDI" "te_is_indirect (fi_rinfo xi)" if "te_is_indirect (fi_rinfo xx)"
    using that mx(1) R by (auto simp: reg_of_def te_get_reg_def TE_MAX_REGS_FOR_ONE_ARG_def)
  have rdi_slot: "TE_RDI \<in> set (xx_gprcnt2reg @ xx_ssecnt2reg)" "slot_end TE_RDI = slot TE_RDI + 8"
    "slot TE_RDI + 8 \<le> sizeof_register_args" by code_simp+
  have sret: "spans_apart (sret_span xx) (spans (fi_ainfo xx ! i))" if i: "i < ?n" for i
  proof (cases "te_is_indirect (fi_rinfo xx)")
    case True
    have sx: "xx_single (fi_ainfo xx ! i) (ls ! i) (unat (fi_bytes xx))" by (rule Xx(1) [OF i])
    then have sp: "spans (fi_ainfo xx ! i) = (case ls ! i of
        LMem p \<Rightarrow> [(sizeof_register_args + p, sizeof_register_args + p + 8)]
      | LRegs rs \<Rightarrow> [(slot (hd rs), slot_end (hd rs))])"
      by (intro spans_one) (simp_all add: xx_single_def)
    have span: "sret_span xx = [(slot TE_RDI, slot TE_RDI + 8)]"
      using True rdi(1) by (simp add: sret_span_def Let_def)
    show ?thesis
    proof (cases "ls ! i")
      case (LRegs rs)
      then obtain r where r: "r \<in> set (xx_gprcnt2reg @ xx_ssecnt2reg)" "rs = [r]"
        using sx by (auto simp: xx_single_def loc_in_table_def)
      have "TE_RDI \<noteq> r" using X(3) [OF i rdi(2) [OF True]] LRegs r(2) by auto
      from table_apart [OF rdi_slot(1) r(1) this] show ?thesis
        using sp span LRegs r(2) rdi_slot(2) by (simp add: spans_apart_def apart_def)
    next
      case (LMem p)
      then show ?thesis using sp span rdi_slot(3) by (simp add: spans_apart_def)
    qed
  qed (simp add: sret_span_def spans_apart_def)
  have "te_is_indirect (fi_rinfo xx) \<longrightarrow> arg_reg (reg_of (fi_rinfo xx) 0)"
    using rdi(1) table_arg_reg [OF rdi_slot(1)] by simp
  then show "entry_ok aa xx"
    using n comp ap' sret by (auto simp: entry_ok_def)
  show "snd u \<le> sizeof_register_args + unat (fi_bytes xx)"
    if "i < fi_nargs xx" "u \<in> set (spans (fi_ainfo xx ! i))"
  proof -
    have sx: "xx_single (fi_ainfo xx ! i) (ls ! i) (unat (fi_bytes xx))" using Xx(1) that(1) n by simp
    then have sp: "spans (fi_ainfo xx ! i) = (case ls ! i of
        LMem p \<Rightarrow> [(sizeof_register_args + p, sizeof_register_args + p + 8)]
      | LRegs rs \<Rightarrow> [(slot (hd rs), slot_end (hd rs))])"
      by (intro spans_one) (simp_all add: xx_single_def)
    show ?thesis
    proof (cases "ls ! i")
      case (LRegs rs)
      then obtain r where "r \<in> set (xx_gprcnt2reg @ xx_ssecnt2reg)" "rs = [r]"
        using sx by (auto simp: xx_single_def loc_in_table_def)
      then show ?thesis using sp LRegs that(2) table_slot_end [of r] by simp
    next
      case (LMem p)
      then show ?thesis using sp that(2) sx by (simp add: xx_single_def)
    qed
  qed
qed

lemma spans_in_buffer:
  assumes "\<And>u. u \<in> set (spans x) \<Longrightarrow> snd u \<le> lim" "lim \<le> k"
  shows "\<not> in_foot x (AB k)"
  using assms by (fastforce simp: in_foot_spans)

text \<open>
  C18. A call with scalar arguments, from its type encoding to the registers of the callee: when
  \<open>handle\<close> accepts an encoding whose argument types are integers, pointers, floats and doubles, in
  whatever number and order, fixed or variable, then the entry translation of the two descriptions
  it computes succeeds for every state and every stack pointer, and every byte of every argument
  arrives.
\<close>

theorem scalar_call_arguments:
  assumes "handle junk types True True nfixed = Inr (True, Some aa, Some xx)"
    and "parse_signature junk types = Inr (rtype, atypes, m)" "list_all scalar_type atypes"
  shows "\<exists>st'. abi_dy_a2x_entry_trans_internal aa xx sret sp st = Inr st'
    \<and> (\<forall>i < length atypes. size_of (fi_ainfo xx ! i) = unat (ffi_size (atypes ! i))
        \<and> (\<forall>k < unat (ffi_size (atypes ! i)).
             st' (xx_byte (fi_ainfo xx ! i) k) = st (aa_byte st sp (fi_ainfo aa ! i) k)))"
proof -
  note ok = scalar_entry_ok [OF assms]
  show ?thesis using entry_moves [OF ok(1), of sret sp st] ok(3,4) by auto
qed

text \<open>
  C19. The buffer is large enough: for such a call the entry translation writes no byte of
  \<open>arg_space\<close> behind the \<open>sizeof(register_args) + xxInfo.bytes\<close> bytes that its callers allocate.
\<close>

theorem scalar_call_buffer:
  assumes "handle junk types True True nfixed = Inr (True, Some aa, Some xx)"
    and "parse_signature junk types = Inr (rtype, atypes, m)" "list_all scalar_type atypes"
    and "abi_dy_a2x_entry_trans_internal aa xx sret sp st = Inr st'"
    and "sizeof_register_args + unat (fi_bytes xx) \<le> k"
  shows "st' (AB k) = st (AB k)"
proof -
  note ok = scalar_entry_ok [OF assms(1-3)]
  have "\<not> in_foot (fi_ainfo xx ! i) (AB k)" if "i < fi_nargs xx" for i
    using spans_in_buffer [OF ok(2) [OF that]] assms(5) by blast
  then show ?thesis using entry_moves [OF ok(1), of sret sp st] assms(4,5) by auto
qed

section \<open>Witnesses\<close>

lemma scalar_wit:
  "case handle wit_junk wit_sig True True InvalidValue of
     Inr (True, Some aa, Some xx) \<Rightarrow> xx_byte (fi_ainfo xx ! 0) 0 = AB 0 \<and> aa_byte (\<lambda>a. 0) 0 (fi_ainfo aa ! 0) 0 = XB 0
       \<and> fi_bytes xx = 0
   | _ \<Rightarrow> False"
  by code_simp

lemma scalar_wit_types: "list_all scalar_type [ffi_type_pointer, ffi_type_pointer, ffi_type_pointer]"
  "unat (ffi_size ffi_type_pointer) = 8"
  by (simp_all add: scalar_types_def ffi_type_pointer_def)

theorem scalar_call_arguments_witness:
  "\<exists>aa xx st'. handle wit_junk wit_sig True True InvalidValue = Inr (True, Some aa, Some xx)
    \<and> abi_dy_a2x_entry_trans_internal aa xx 0 8192 bridge_state = Inr st' \<and> st' (AB (gpr_off 0)) = 7"
proof -
  from scalar_wit obtain aa xx where h: "handle wit_junk wit_sig True True InvalidValue = Inr (True, Some aa, Some xx)"
    and b: "xx_byte (fi_ainfo xx ! 0) 0 = AB 0" "aa_byte (\<lambda>a. 0) 0 (fi_ainfo aa ! 0) 0 = XB 0"
    by (auto split: sum.splits option.splits bool.splits)
  from scalar_call_arguments [OF h wit_sig_parse scalar_wit_types(1), of 0 8192 bridge_state] obtain st' where
    "abi_dy_a2x_entry_trans_internal aa xx 0 8192 bridge_state = Inr st'"
    "st' (xx_byte (fi_ainfo xx ! 0) 0) = bridge_state (aa_byte bridge_state 8192 (fi_ainfo aa ! 0) 0)"
    using scalar_wit_types(2) by auto
  moreover have "aa_byte bridge_state 8192 (fi_ainfo aa ! 0) 0 = XB 0" using aa_byte_direct b(2) by metis
  ultimately show ?thesis using h b(1) by (auto simp: args_layout)
qed

theorem scalar_call_buffer_witness:
  "\<exists>aa xx st'. handle wit_junk wit_sig True True InvalidValue = Inr (True, Some aa, Some xx) \<and> fi_bytes xx = 0
    \<and> abi_dy_a2x_entry_trans_internal aa xx 0 8192 (\<lambda>a. 3) = Inr st' \<and> st' (AB 184) = 3"
proof -
  from scalar_wit obtain aa xx where h: "handle wit_junk wit_sig True True InvalidValue = Inr (True, Some aa, Some xx)"
    and z: "fi_bytes xx = 0"
    by (auto split: sum.splits option.splits bool.splits)
  from entry_moves [OF scalar_entry_ok(1) [OF h wit_sig_parse scalar_wit_types(1)]] obtain st' where
    st': "abi_dy_a2x_entry_trans_internal aa xx 0 8192 (\<lambda>a. 3) = Inr st'" by blast
  have "st' (AB 184) = 3"
    using scalar_call_buffer [OF h wit_sig_parse scalar_wit_types(1) st', of 184] z by (simp add: args_layout)
  then show ?thesis using h z st' by blast
qed

end
