(* ===== verification/Bridge_Live.thy ===== *)
theory Bridge_Live
  imports Bridge_Scalars Marshal_Exit
begin

text \<open>
  The two preparation functions accept every signature of scalar types.
\<close>

section \<open>One argument is always placed\<close>

definition same_result :: "ABIFnInfo \<Rightarrow> ABIFnInfo \<Rightarrow> bool" where
  "same_result fn' fn \<longleftrightarrow> length (fi_ainfo fn') = length (fi_ainfo fn) \<and> fi_rinfo fn' = fi_rinfo fn"

lemma same_result_simps [simp]:
  "same_result fn fn" "same_result (fn\<lparr>fi_ainfo := (fi_ainfo fn)[i := x]\<rparr>) fn"
  "same_result (fn\<lparr>fi_ainfo := (fi_ainfo fn)[i := x, j := y]\<rparr>) fn"
  by (simp_all add: same_result_def)

lemma arg_upd_ok:
  assumes "i < length (fi_ainfo fn)" "f (fi_ainfo fn ! i) = Inr x"
  shows "fn_arg_upd (Some fn) i f = Inr (Some (fn\<lparr>fi_ainfo := (fi_ainfo fn)[i := x]\<rparr>))"
  using assms by (simp add: fn_arg_upd_def)

lemma te_set_reg_0: "\<exists>x'. te_set_reg x 0 r l = Inr x'"
  by (simp add: te_set_reg_def TE_MAX_REGS_FOR_ONE_ARG_def)

lemma classify_scalar_ok:
  assumes "scalar_type ty" "cs \<noteq> []"
  shows "\<exists>c cs'. classify_argument junk ty cs 0 = Inr (1, cs') \<and> length cs' = length cs \<and> cs' ! 0 = c
    \<and> (is_int_class c \<or> is_sse_class c)"
  using assms unfolding scalar_types_def
  by (auto simp: ffi_basic_defs is_scalar_int_def do_integer_def set_class_def)

lemma examine_scalar_ok:
  assumes "scalar_type ty" "ex_classes ex \<noteq> []"
  shows "\<exists>ex'. examine_argument junk ty False ex = Inr ex' \<and> ex_n ex' = 1 \<and> ex_classes ex' \<noteq> []
    \<and> (is_int_class (ex_classes ex' ! 0) \<and> ex_ngpr ex' = 1 \<and> ex_nsse ex' = 0
       \<or> is_sse_class (ex_classes ex' ! 0) \<and> ex_ngpr ex' = 0 \<and> ex_nsse ex' = 1)"
proof -
  from classify_scalar_ok [OF assms] obtain c cs where c: "classify_argument junk ty (ex_classes ex) 0 = Inr (1, cs)"
    "cs \<noteq> []" "cs ! 0 = c" "is_int_class c \<or> is_sse_class c" using assms(2) by fastforce
  have "count_classes 0 1 cs 0 0 = Inr (Some (if is_int_class c then (1, 0) else (0, 1)))"
    using c by (cases c) (auto simp: get_class_def)
  then show ?thesis using c by (auto simp: examine_argument_def)
qed

lemma xx_place_scalar_ok:
  assumes ty: "scalar_type ty" and fn: "xx_fn st = Some fn" and i: "i < length (fi_ainfo fn)" and ex: "ex_classes (xx_ex st) \<noteq> []"
  shows "\<exists>st' fn'. xx_place_arg junk st i ty = Inr st' \<and> xx_fn st' = Some fn'
    \<and> same_result fn' fn \<and> ex_classes (xx_ex st') \<noteq> []"
proof -
  from examine_scalar_ok [OF ty ex] obtain e where e: "examine_argument junk ty False (xx_ex st) = Inr e" "ex_n e = 1"
    "ex_classes e \<noteq> []"
    "is_int_class (ex_classes e ! 0) \<and> ex_ngpr e = 1 \<and> ex_nsse e = 0
       \<or> is_sse_class (ex_classes e ! 0) \<and> ex_ngpr e = 0 \<and> ex_nsse e = 1" by blast
  let ?x = "te_set_arg_size (fi_ainfo fn ! i) (ffi_size ty)"
  let ?fn = "fn\<lparr>fi_ainfo := (fi_ainfo fn)[i := ?x]\<rparr>"
  let ?st = "st\<lparr>xx_fn := Some ?fn, xx_ex := e\<rparr>"
  have up: "fn_arg_upd (xx_fn st) i (\<lambda>x. Inr (te_set_arg_size x (ffi_size ty))) = Inr (Some ?fn)"
    unfolding fn by (rule arg_upd_ok [OF i]) simp
  have reg: "fn_arg_upd (Some ?fn) i (\<lambda>x. te_set_reg x 0 r l)
      = Inr (Some (?fn\<lparr>fi_ainfo := (fi_ainfo ?fn)[i := x]\<rparr>))" if "te_set_reg ?x 0 r l = Inr x" for r l x
    by (rule arg_upd_ok) (use i that in simp_all)
  show ?thesis
  proof (cases "xx_gprcount st + ex_ngpr e > MAX_GPR_REGS \<or> xx_ssecount st + ex_nsse e > MAX_SSE_REGS")
    case True
    then show ?thesis
      using up e i by (simp add: xx_place_arg_def Let_def xx_mem_arg_def fn_arg_upd_def)
  next
    case False
    let ?int = "is_int_class (ex_classes e ! 0)"
    let ?r = "if ?int then xx_gprcnt2reg ! xx_gprcount st else xx_ssecnt2reg ! xx_ssecount st"
    let ?l = "if ?int then locinfo_of (ffi_code ty) else TE_Full"
    obtain x where x: "te_set_reg ?x 0 ?r ?l = Inr x" using te_set_reg_0 by blast
    have lt: "?int \<Longrightarrow> xx_gprcount st < 6" "\<not> ?int \<Longrightarrow> xx_ssecount st < 8"
      using e(4) False int_not_sse by (auto simp: MAX_GPR_REGS_def MAX_SSE_REGS_def)
    have "\<exists>st'. xx_reg_arg 0 1 i ty 0 ?st = Inr st' \<and> xx_fn st' = Some (?fn\<lparr>fi_ainfo := (fi_ainfo ?fn)[i := x]\<rparr>)
      \<and> ex_classes (xx_ex st') \<noteq> []"
      using e(3,4) x reg [OF x] lt
      by (cases "ex_classes e ! 0") (auto simp: get_class_def put_reg_def)
    then show ?thesis using up e False by (auto simp: xx_place_arg_def Let_def)
  qed
qed

lemma xx_place_scalars_ok:
  assumes "list_all scalar_type tys" "xx_fn st = Some fn" "i + length tys \<le> length (fi_ainfo fn)" "ex_classes (xx_ex st) \<noteq> []"
  shows "\<exists>st' fn'. xx_place_args junk st i tys = Inr st' \<and> xx_fn st' = Some fn' \<and> same_result fn' fn"
  using assms
proof (induction tys arbitrary: st i fn)
  case (Cons ty tys)
  from xx_place_scalar_ok [of ty st fn i junk] Cons.prems obtain st1 fn1 where st1: "xx_place_arg junk st i ty = Inr st1"
    "xx_fn st1 = Some fn1" "same_result fn1 fn" "ex_classes (xx_ex st1) \<noteq> []" by auto
  with Cons.IH [of st1 fn1 "i + 1"] Cons.prems show ?case by (auto simp: same_result_def)
qed simp

lemma vfp_scalar:
  assumes "scalar_type ty" "\<not> is_int_code (ffi_code ty)"
  shows "is_fp (ffi_code ty) \<and> (\<exists>h. is_vfp_type ty = Inr h \<and> h \<noteq> 0 \<and> 4 - h mod 4 = 1)"
proof -
  have "\<forall>ty \<in> set scalar_types. is_int_code (ffi_code ty) \<or> is_fp (ffi_code ty)
    \<and> (case is_vfp_type ty of Inr h \<Rightarrow> h \<noteq> 0 \<and> 4 - h mod 4 = 1 | Inl _ \<Rightarrow> False)" by code_simp
  then show ?thesis using assms by (fastforce split: sum.splits)
qed

lemma scalar_not_void: "scalar_type ty \<Longrightarrow> ffi_code ty \<noteq> FFI_TYPE_VOID"
proof -
  have "\<forall>ty \<in> set scalar_types. ffi_code ty \<noteq> FFI_TYPE_VOID" by code_simp
  then show "scalar_type ty \<Longrightarrow> ffi_code ty \<noteq> FFI_TYPE_VOID" by blast
qed

lemma aa_mem_ok:
  assumes "aa_fn st = Some fn" "i < length (fi_ainfo fn)"
  shows "\<exists>st' fn'. aa_mem_arg st i al s = Inr st' \<and> aa_fn st' = Some fn' \<and> same_result fn' fn"
  using assms by (simp add: aa_mem_arg_def pass_in_memory_def Let_def fn_arg_upd_def)

lemma aa_place_scalar_ok:
  assumes ty: "scalar_type ty" and fn: "aa_fn st = Some fn" and i: "i < length (fi_ainfo fn)"
  shows "\<exists>st' fn'. aa_place_arg st i ty = Inr st' \<and> aa_fn st' = Some fn' \<and> same_result fn' fn"
proof -
  let ?x = "te_set_arg_size (fi_ainfo fn ! i) (ffi_size ty)"
  let ?fn = "fn\<lparr>fi_ainfo := (fi_ainfo fn)[i := ?x]\<rparr>"
  let ?st = "st\<lparr>aa_fn := Some ?fn\<rparr>"
  have up: "fn_arg_upd (aa_fn st) i (\<lambda>x. Inr (te_set_arg_size x (ffi_size ty))) = Inr (Some ?fn)"
    unfolding fn by (rule arg_upd_ok [OF i]) simp
  have nv: "ffi_code ty \<noteq> FFI_TYPE_VOID" using ty by (rule scalar_not_void)
  have reg: "\<exists>fn'. fn_arg_upd (Some ?fn) i (\<lambda>x. te_set_regs x 0 [r] l) = Inr (Some fn') \<and> same_result fn' fn" for r l
    using te_set_reg_0 [of ?x r l] i by (auto simp: fn_arg_upd_def)
  show ?thesis
  proof (cases "is_int_code (ffi_code ty)")
    case True
    have "\<exists>st' fn'. aa_gpr_arg ?st i (ffi_alignment ty) (ffi_size ty) = Inr st' \<and> aa_fn st' = Some fn'
        \<and> same_result fn' fn"
      using reg [of "TE_X (gprcount st)" fakeLocInfo] aa_mem_ok [of ?st ?fn i "ffi_alignment ty" "ffi_size ty"] i
      by (auto simp: aa_gpr_arg_def te_set_reg_run same_result_def simp del: te_set_regs.simps)
    then show ?thesis using up nv True by (simp add: aa_place_arg_def Let_def)
  next
    case False
    from vfp_scalar [OF ty False] obtain h where h: "is_fp (ffi_code ty)" "is_vfp_type ty = Inr h" "h \<noteq> 0" "4 - h mod 4 = 1" by blast
    have "\<exists>st' fn'. aa_hfa_arg ?st i ty h = Inr st' \<and> aa_fn st' = Some fn' \<and> same_result fn' fn"
      using reg [of "TE_Q (ssecount st)" fakeLocInfo]
        aa_mem_ok [of "?st\<lparr>ssecount := N_V_ARG_REG\<rparr>" ?fn i "ffi_alignment ty" "ffi_size ty"] i
      by (auto simp: aa_hfa_arg_def h(4) same_result_def simp del: te_set_regs.simps)
    then show ?thesis using up nv False h by (simp add: aa_place_arg_def Let_def)
  qed
qed

lemma aa_place_scalars_ok:
  assumes "list_all scalar_type tys" "aa_fn st = Some fn" "i + length tys \<le> length (fi_ainfo fn)"
  shows "\<exists>st' fn'. aa_place_args st nf i tys = Inr st' \<and> aa_fn st' = Some fn' \<and> same_result fn' fn"
  using assms
proof (induction tys arbitrary: st i fn)
  case (Cons ty tys)
  from aa_place_scalar_ok [of ty st fn i] Cons.prems obtain st1 fn1 where st1: "aa_place_arg st i ty = Inr st1"
    "aa_fn st1 = Some fn1" "same_result fn1 fn" by auto
  define st2 where "st2 = (if i + 1 = nf
      then st1\<lparr>gprcount := N_X_ARG_REG, ssecount := N_V_ARG_REG, allocating_variadic := True\<rparr> else st1)"
  have "aa_fn st2 = Some fn1" using st1(2) by (simp add: st2_def)
  with Cons.IH [of st2 fn1 "i + 1"] Cons.prems st1 show ?case by (cases "i + 1 = nf") (auto simp: Let_def st2_def same_result_def)
qed simp

section \<open>Results\<close>

abbreviation plain_type :: "ffi_type \<Rightarrow> bool" where
  "plain_type ty \<equiv> ty = ffi_type_void \<or> scalar_type ty"

lemma plain_type_size: "plain_type ty \<Longrightarrow> ffi_size ty \<noteq> 0"
  by (auto simp: scalar_types_def ffi_basic_defs)

lemma xx_ret_flags_plain:
  assumes "ffi_code ty \<noteq> FFI_TYPE_STRUCT" "ffi_code ty \<noteq> FFI_TYPE_COMPLEX"
  shows "xx_ret_flags junk ty ex = map_sum id (\<lambda>(f, n, _). (f, n, ex)) (xx_ret_flags [] ty \<lparr>ex_n = 0, ex_classes = [], ex_ngpr = 0, ex_nsse = 0\<rparr>)"
  using assms by (simp add: xx_ret_flags_def Let_def)

lemma aa_ret_flags_plain:
  assumes "ffi_size ty \<le> 16"
  shows "aa_ret_flags ty b = map_sum id (\<lambda>(f, _). (f, b)) (aa_ret_flags ty 0)"
  using assms by (auto simp: aa_ret_flags_def Let_def bindR_def split: sum.split)

text \<open>What is stored for a result: nothing, or one register on either side.\<close>

definition result_size :: "ffi_type \<Rightarrow> nat" where
  "result_size ty = (if ty = ffi_type_void then 0 else unat (ffi_size ty))"

definition aa_result :: "ffi_type \<Rightarrow> ABIArgInfo \<Rightarrow> bool" where
  "aa_result ty x \<longleftrightarrow> (\<exists>f b. aa_ret_flags ty 0 = Inr (f, b) \<and> aa_store_ret f zeroArgInfo = Inr x)"

definition xx_result :: "ffi_type \<Rightarrow> ABIArgInfo \<Rightarrow> bool" where
  "xx_result ty x \<longleftrightarrow> (\<exists>f n e. xx_ret_flags [] ty \<lparr>ex_n = 0, ex_classes = [], ex_ngpr = 0, ex_nsse = 0\<rparr> = Inr (f, n, e)
     \<and> xx_store_ret f zeroArgInfo = Inr x)"

lemma plain_flags:
  assumes "plain_type ty"
  shows "\<exists>f x. xx_ret_flags junk ty ex = Inr (f, 0, ex) \<and> xx_store_ret f zeroArgInfo = Inr x \<and> xx_result ty x"
    and "\<exists>f x. aa_ret_flags ty b = Inr (f, b) \<and> aa_store_ret f zeroArgInfo = Inr x \<and> aa_result ty x"
proof -
  let ?S = "set (ffi_type_void # scalar_types)"
  let ?ex = "\<lparr>ex_n = 0, ex_classes = [], ex_ngpr = 0, ex_nsse = 0\<rparr>"
  have t: "ty \<in> ?S" using assms by auto
  have "\<forall>ty \<in> ?S. ffi_code ty \<noteq> FFI_TYPE_STRUCT \<and> ffi_code ty \<noteq> FFI_TYPE_COMPLEX \<and> ffi_size ty \<le> 16" by code_simp
  then have p: "ffi_code ty \<noteq> FFI_TYPE_STRUCT" "ffi_code ty \<noteq> FFI_TYPE_COMPLEX" "ffi_size ty \<le> 16" using t by blast+
  have "\<forall>ty \<in> ?S. case aa_ret_flags ty 0 of Inl _ \<Rightarrow> False
      | Inr (f, _) \<Rightarrow> (case aa_store_ret f zeroArgInfo of Inr x \<Rightarrow> True | Inl _ \<Rightarrow> False)" by code_simp
  from bspec [OF this t] show "\<exists>f x. aa_ret_flags ty b = Inr (f, b) \<and> aa_store_ret f zeroArgInfo = Inr x \<and> aa_result ty x"
    unfolding aa_ret_flags_plain [OF p(3), of b] aa_result_def by (auto split: sum.splits)
  have "\<forall>ty \<in> ?S. case xx_ret_flags [] ty ?ex of Inl _ \<Rightarrow> False
      | Inr (f, n, _) \<Rightarrow> n = 0 \<and> (case xx_store_ret f zeroArgInfo of Inr x \<Rightarrow> True | Inl _ \<Rightarrow> False)" by code_simp
  from bspec [OF this t] show "\<exists>f x. xx_ret_flags junk ty ex = Inr (f, 0, ex) \<and> xx_store_ret f zeroArgInfo = Inr x \<and> xx_result ty x"
    unfolding xx_ret_flags_plain [OF p(1,2), of junk ex] xx_result_def by (auto split: sum.splits)
qed

section \<open>Whole signatures\<close>

lemma init_plain: "plain_type ty \<Longrightarrow> init_type ty = Inr ty \<and> xx_init_type ty = Inr ty"
  using plain_type_size by (simp add: init_type_def xx_init_type_def)

lemma aa_init_scalars: "list_all scalar_type tys \<Longrightarrow> \<exists>b'. aa_init_args tys b = Inr (tys, b')"
proof (induction tys arbitrary: b)
  case (Cons ty tys)
  let ?b = "(if (ucast (ffi_alignment ty) - 1) AND b \<noteq> 0 then ucast (FFI_ALIGN (ucast b) (ucast (ffi_alignment ty))) else b)
    + ucast (STACK_ARG_SIZE (ffi_size ty))"
  from Cons obtain b' where "aa_init_args tys ?b = Inr (tys, b')" by auto
  then show ?case using Cons.prems by (simp add: Let_def init_plain)
qed simp

lemma aa_prep_scalars:
  assumes "plain_type rtype" "list_all scalar_type tys" "nf \<le> length tys" "isv \<Longrightarrow> 1 \<le> nf"
  shows "\<exists>cif fn. my_aa_fi_prep_cif_core AA_FI_SYSV isv nf (length tys) rtype tys (Some (newFnInfo (length tys)))
      = Inr (cif, Some fn) \<and> aa_result rtype (fi_rinfo fn)"
proof -
  let ?n = "length tys"
  define b0 :: u32 where "b0 = (if ffi_code rtype = FFI_TYPE_STRUCT then ucast (STACK_ARG_SIZE 8) else 0)"
  from aa_init_scalars [OF assms(2)] obtain b where b: "aa_init_args tys b0 = Inr (tys, b)" by blast
  from plain_flags(2) [OF assms(1), of "ucast b"] obtain f x where f: "aa_ret_flags rtype (ucast b) = Inr (f, ucast b)"
    "aa_store_ret f zeroArgInfo = Inr x" "aa_result rtype x" by blast
  let ?fn = "newFnInfo ?n\<lparr>fi_rinfo := x\<rparr>"
  have fn: "fn_ret_upd (Some (newFnInfo ?n)) (aa_store_ret f) = Inr (Some ?fn)"
    using f(2) by (simp add: fn_ret_upd_def newFnInfo_def)
  let ?st = "\<lparr>gprcount = 0, ssecount = 0, stack_offset = 0, allocating_variadic = False, aa_fn = Some ?fn\<rparr>"
  have "\<exists>st' fn'. aa_place_args ?st (if isv then nf else 0) 0 tys = Inr st' \<and> aa_fn st' = Some fn' \<and> fi_rinfo fn' = x"
    using aa_place_scalars_ok [OF assms(2), of ?st ?fn 0 "if isv then nf else 0"] by (auto simp: newFnInfo_def same_result_def)
  then show ?thesis
    using assms(3,4) b f(1,3) fn init_plain [OF assms(1)]
    by (cases isv) (auto simp: my_aa_fi_prep_cif_core_def my_aa_fi_prep_cif_machdep_var_def my_aa_fi_prep_cif_machdep_def
        b0_def [symmetric] Let_def AA_FI_SYSV_def)
qed

lemma xx_prep_scalars:
  assumes "plain_type rtype" "list_all scalar_type tys" "junk \<noteq> []"
  shows "\<exists>cif fn. my_xx_fi_prep_cif junk XX_FI_UNIX64 (length tys) rtype tys (Some (newFnInfo (length tys)))
      = Inr (cif, Some fn) \<and> xx_rtype cif = rtype \<and> xx_arg_types cif = tys \<and> xx_result rtype (fi_rinfo fn)"
proof -
  let ?n = "length tys"
  let ?ex = "\<lparr>ex_n = 0, ex_classes = junk, ex_ngpr = 0, ex_nsse = 0\<rparr>"
  from plain_flags(1) [OF assms(1), of junk ?ex] obtain f x where f: "xx_ret_flags junk rtype ?ex = Inr (f, 0, ?ex)"
    "xx_store_ret f zeroArgInfo = Inr x" "xx_result rtype x" by blast
  let ?fn = "newFnInfo ?n\<lparr>fi_rinfo := x\<rparr>"
  have fn: "fn_ret_upd (Some (newFnInfo ?n)) (xx_store_ret f) = Inr (Some ?fn)"
    using f(2) by (simp add: fn_ret_upd_def newFnInfo_def)
  let ?st = "\<lparr>xx_gprcount = 0, xx_ssecount = 0, xx_offset = 0, xx_ex = ?ex, xx_fn = Some ?fn\<rparr>"
  have "\<exists>st' fn'. xx_place_args junk ?st 0 tys = Inr st' \<and> xx_fn st' = Some fn' \<and> fi_rinfo fn' = x"
    using xx_place_scalars_ok [OF assms(2), of ?st ?fn 0 junk] assms(3) by (auto simp: newFnInfo_def same_result_def)
  then show ?thesis
    using f(1,3) fn init_plain [OF assms(1)] scalars_init [OF assms(2)]
    by (auto simp: my_xx_fi_prep_cif_def my_xx_fi_prep_cif_core_def my_xx_fi_prep_cif_machdep_def Let_def
        XX_FI_UNIX64_def XX_FI_WIN64_def XX_FI_GNUW64_def)
qed

lemma mark_blocks_ok:
  "blocks (Some f) = Some (replicate n False, n) \<Longrightarrow> n \<le> 64 \<Longrightarrow> \<exists>f'. mark_blocks m f = Inr f'"
  using blocks_Some(2) by (simp add: mark_blocks_def)

lemma handle_scalars:
  assumes sig: "parse_signature junk types = Inr (rtype, atypes, m)" and first: "types \<noteq> []" "hd types \<noteq> NUL"
    and ty: "plain_type rtype" "list_all scalar_type atypes" and n: "length atypes \<le> 64" and junk: "junk \<noteq> []"
    and nf: "nfixed = InvalidValue \<or> 1 \<le> unat nfixed \<and> unat nfixed \<le> length atypes"
  shows "\<exists>aa xx. handle junk types True True nfixed = Inr (True, Some aa, Some xx)
    \<and> (\<exists>ra rx. aa_result rtype ra \<and> xx_result rtype rx \<and> fi_rinfo aa = mark_if m 63 ra \<and> fi_rinfo xx = mark_if m 63 rx)"
proof -
  let ?n = "length atypes"
  let ?new = "Some (newFnInfo ?n)"
  from xx_prep_scalars [OF ty junk] obtain xcif xi where
    xt: "xx_rtype xcif = rtype" "xx_arg_types xcif = atypes" "xx_result rtype (fi_rinfo xi)" and x: "my_xx_fi_prep_cif junk XX_FI_UNIX64 ?n rtype atypes ?new = Inr (xcif, Some xi)" by blast
  let ?isv = "nfixed \<noteq> InvalidValue" let ?nf = "if ?isv then unat nfixed else ?n"
  have "?nf \<le> ?n" "?isv \<Longrightarrow> 1 \<le> ?nf" using nf by auto
  from aa_prep_scalars [OF ty this] obtain acif ai where
    at: "aa_result rtype (fi_rinfo ai)"
    and a: "my_aa_fi_prep_cif_core AA_FI_SYSV ?isv ?nf ?n rtype atypes ?new = Inr (acif, Some ai)" by blast
  then have a': "(if ?isv then my_aa_fi_prep_cif_var AA_FI_SYSV (unat nfixed) ?n rtype atypes ?new
      else my_aa_fi_prep_cif AA_FI_SYSV ?n rtype atypes ?new) = Inr (acif, Some ai)"
    by (auto simp: my_aa_fi_prep_cif_var_def my_aa_fi_prep_cif_def)
  from mark_blocks_ok [OF xx_prep_blocks [OF x, unfolded blocks_newFnInfo] n] obtain xx where xm: "mark_blocks m xi = Inr xx" by blast
  from mark_blocks_ok [OF aa_prep_blocks [OF a, unfolded blocks_newFnInfo] n] obtain aa where am: "mark_blocks m ai = Inr aa" by blast
  have "handle_xx junk rtype atypes m = Inr (Some (xx, rtype, atypes))"
    using x xm xt by (simp add: handle_xx_def Let_def ffi_status_def)
  moreover have "handle_aa rtype atypes m nfixed = Inr (Some aa)"
    unfolding handle_aa_def Let_def a' using am by (simp add: ffi_status_def)
  ultimately have "handle junk types True True nfixed = Inr (True, Some aa, Some xx)"
    using sig first by (cases types) (simp_all add: handle_def deref_def)
  then show ?thesis using at xt(3) mark_blocks_frame(1) [OF am] mark_blocks_frame(1) [OF xm] by blast
qed

section \<open>The result of a call\<close>

text \<open>Where a result of a plain type is before and after the exit translation.\<close>

definition result_regs :: "ffi_type \<Rightarrow> ABIArgInfo \<Rightarrow> ABIArgInfo \<Rightarrow> bool" where
  "result_regs ty aa xx \<longleftrightarrow> result_ok (result_size ty) 8 0 aa xx \<and> \<not> te_is_indirect xx
     \<and> te_num_of_reg aa = (if ty = ffi_type_void then 0 else 1)
     \<and> (ty \<noteq> ffi_type_void \<longrightarrow>
          a64_place (reg_of aa 0) = (if is_fp (ffi_code ty) then ZB 0 0 else XB 0)
          \<and> vec_reg (reg_of aa 0) = is_fp (ffi_code ty)
          \<and> rslot (reg_of xx 0) = (if is_fp (ffi_code ty) then sse_off 0 else rax_off))"

lemma plain_result_regs:
  assumes "plain_type ty" "aa_result ty a" "xx_result ty x"
  shows "result_regs ty a x"
proof -
  have "\<forall>ty \<in> set (ffi_type_void # scalar_types). case aa_ret_flags ty 0 of Inl _ \<Rightarrow> True
    | Inr (f, _) \<Rightarrow> (case aa_store_ret f zeroArgInfo of Inl _ \<Rightarrow> True | Inr a \<Rightarrow>
    (case xx_ret_flags [] ty \<lparr>ex_n = 0, ex_classes = [], ex_ngpr = 0, ex_nsse = 0\<rparr> of Inl _ \<Rightarrow> True
    | Inr (g, _, _) \<Rightarrow> (case xx_store_ret g zeroArgInfo of Inl _ \<Rightarrow> True | Inr x \<Rightarrow> result_regs ty a x)))"
    by code_simp
  from bspec [OF this, of ty] assms show ?thesis by (auto simp: aa_result_def xx_result_def)
qed

lemma mark_if_result [simp]: "result_regs ty (mark_if m i a) (mark_if m j x) = result_regs ty a x"
  using te_num_of_reg_cong [of "mark_if m i a" a] te_num_of_reg_cong [of "mark_if m j x" x]
  by (simp add: result_regs_def result_ok_def plain_result_def packed_result_def ret_pair_ok_def places_apart_def sret_result_def)

lemma handle_nfixed:
  assumes "handle junk types True True nfixed = Inr (True, Some aa, Some xx)"
    and "parse_signature junk types = Inr (rtype, atypes, m)" "list_all scalar_type atypes"
  shows "nfixed = InvalidValue \<or> 1 \<le> unat nfixed \<and> unat nfixed \<le> length atypes"
    "length atypes \<le> 64" "types \<noteq> []" "hd types \<noteq> NUL"
proof -
  from assms obtain rtype' atypes' where x: "handle_xx junk rtype atypes m = Inr (Some (xx, rtype', atypes'))"
    and a: "handle_aa rtype' atypes' m nfixed = Inr (Some aa)"
    by (auto elim!: handle_both)
  from x obtain xcif xi where xp: "my_xx_fi_prep_cif junk XX_FI_UNIX64 (length atypes) rtype atypes (Some (newFnInfo (length atypes))) = Inr (xcif, Some xi)"
    and xm: "mark_blocks m xi = Inr xx" and "atypes' = xx_arg_types xcif"
    by (rule handle_xx_Some)
  moreover from xp have "xx_arg_types xcif = atypes" by (rule xx_prep_Inr) (use scalars_init [OF assms(3)] in simp)
  ultimately have at: "atypes' = atypes" by simp
  show "nfixed = InvalidValue \<or> 1 \<le> unat nfixed \<and> unat nfixed \<le> length atypes"
    using a at by (auto simp: handle_aa_def ffi_status_Some my_aa_fi_prep_cif_var_def my_aa_fi_prep_cif_core_def bindR_Inr_iff
        Let_def assertR_def split: if_splits option.splits)
  show "length atypes \<le> 64"
    using xm blocks_Some(2) [OF xx_prep_blocks [OF xp, unfolded blocks_newFnInfo]] by (simp add: mark_blocks_def split: if_splits)
  show "types \<noteq> []" "hd types \<noteq> NUL"
    using assms(1) by (auto simp: handle_def deref_def split: list.splits)
qed

lemma handle_result:
  assumes h: "handle junk types True True nfixed = Inr (True, Some aa, Some xx)"
    and sig: "parse_signature junk types = Inr (rtype, atypes, m)" and s: "list_all scalar_type atypes" "plain_type rtype" "junk \<noteq> []"
  shows "result_regs rtype (fi_rinfo aa) (fi_rinfo xx)"
proof -
  note n = handle_nfixed [OF h sig s(1)]
  show ?thesis using handle_scalars [OF sig n(3,4) s(2,1) n(2) s(3) n(1)] h plain_result_regs [OF s(2)] by auto
qed

definition in_result :: "ffi_type \<Rightarrow> addr \<Rightarrow> bool" where
  "in_result ty a \<longleftrightarrow> ty \<noteq> ffi_type_void \<and>
     (if is_fp (ffi_code ty) then (\<exists>k<16. a = ZB 0 k) else (\<exists>k<8. a = XB k))"

lemma exit_scalar:
  assumes "result_regs ty (fi_rinfo aa) (fi_rinfo xx)" "plain_type ty"
  shows "\<exists>st'. abi_dy_a2x_exit_translation aa xx 0 st = Inr st'
    \<and> (\<forall>k < result_size ty. if is_fp (ffi_code ty) then st' (ZB 0 k) = st (AB (sse_off 0 + k)) else st' (XB k) = st (AB (rax_off + k)))
    \<and> (\<forall>a. \<not> in_result ty a \<longrightarrow> st' a = st a)"
proof -
  note r = assms(1) [unfolded result_regs_def]
  from r have ok: "result_ok (result_size ty) 8 0 (fi_rinfo aa) (fi_rinfo xx)" by simp
  have le: "result_size ty \<le> 8" using assms(2) scalar_size(2) by (auto simp: result_size_def)
  have "(\<forall>i < te_num_of_reg (fi_rinfo aa). \<not> in_reg (reg_of (fi_rinfo aa) i) a)" if "\<not> in_result ty a" for a
    using r that by (auto simp: in_result_def in_reg_def reg_width_def split: if_splits)
  moreover have "aa_result_byte 8 (fi_rinfo aa) k = (if is_fp (ffi_code ty) then ZB 0 k else XB k)
    \<and> xx_result_byte 0 (fi_rinfo xx) k = AB ((if is_fp (ffi_code ty) then sse_off 0 else rax_off) + k)" if "k < result_size ty" for k
    using that le r by (auto simp: aa_result_byte_def xx_result_byte_def result_size_def split: if_splits)
  ultimately show ?thesis using exit_moves [OF ok, of st] by (fastforce split: if_splits)
qed

text \<open>C20. Results of scalar calls: for a signature that \<open>handle\<close> accepted, with scalar arguments
  and a scalar result or none, the exit translation succeeds, the bytes of the result are moved
  from \<open>rax\<close> or \<open>xmm0\<close> to \<open>X0\<close> or \<open>V0\<close>, by the kind of the type, and no byte outside
  of that guest register changes; without a result nothing does.\<close>

theorem scalar_call_result:
  assumes "handle junk types True True nfixed = Inr (True, Some aa, Some xx)"
    and "parse_signature junk types = Inr (rtype, atypes, m)"
    and "list_all scalar_type atypes" "plain_type rtype" "junk \<noteq> []"
  shows "\<exists>st'. abi_dy_a2x_exit_translation aa xx 0 st = Inr st'
    \<and> (\<forall>k < result_size rtype.
         if is_fp (ffi_code rtype) then st' (ZB 0 k) = st (AB (sse_off 0 + k)) else st' (XB k) = st (AB (rax_off + k)))
    \<and> (\<forall>a. \<not> in_result rtype a \<longrightarrow> st' a = st a)"
  using exit_scalar [OF handle_result [OF assms] assms(4)] .

theorem scalar_call_result_witness:
  "\<exists>aa xx st'. handle wit_junk (''q*'' @ [NUL]) True True InvalidValue = Inr (True, Some aa, Some xx)
    \<and> abi_dy_a2x_exit_translation aa xx 0 (\<lambda>a. if a = AB 177 then 5 else 0) = Inr st' \<and> st' (XB 1) = 5"
proof -
  have sig: "parse_signature wit_junk (''q*'' @ [NUL]) = Inr (ffi_type_sint64, [ffi_type_pointer], 0)" by code_simp
  have ty: "plain_type ffi_type_sint64" "list_all scalar_type [ffi_type_pointer]" "result_size ffi_type_sint64 = 8"
    "\<not> is_fp (ffi_code ffi_type_sint64)" by code_simp+
  from handle_scalars [OF sig _ _ ty(1,2), of InvalidValue] obtain aa xx where
    h: "handle wit_junk (''q*'' @ [NUL]) True True InvalidValue = Inr (True, Some aa, Some xx)" by (auto simp: NUL_def)
  from scalar_call_result [OF h sig ty(2,1), of "\<lambda>a. if a = AB 177 then 5 else 0"] ty(3,4) h show ?thesis
    by (auto simp: args_layout)
qed

section \<open>Printed signatures\<close>

lemma encode_sig_start: "ok_item r \<Longrightarrow> encode_sig r as \<noteq> [] \<and> hd (encode_sig r as) \<noteq> NUL"
proof -
  assume "ok_item r"
  then obtain c s where c: "encode (fst r) = c # s" "type_start c" using encode_start [of "fst r"] by (auto simp: ok_item_def)
  moreover have "c \<noteq> NUL" using c(2) by (auto simp: type_start_def NUL_def)
  ultimately show ?thesis by (simp add: encode_sig_def encode_item_def)
qed

text \<open>C21. Calls of scalar signatures always get through: for every printed signature with at most 64
  arguments of scalar types and a scalar result or none, whether it is an ordinary call or a variadic
  one with any number of fixed arguments, \<open>handle\<close> computes both descriptions, and with these
  the entry translation runs to its end from every state, without an abort or an undefined
  access.\<close>

theorem scalar_signature_served:
  assumes "ok_item r" "list_all ok_item as" "length as \<le> 64" and "plain_type (type_of False (fst r))"
    and "list_all (\<lambda>a. scalar_type (type_of False (fst a))) as" and "junk \<noteq> []"
    and "nfixed = InvalidValue \<or> 1 \<le> unat nfixed \<and> unat nfixed \<le> length as"
  shows "\<exists>aa xx. handle junk (encode_sig r as) True True nfixed = Inr (True, Some aa, Some xx)
    \<and> (\<forall>sret sp st. \<exists>st'. abi_dy_a2x_entry_trans_internal aa xx sret sp st = Inr st')"
proof -
  note sig = parse_signature_encode [OF assms(1-3), of junk]
  have sc: "list_all scalar_type (map (type_of False \<circ> fst) as)"
    using assms(5) by (simp add: list_all_iff)
  obtain aa xx where h: "handle junk (encode_sig r as) True True nfixed = Inr (True, Some aa, Some xx)"
    using handle_scalars [OF sig _ _ assms(4) sc _ assms(6), of nfixed] assms(3,7) encode_sig_start [OF assms(1)] by auto
  have "entry_ok aa xx" by (rule scalar_entry_ok(1) [OF h sig sc])
  from entry_moves [OF this] h show ?thesis by blast
qed

theorem scalar_signature_served_witness:
  "\<exists>aa xx. handle [X86_64_NO_CLASS] (encode_sig (Simple (CHR ''v''), None) [(Object None, Some 0), (Simple (CHR ''d''), None)]) True True 1
      = Inr (True, Some aa, Some xx)"
proof -
  let ?as = "[(Object None, Some 0), (Simple (CHR ''d''), None)] :: sig_item list"
  have "ok_item (Simple (CHR ''v''), None) \<and> list_all ok_item ?as \<and> length ?as \<le> 64 \<and> plain_type (type_of False (Simple (CHR ''v'')))
    \<and> list_all (\<lambda>a. scalar_type (type_of False (fst a))) ?as \<and> (1 :: u32) \<noteq> InvalidValue" by code_simp
  then show ?thesis using scalar_signature_served [of "(Simple (CHR ''v''), None)" ?as "[X86_64_NO_CLASS]" 1] by auto
qed

end
