(* ===== verification/Handlers.thy ===== *)
theory Handlers
  imports Bridge_Live Fmtstr_Scanf Marshal_Exit
begin

text \<open>
  The handlers of \<open>tcg/abibridge/AArch64tox64.inc.c\<close> for functions whose arguments are only known
  when they are called: variadic functions with a format string, a nil-terminated list or a
  type string, their \<open>va_list\<close> variants, and four system functions.  Each one obtains the two
  descriptions of the call, moves the arguments, calls the x86-64 code through the trampoline of
  \<open>tcg/i386/tcg-target.inc.c\<close> and moves the result back.

  The x86-64 code, the string functions of the Objective-C and Core Foundation libraries and the
  addresses of the functions are parameters, collected in the record \<open>host\<close>.
\<close>

section \<open>The trampoline\<close>

type_synonym xmm = "u64 \<times> u64"

record x64_in =
  in_gpr :: "u64 list"
  in_eax :: u32
  in_sse :: "xmm list option" \<comment> \<open>\<open>None\<close> when the registers are not loaded\<close>
  in_stack :: "u8 list"

record x64_out =
  out_rax :: u64
  out_rdx :: u64
  out_xmm0 :: xmm
  out_xmm1 :: xmm

type_synonym x64_code = "u64 \<Rightarrow> x64_in \<Rightarrow> mstate \<Rightarrow> (x64_out \<times> mstate) result"

definition load_xmm :: "mstate \<Rightarrow> nat \<Rightarrow> xmm" where
  "load_xmm st k = (load st (AB k) 8, load st (AB (k + 8)) 8)"

definition store_xmm :: "nat \<Rightarrow> xmm \<Rightarrow> mstate \<Rightarrow> mstate" where
  "store_xmm k x st = store (AB (k + 8)) 8 (snd x) (store (AB k) 8 (fst x) st)"

definition trampoline_in :: "u32 \<Rightarrow> mstate \<Rightarrow> x64_in" where
  "trampoline_in stack_size st =
     (let eax = ucast (load st (AB 0xb0) 4)
      in \<lparr>in_gpr = map (\<lambda>k. load st (AB k) 8) [0, 8, 0x10, 0x18, 0x20, 0x28],
          in_eax = eax,
          in_sse = (if eax = 0 then None
                    else Some (map (load_xmm st) [0x30, 0x40, 0x50, 0x60, 0x70, 0x80, 0x90, 0xa0])),
          in_stack = map (\<lambda>k. st (AB (6 * 8 + 8 * 16 + 8 + k))) [0..<unat stack_size]\<rparr>)"

text \<open>The buffer is local to the handler: the called code leaves it alone.\<close>

definition trampoline_out :: "x64_out \<Rightarrow> mstate \<Rightarrow> mstate \<Rightarrow> mstate" where
  "trampoline_out out st st1 =
     store_xmm 0x40 (out_xmm1 out) (store_xmm 0x30 (out_xmm0 out)
       (store (AB 0x10) 8 (out_rdx out) (store (AB 0xb0) 8 (out_rax out)
         (\<lambda>a. case a of AB k \<Rightarrow> st a | _ \<Rightarrow> st1 a))))"

definition dy_call_x64_trampoline :: "x64_code \<Rightarrow> u64 \<Rightarrow> u32 \<Rightarrow> mstate \<Rightarrow> mstate result" where
  "dy_call_x64_trampoline x64 pc stack_size st =
     bindR (x64 pc (trampoline_in stack_size st) st) (\<lambda>(out, st1). Inr (trampoline_out out st st1))"

section \<open>Environment\<close>

record host =
  x64 :: x64_code
  UTF8String :: "mstate \<Rightarrow> u64 \<Rightarrow> string option"
  CFStringGetLength :: "mstate \<Rightarrow> u64 \<Rightarrow> u64"
  CFStringGetMaximumSizeForEncoding :: "u64 \<Rightarrow> u64"
  CFStringGetCString :: "mstate \<Rightarrow> u64 \<Rightarrow> u64 \<Rightarrow> string option"
  sym :: "string \<Rightarrow> u64"

record cpu =
  cpu_pc :: u64
  cpu_st :: mstate

definition xregs :: "mstate \<Rightarrow> u32 \<Rightarrow> u64 result" where
  "xregs st i = (if unat i < 32 then Inr (xreg st (unat i)) else Inl Undefined)"

fun c_chars :: "nat \<Rightarrow> mstate \<Rightarrow> u64 \<Rightarrow> string result" where
  "c_chars 0 st p = Inl OutOfFuel"
| "c_chars (Suc n) st p =
     (let c = char_of (unat (st (MB p))) in
      if c = NUL then Inr [NUL] else bindR (c_chars n st (p + 1)) (\<lambda>s. Inr (c # s)))"

text \<open>The characters at a pointer, the terminating NUL included.\<close>

definition c_string :: "nat \<Rightarrow> mstate \<Rightarrow> u64 \<Rightarrow> string result" where
  "c_string n st p = (if p = 0 then Inl Undefined else c_chars n st p)"

definition non_null :: "'a option \<Rightarrow> 'a result" where
  "non_null x = (case x of None \<Rightarrow> Inl Undefined | Some y \<Rightarrow> Inr y)"

definition nsstr_2_cstr :: "host \<Rightarrow> mstate \<Rightarrow> u64 \<Rightarrow> string option" where
  "nsstr_2_cstr h st ns = UTF8String h st ns"

definition cfstring_dup_cstr :: "host \<Rightarrow> mstate \<Rightarrow> u64 \<Rightarrow> string option" where
  "cfstring_dup_cstr h st cf =
     (let maxSize = 1 + CFStringGetMaximumSizeForEncoding h (CFStringGetLength h st cf)
      in CFStringGetCString h st cf maxSize)"

definition ALIGN2POW :: "u32 \<Rightarrow> u32 \<Rightarrow> u32" where
  "ALIGN2POW v a = ((v - 1) OR (a - 1)) + 1"

text \<open>\<open>if (!parse(...)) abort();\<close>\<close>

definition parsed_or_abort :: "(bool \<times> ABIFnInfo option \<times> ABIFnInfo option) result \<Rightarrow> (ABIFnInfo \<times> ABIFnInfo) result" where
  "parsed_or_abort r =
     bindR r (\<lambda>(ok, aa, xx).
       if ok then bindR (non_null aa) (\<lambda>a. bindR (non_null xx) (\<lambda>x. Inr (a, x))) else Inl Abort)"

text \<open>The call and the exit translation, and the sequences they end in the handlers.\<close>

definition call_and_exit :: "host \<Rightarrow> ABIFnInfo \<Rightarrow> ABIFnInfo \<Rightarrow> u64 \<Rightarrow> mstate \<Rightarrow> mstate result" where
  "call_and_exit h aaInfo xxInfo pc st =
     bindR (dy_call_x64_trampoline (x64 h) pc (ALIGN2POW (fi_bytes xxInfo) 16) st) (\<lambda>st'.
     abi_dy_a2x_exit_translation aaInfo xxInfo 0 st')"

definition ellipsis_call :: "host \<Rightarrow> cpu \<Rightarrow> ABIFnInfo \<times> ABIFnInfo \<Rightarrow> cpu result" where
  "ellipsis_call h env info =
     (let (aaInfo, xxInfo) = info in
      bindR (abi_dy_a2x_entry_translation aaInfo xxInfo 0 (cpu_st env)) (\<lambda>st.
      bindR (call_and_exit h aaInfo xxInfo (cpu_pc env) st) (\<lambda>st'.
      Inr (env\<lparr>cpu_st := st'\<rparr>))))"

definition void_ellipsis_call :: "host \<Rightarrow> cpu \<Rightarrow> ABIFnInfo \<times> ABIFnInfo \<Rightarrow> cpu result" where
  "void_ellipsis_call h env info =
     (let (aaInfo, xxInfo) = info in
      bindR (abi_dy_a2x_entry_translation aaInfo xxInfo 0 (cpu_st env)) (\<lambda>st.
      bindR (dy_call_x64_trampoline (x64 h) (cpu_pc env) (ALIGN2POW (fi_bytes xxInfo) 16) st) (\<lambda>st'.
      Inr (env\<lparr>cpu_st := st'\<rparr>))))"

text \<open>
  The \<open>va_list\<close> variants (with \<open>REPLACE_VALIST_WITH_ELLIPSIS\<close>): the cascade of comparisons of
  \<open>env->pc\<close> picks the function with an ellipsis, which is called with the arguments of the list.
\<close>

definition replace_pc :: "(u64 \<times> u64) list \<Rightarrow> u64 \<Rightarrow> u64 result" where
  "replace_pc tbl pc = (case map_of tbl pc of None \<Rightarrow> Inl Abort | Some pc' \<Rightarrow> Inr pc')"

definition valist_call :: "host \<Rightarrow> (u64 \<times> u64) list \<Rightarrow> u32 \<Rightarrow> cpu \<Rightarrow> ABIFnInfo \<times> ABIFnInfo \<Rightarrow> cpu result" where
  "valist_call h tbl idxOfValist env info =
     (let (aaInfo, xxInfo) = info in
      bindR (abi_valist_a2x_prepare_args aaInfo xxInfo 0 (unat idxOfValist) (cpu_st env)) (\<lambda>st.
      bindR (replace_pc tbl (cpu_pc env)) (\<lambda>pc.
      bindR (call_and_exit h aaInfo xxInfo pc st) (\<lambda>st'.
      Inr \<lparr>cpu_pc = pc, cpu_st = st'\<rparr>))))"

section \<open>Functions with a format string\<close>

definition my_scanf_family :: "nat \<Rightarrow> x86_64_reg_class list \<Rightarrow> host \<Rightarrow> cpu \<Rightarrow> u32 \<Rightarrow> cpu result" where
  "my_scanf_family n junk h env idxOfFmt =
     bindR (xregs (cpu_st env) idxOfFmt) (\<lambda>p.
     bindR (c_string n (cpu_st env) p) (\<lambda>str.
     bindR (parsed_or_abort (parse_scanf_fmtstr n junk str idxOfFmt True True)) (\<lambda>info.
     ellipsis_call h env info)))"

definition my_printf_family :: "nat \<Rightarrow> x86_64_reg_class list \<Rightarrow> host \<Rightarrow> cpu \<Rightarrow> u32 \<Rightarrow> cpu result" where
  "my_printf_family n junk h env idxOfFmt =
     bindR (xregs (cpu_st env) idxOfFmt) (\<lambda>p.
     bindR (c_string n (cpu_st env) p) (\<lambda>str.
     bindR (parsed_or_abort (parse_fmtstr n junk str (idxOfFmt + 1) True True)) (\<lambda>info.
     ellipsis_call h env info)))"

definition sym_table :: "host \<Rightarrow> (string \<times> string) list \<Rightarrow> (u64 \<times> u64) list" where
  "sym_table h tbl = map (\<lambda>(v, e). (sym h v, sym h e)) tbl"

definition vprintf_replacements :: "(string \<times> string) list" where
  "vprintf_replacements =
     [(''vprintf'', ''printf''), (''vasprintf'', ''asprintf''), (''vdprintf'', ''dprintf''),
      (''vfprintf'', ''fprintf''), (''vsprintf'', ''sprintf''), (''vprintf_l'', ''printf_l''),
      (''vsnprintf'', ''snprintf''), (''vasprintf_l'', ''asprintf_l''), (''vfprintf_l'', ''fprintf_l''),
      (''vsprintf_l'', ''sprintf_l''), (''vsnprintf_l'', ''snprintf_l''),
      (''__vsnprintf_chk'', ''__snprintf_chk''), (''__vsprintf_chk'', ''__sprintf_chk'')]"

definition my_vprintf_family :: "nat \<Rightarrow> x86_64_reg_class list \<Rightarrow> host \<Rightarrow> cpu \<Rightarrow> u32 \<Rightarrow> cpu result" where
  "my_vprintf_family n junk h env idxOfValist =
     bindR (assertR (idxOfValist \<le> 7)) (\<lambda>_.
     bindR (xregs (cpu_st env) (idxOfValist - 1)) (\<lambda>p.
     bindR (c_string n (cpu_st env) p) (\<lambda>format.
     bindR (parsed_or_abort (parse_fmtstr n junk format idxOfValist True True)) (\<lambda>info.
     valist_call h (sym_table h vprintf_replacements) idxOfValist env info))))"

definition vscanf_replacements :: "(string \<times> string) list" where
  "vscanf_replacements =
     [(''vscanf'', ''scanf''), (''__svfscanf'', ''fscanf''), (''vfscanf'', ''fscanf''), (''vsscanf'', ''sscanf'')]"

definition my_vscanf_family :: "nat \<Rightarrow> x86_64_reg_class list \<Rightarrow> host \<Rightarrow> cpu \<Rightarrow> u32 \<Rightarrow> cpu result" where
  "my_vscanf_family n junk h env idxOfValist =
     bindR (assertR (idxOfValist \<le> 7)) (\<lambda>_.
     bindR (xregs (cpu_st env) (idxOfValist - 1)) (\<lambda>p.
     bindR (c_string n (cpu_st env) p) (\<lambda>format.
     bindR (parsed_or_abort (parse_scanf_fmtstr n junk format (idxOfValist - 1) True True)) (\<lambda>info.
     valist_call h (sym_table h vscanf_replacements) idxOfValist env info))))"

definition vcfstring_replacements :: "(string \<times> string) list" where
  "vcfstring_replacements =
     [(''CFStringCreateWithFormatAndArguments'', ''CFStringCreateWithFormat''),
      (''CFStringAppendFormatAndArguments'', ''CFStringAppendFormat'')]"

definition my_vcfstring_family :: "nat \<Rightarrow> x86_64_reg_class list \<Rightarrow> host \<Rightarrow> cpu \<Rightarrow> u32 \<Rightarrow> cpu result" where
  "my_vcfstring_family n junk h env idxOfValist =
     bindR (assertR (idxOfValist \<le> 7)) (\<lambda>_.
     bindR (xregs (cpu_st env) (idxOfValist - 1)) (\<lambda>cf.
     bindR (non_null (cfstring_dup_cstr h (cpu_st env) cf)) (\<lambda>format.
     bindR (parsed_or_abort (parse_fmtstr n junk format idxOfValist True True)) (\<lambda>info.
     valist_call h (sym_table h vcfstring_replacements) idxOfValist env info))))"

definition my_nslog :: "nat \<Rightarrow> x86_64_reg_class list \<Rightarrow> host \<Rightarrow> cpu \<Rightarrow> cpu result" where
  "my_nslog n junk h env =
     bindR (xregs (cpu_st env) 0) (\<lambda>ns.
     bindR (non_null (nsstr_2_cstr h (cpu_st env) ns)) (\<lambda>cs.
     bindR (parsed_or_abort (parse_fmtstr n junk cs 1 True True)) (\<lambda>info.
     void_ellipsis_call h env info)))"

definition my_nslogv :: "nat \<Rightarrow> x86_64_reg_class list \<Rightarrow> host \<Rightarrow> cpu \<Rightarrow> cpu result" where
  "my_nslogv n junk h env =
     (let idxOfValist = 1 in
      bindR (xregs (cpu_st env) (idxOfValist - 1)) (\<lambda>ns.
      bindR (non_null (nsstr_2_cstr h (cpu_st env) ns)) (\<lambda>fmt.
      bindR (parsed_or_abort (parse_fmtstr n junk fmt idxOfValist True True)) (\<lambda>(aaInfo, xxInfo).
      bindR (abi_valist_a2x_prepare_args aaInfo xxInfo 0 (unat idxOfValist) (cpu_st env)) (\<lambda>st.
      bindR (call_and_exit h aaInfo xxInfo (sym h ''NSLog'') st) (\<lambda>st'.
      Inr \<lparr>cpu_pc = sym h ''NSLog'', cpu_st = st'\<rparr>))))))"

definition my_cfstring_family :: "nat \<Rightarrow> x86_64_reg_class list \<Rightarrow> host \<Rightarrow> cpu \<Rightarrow> u32 \<Rightarrow> cpu result" where
  "my_cfstring_family n junk h env idxOfFmt =
     bindR (xregs (cpu_st env) idxOfFmt) (\<lambda>cf.
     bindR (non_null (cfstring_dup_cstr h (cpu_st env) cf)) (\<lambda>cs.
     bindR (parsed_or_abort (parse_fmtstr n junk cs (idxOfFmt + 1) True True)) (\<lambda>info.
     ellipsis_call h env info)))"

section \<open>Nil-terminated lists\<close>

fun count_to_nil :: "nat \<Rightarrow> mstate \<Rightarrow> u64 \<Rightarrow> u32 \<Rightarrow> u32 result" where
  "count_to_nil 0 st sp nvari = Inl OutOfFuel"
| "count_to_nil (Suc n) st sp nvari =
     (if load st (MB sp) 8 = 0 then Inr nvari else count_to_nil n st (sp + 8) (nvari + 1))"

definition star_types :: "u32 \<Rightarrow> string result" where
  "star_types len = (if len + 1 = 0 then Inl Undefined else Inr (replicate (unat len) (CHR ''*'') @ [NUL]))"

definition my_c_nil_terminated_vari :: "nat \<Rightarrow> x86_64_reg_class list \<Rightarrow> host \<Rightarrow> cpu \<Rightarrow> u32 \<Rightarrow> cpu result" where
  "my_c_nil_terminated_vari n junk h env nfixed =
     bindR (count_to_nil n (cpu_st env) (xreg (cpu_st env) REG_SP_NUM) 1) (\<lambda>nvari.
     bindR (star_types (1 + nfixed + nvari)) (\<lambda>types.
     bindR (parsed_or_abort (get_vari_fn_info_from_types junk types nfixed True True)) (\<lambda>info.
     ellipsis_call h env info)))"

text \<open>The test compares \<open>env->pc\<close> with the getter, not with what the getter returns.\<close>

definition nil_valist_replacements :: "(string \<times> string) list" where
  "nil_valist_replacements =
     [(''CGColorConversionInfoCreateFromListWithArguments_ptr'', ''CGColorConversionInfoCreateFromList'')]"

definition my_c_nil_terminated_valist :: "nat \<Rightarrow> x86_64_reg_class list \<Rightarrow> host \<Rightarrow> cpu \<Rightarrow> u32 \<Rightarrow> cpu result" where
  "my_c_nil_terminated_valist n junk h env idxOfValist =
     bindR (xregs (cpu_st env) idxOfValist) (\<lambda>sp.
     bindR (count_to_nil n (cpu_st env) sp 1) (\<lambda>nvari.
     bindR (star_types (1 + idxOfValist + nvari)) (\<lambda>types.
     bindR (parsed_or_abort (get_vari_fn_info_from_types junk types idxOfValist True True)) (\<lambda>info.
     valist_call h (sym_table h nil_valist_replacements) idxOfValist env info))))"

definition my_objc_nil_terminated_vari :: "nat \<Rightarrow> x86_64_reg_class list \<Rightarrow> host \<Rightarrow> cpu \<Rightarrow> u32 \<Rightarrow> cpu result" where
  "my_objc_nil_terminated_vari n junk h env nfixed0 =
     (let nfixed = nfixed0 + 2 in
      bindR (count_to_nil n (cpu_st env) (xreg (cpu_st env) REG_SP_NUM) 1) (\<lambda>nvari.
      bindR (star_types (1 + nfixed + nvari)) (\<lambda>types.
      bindR (parsed_or_abort (get_vari_fn_info_from_types junk types nfixed True True)) (\<lambda>info.
      ellipsis_call h env info))))"

section \<open>Objective-C methods with a type string or a format string\<close>

definition my_objc_types_vari :: "nat \<Rightarrow> x86_64_reg_class list \<Rightarrow> host \<Rightarrow> cpu \<Rightarrow> u32 \<Rightarrow> u32 \<Rightarrow> cpu result" where
  "my_objc_types_vari n junk h env idxOfTy0 nfixed0 =
     (let nfixed = nfixed0 + 2; idxOfTy = idxOfTy0 + 2 in
      bindR (assertR (idxOfTy \<le> 7)) (\<lambda>_.
      bindR (xregs (cpu_st env) idxOfTy) (\<lambda>p.
      bindR (c_string n (cpu_st env) p) (\<lambda>type_codes.
      bindR (parsed_or_abort (parse_type_codes junk type_codes nfixed True True)) (\<lambda>info.
      void_ellipsis_call h env info)))))"

definition my_objc_fmt_str_vari :: "nat \<Rightarrow> x86_64_reg_class list \<Rightarrow> host \<Rightarrow> cpu \<Rightarrow> u32 \<Rightarrow> u32 \<Rightarrow> cpu result" where
  "my_objc_fmt_str_vari n junk h env idxOfFmt0 nfixed0 =
     (let idxOfFmt = idxOfFmt0 + 2; nfixed = nfixed0 + 2 in
      bindR (assertR (idxOfFmt \<le> 7)) (\<lambda>_.
      bindR (xregs (cpu_st env) idxOfFmt) (\<lambda>ns.
      bindR (non_null (nsstr_2_cstr h (cpu_st env) ns)) (\<lambda>fmt.
      bindR (parsed_or_abort (parse_fmtstr n junk fmt nfixed True True)) (\<lambda>info.
      ellipsis_call h env info)))))"

text \<open>The methods are named by the functions that return their implementations.\<close>

definition objc_valist_replacements :: "(string \<times> string) list" where
  "objc_valist_replacements =
     [(''NSExpression_expressionWithFormat_arguments'', ''NSExpression_expressionWithFormat''),
      (''NSPredicate_predicateWithFormat_arguments'', ''NSPredicate_predicateWithFormat''),
      (''NSString_initWithFormat_arguments'', ''NSString_initWithFormat''),
      (''NSString_initWithFormat_locale_arguments'', ''NSString_initWithFormat_locale''),
      (''NSString_deferredLocalizedIntentsStringWithFormat_fromTable_arguments'',
       ''NSString_deferredLocalizedIntentsStringWithFormat_fromTable''),
      (''NSException_raise_format_arguments'', ''NSException_raise_format'')]"

definition my_objc_fmt_str_valist :: "nat \<Rightarrow> x86_64_reg_class list \<Rightarrow> host \<Rightarrow> cpu \<Rightarrow> u32 \<Rightarrow> u32 \<Rightarrow> cpu result" where
  "my_objc_fmt_str_valist n junk h env idxOfFmt0 idxOfValist0 =
     (let idxOfFmt = idxOfFmt0 + 2; idxOfValist = idxOfValist0 + 2 in
      bindR (assertR (idxOfFmt \<le> 7)) (\<lambda>_.
      bindR (xregs (cpu_st env) idxOfFmt) (\<lambda>ns.
      bindR (non_null (nsstr_2_cstr h (cpu_st env) ns)) (\<lambda>fmt.
      bindR (parsed_or_abort (parse_fmtstr n junk fmt idxOfValist True True)) (\<lambda>info.
      valist_call h (sym_table h objc_valist_replacements) idxOfValist env info)))))"

section \<open>System functions\<close>

definition my_fcntl :: "x86_64_reg_class list \<Rightarrow> host \<Rightarrow> cpu \<Rightarrow> cpu result" where
  "my_fcntl junk h env =
     bindR (parsed_or_abort (get_vari_fn_info_from_types junk (''iii*'' @ [NUL]) 2 True True)) (\<lambda>info.
     ellipsis_call h env info)"

definition my_ioctl :: "x86_64_reg_class list \<Rightarrow> host \<Rightarrow> cpu \<Rightarrow> cpu result" where
  "my_ioctl junk h env =
     bindR (parsed_or_abort (get_vari_fn_info_from_types junk (''iiL*'' @ [NUL]) 2 True True)) (\<lambda>info.
     ellipsis_call h env info)"

text \<open>\<open>O_CREAT\<close> as in the system header \<open>fcntl.h\<close>.\<close>

definition O_CREAT :: u32 where "O_CREAT = 0x200"

definition my_open :: "x86_64_reg_class list \<Rightarrow> host \<Rightarrow> cpu \<Rightarrow> cpu result" where
  "my_open junk h env =
     (let flags = ucast (xreg (cpu_st env) 1) :: u32;
          types = (if flags AND O_CREAT \<noteq> 0 then ''i*ii'' else ''i*i'')
      in bindR (parsed_or_abort (get_vari_fn_info_from_types junk (types @ [NUL]) 2 True True)) (\<lambda>info.
         ellipsis_call h env info))"

definition my_sem_open :: "x86_64_reg_class list \<Rightarrow> host \<Rightarrow> cpu \<Rightarrow> cpu result" where
  "my_sem_open junk h env =
     bindR (parsed_or_abort (get_vari_fn_info_from_types junk (''**iiI'' @ [NUL]) 2 True True)) (\<lambda>info.
     ellipsis_call h env info)"

section \<open>Generated stubs\<close>

text \<open>
  The code that \<open>tcg_target_v_code_gen\<close> and its two variants emit for a handler: the link register
  is kept on the host's stack during the handler, and afterwards the guest continues there.  The
  handlers take \<open>unsigned\<close> arguments, so only the low halves of the immediates arrive.
\<close>

definition set_xreg :: "nat \<Rightarrow> u64 \<Rightarrow> cpu \<Rightarrow> cpu" where
  "set_xreg r v env = env\<lparr>cpu_st := store (XB (8 * r)) 8 v (cpu_st env)\<rparr>"

definition update_pc_from_lr :: "u64 \<Rightarrow> cpu \<Rightarrow> cpu" where
  "update_pc_from_lr rax env = (set_xreg 30 rax env)\<lparr>cpu_pc := rax\<rparr>"

definition tcg_target_v_code_gen :: "(cpu \<Rightarrow> cpu result) \<Rightarrow> cpu \<Rightarrow> cpu result" where
  "tcg_target_v_code_gen invoke env =
     (let lr = xreg (cpu_st env) 30 in bindR (invoke env) (\<lambda>env'. Inr (update_pc_from_lr lr env')))"

definition tcg_target_Q_code_gen :: "(cpu \<Rightarrow> u32 \<Rightarrow> cpu result) \<Rightarrow> u64 \<Rightarrow> cpu \<Rightarrow> cpu result" where
  "tcg_target_Q_code_gen invoke a0 env =
     (let lr = xreg (cpu_st env) 30 in
      bindR (invoke env (ucast a0)) (\<lambda>env'. Inr (update_pc_from_lr lr env')))"

definition tcg_target_QQ_code_gen :: "(cpu \<Rightarrow> u32 \<Rightarrow> u32 \<Rightarrow> cpu result) \<Rightarrow> u64 \<Rightarrow> u64 \<Rightarrow> cpu \<Rightarrow> cpu result" where
  "tcg_target_QQ_code_gen invoke a0 a1 env =
     (let lr = xreg (cpu_st env) 30 in
      bindR (invoke env (ucast a0) (ucast a1)) (\<lambda>env'. Inr (update_pc_from_lr lr env')))"

end
