(* ===== verification/Handlers_Call.thy ===== *)
theory Handlers_Call
  imports Handlers
begin

text \<open>
  A handled call as a whole: for signatures of scalar types with a pointer or 64-bit result, which
  are those that the handlers build, the arguments arrive at the x86-64 code and its result
  arrives in the guest.
\<close>

section \<open>The stack size\<close>

lemma ALIGN2POW_16:
  assumes "unat v + 16 \<le> 2 ^ 32"
  shows "unat (ALIGN2POW v 16) = align_up (unat v) 16"
proof (cases "v = 0")
  case True
  have "align_up 0 16 = 0" by (rule align_up_id) simp_all
  with True show ?thesis by (simp add: ALIGN2POW_def)
next
  case False
  define n where "n = unat v - 1"
  have v: "unat v = Suc n" using False by (simp add: n_def unat_gt_0)
  have n: "unat (v - 1) = n" using False by (simp add: n_def unat_minus_one)
  have "(15 :: nat) = mask 4" by (simp add: mask_eq_exp_minus_1)
  then have or: "unat ((v - 1) OR 15) = n div 16 * 16 + 15"
    using or_mask_nat [of n 4] by (simp add: unsigned_or_eq n)
  have au: "align_up (unat v) 16 = n div 16 * 16 + 16"
    using div_add_self1 [of 16 n] by (simp add: align_up_def v)
  then have "n div 16 * 16 + 16 < 2 ^ 32" using align_up_bounds(2) [of 16 "unat v"] assms by simp
  then have "unat (((v - 1) OR 15) + 1) = unat ((v - 1) OR 15) + 1"
    using or by (subst unat_add_lem [THEN iffD1]) simp_all
  then show ?thesis using or au by (simp add: ALIGN2POW_def)
qed

section \<open>Calls of scalar signatures\<close>

text \<open>
  \<open>call\<close> is a call of the x86-64 code at \<open>pc\<close> in the state \<open>st1\<close>, in which every argument is
  at its x86-64 place and guest memory and registers are unchanged; its result goes to \<open>X0\<close>,
  and the rest is as the called code left it.
\<close>

definition calls_in :: "host \<Rightarrow> cpu \<Rightarrow> u64 \<Rightarrow> u32 \<Rightarrow> mstate \<Rightarrow> cpu result \<Rightarrow> bool" where
  "calls_in h env pc bytes st1 call \<longleftrightarrow> (\<forall>a. not_AB a \<longrightarrow> st1 a = cpu_st env a)
     \<and> (case x64 h pc (trampoline_in (ALIGN2POW bytes 16) st1) st1 of
          Inl e \<Rightarrow> call = Inl e
        | Inr (out, st2) \<Rightarrow> (\<exists>st3. call = Inr \<lparr>cpu_pc = pc, cpu_st = st3\<rparr> \<and> xreg st3 0 = out_rax out
             \<and> (\<forall>a. not_AB a \<longrightarrow> (\<forall>b<8. a \<noteq> XB b) \<longrightarrow> st3 a = st2 a)))"

definition forwards :: "host \<Rightarrow> cpu \<Rightarrow> u64 \<Rightarrow> u64 \<Rightarrow> ffi_type list \<Rightarrow> ABIFnInfo \<Rightarrow> ABIFnInfo \<Rightarrow> cpu result \<Rightarrow> bool" where
  "forwards h env sp pc tys aa xx call \<longleftrightarrow>
     (\<exists>st1. (\<forall>i < length tys. \<forall>k < unat (ffi_size (tys ! i)).
               st1 (xx_byte (fi_ainfo xx ! i) k) = cpu_st env (aa_byte (cpu_st env) sp (fi_ainfo aa ! i) k))
        \<and> calls_in h env pc (fi_bytes xx) st1 call)"

lemma pointer_facts:
  "scalar_type ffi_type_pointer" "kind_of ffi_type_pointer = Inr KInt" "unat (ffi_size ffi_type_pointer) = 8"
  "unat (ffi_alignment ffi_type_pointer) = 8" "ok_align (ffi_alignment ffi_type_pointer)"
proof -
  show s: "scalar_type ffi_type_pointer" by (simp add: scalar_types_def)
  show "kind_of ffi_type_pointer = Inr KInt" "unat (ffi_size ffi_type_pointer) = 8" "unat (ffi_alignment ffi_type_pointer) = 8"
    by code_simp+
  show "ok_align (ffi_alignment ffi_type_pointer)" by (rule scalar_size(3) [OF s])
qed

lemma pointer_return:
  assumes r: "result_regs ffi_type_pointer (fi_rinfo aa) (fi_rinfo xx)"
    and x: "x64 h pc (trampoline_in (ALIGN2POW (fi_bytes xx) 16) st1) st1 = Inr (out, st2)"
  shows "\<exists>st3. call_and_exit h aa xx pc st1 = Inr st3 \<and> xreg st3 0 = out_rax out
    \<and> (\<forall>a. not_AB a \<longrightarrow> (\<forall>b<8. a \<noteq> XB b) \<longrightarrow> st3 a = st2 a)"
proof -
  let ?o = "trampoline_out out st1 st2"
  have pl: "plain_type ffi_type_pointer" "\<not> is_fp (ffi_code ffi_type_pointer)" "result_size ffi_type_pointer = 8"
    by code_simp+
  from exit_scalar [OF r pl(1), of ?o] obtain st3 where st3: "abi_dy_a2x_exit_translation aa xx 0 ?o = Inr st3"
    "\<And>k. k < 8 \<Longrightarrow> st3 (XB k) = ?o (AB (rax_off + k))" "\<And>a. \<not> in_result ffi_type_pointer a \<Longrightarrow> st3 a = ?o a"
    using pl by auto
  have o: "?o (AB (rax_off + k)) = get_byte (out_rax out) k" if "k < 8" for k
    using that by (simp add: trampoline_out_def store_xmm_def args_layout)
  have "xreg st3 0 = out_rax out" unfolding xreg_def by (rule load_bytes) (use st3(2) o in simp)
  moreover have "?o a = st2 a" if "not_AB a" for a
    using that by (cases a) (simp_all add: trampoline_out_def store_xmm_def not_AB_def)
  moreover have "in_result ffi_type_pointer a \<longleftrightarrow> (\<exists>k<8. a = XB k)" for a
    using pl(2) by (simp add: in_result_def ffi_basic_defs)
  ultimately show ?thesis
    using x st3(1,3) by (auto simp: call_and_exit_def dy_call_x64_trampoline_def)
qed

definition call_at :: "host \<Rightarrow> cpu \<Rightarrow> u64 \<Rightarrow> u64 \<Rightarrow> ABIFnInfo \<Rightarrow> ABIFnInfo \<Rightarrow> cpu result" where
  "call_at h env sp pc aa xx =
     bindR (abi_dy_a2x_entry_trans_internal aa xx 0 sp (cpu_st env)) (\<lambda>st.
     bindR (call_and_exit h aa xx pc st) (\<lambda>st'. Inr \<lparr>cpu_pc = pc, cpu_st = st'\<rparr>))"

lemma ellipsis_call_at:
  "ellipsis_call h env (aa, xx) = call_at h env (xreg (cpu_st env) REG_SP_NUM) (cpu_pc env) aa xx"
  by (cases env) (simp add: ellipsis_call_def call_at_def abi_dy_a2x_entry_translation_def)

lemma valist_call_at:
  assumes "idx \<le> 7" "replace_pc tbl (cpu_pc env) = Inr pc"
  shows "valist_call h tbl idx env (aa, xx) = call_at h env (xreg (cpu_st env) (unat idx)) pc aa xx"
  using assms by (simp add: valist_call_def call_at_def abi_valist_a2x_prepare_args_def word_le_nat_alt)

lemma call_at_calls_in:
  assumes "result_regs ffi_type_pointer (fi_rinfo aa) (fi_rinfo xx)"
    and "abi_dy_a2x_entry_trans_internal aa xx 0 sp (cpu_st env) = Inr st1" "\<And>a. not_AB a \<Longrightarrow> st1 a = cpu_st env a"
  shows "calls_in h env pc (fi_bytes xx) st1 (call_at h env sp pc aa xx)"
proof -
  have "call_at h env sp pc aa xx = Inl e" if "x64 h pc (trampoline_in (ALIGN2POW (fi_bytes xx) 16) st1) st1 = Inl e" for e
    using that assms(2) by (simp add: call_at_def call_and_exit_def dy_call_x64_trampoline_def)
  then show ?thesis
    using pointer_return [OF assms(1)] assms(2,3) unfolding calls_in_def by (fastforce simp: call_at_def split: sum.split)
qed

lemma forwards_call:
  assumes h: "handle junk types True True nfixed = Inr (True, Some aa, Some xx)"
    and sig: "parse_signature junk types = Inr (ffi_type_pointer, atypes, m)" and s: "list_all scalar_type atypes" "junk \<noteq> []"
  shows "forwards h' env sp pc atypes aa xx (call_at h' env sp pc aa xx)"
proof -
  note ok = scalar_entry_ok [OF h sig s(1)]
  from entry_moves [OF ok(1), of 0 sp "cpu_st env"] obtain st1 where
    st1: "abi_dy_a2x_entry_trans_internal aa xx 0 sp (cpu_st env) = Inr st1"
    "\<And>i k. i < length atypes \<Longrightarrow> k < unat (ffi_size (atypes ! i)) \<Longrightarrow>
       st1 (xx_byte (fi_ainfo xx ! i) k) = cpu_st env (aa_byte (cpu_st env) sp (fi_ainfo aa ! i) k)"
    "\<And>a. not_AB a \<Longrightarrow> st1 a = cpu_st env a"
    using ok(3,4) by auto
  have "result_regs ffi_type_pointer (fi_rinfo aa) (fi_rinfo xx)"
    using handle_result [OF h sig s(1) _ s(2)] pointer_facts(1) by simp
  from call_at_calls_in [OF this st1(1,3)] st1(2) show ?thesis unfolding forwards_def by blast
qed

end
