(* ===== verification/Handlers_Nil.thy ===== *)
theory Handlers_Nil
  imports Handlers_Call
begin

text \<open>
  The handlers of functions with a nil-terminated list: all arguments are pointers, so it can be
  said exactly where they are, on the guest's side and on that of the x86-64 code.
\<close>

section \<open>Calls whose arguments are all pointers\<close>

lemma alloc_pointers:
  assumes "ngrn s = (if i < nf then i else 8)" "nsaa s = 8 * (i - nf)" "varargs s \<longleftrightarrow> nf \<le> i" "nf \<le> 8"
    and "0 < nf" "j < m"
  shows "snd (alloc_all s nf i (replicate m (KInt, 8, 8))) ! j
    = (if i + j < nf then LRegs [TE_X (i + j)] else LMem (8 * (i + j - nf)))"
  using assms(1-3,6)
proof (induction m arbitrary: s i j)
  case (Suc m)
  obtain s1 l where a: "alloc s KInt 8 8 = (s1, l)" by fastforce
  let ?s = "end_fixed nf i s1"
  have l: "l = (if i < nf then LRegs [TE_X i] else LMem (8 * (i - nf)))"
    using a Suc.prems(1-3) assms(4) by (auto simp: to_stack_def Let_def align_up_id split: if_splits)
  have s: "ngrn ?s = (if i + 1 < nf then i + 1 else 8)" "nsaa ?s = 8 * (i + 1 - nf)" "varargs ?s \<longleftrightarrow> nf \<le> i + 1"
    using a Suc.prems(1-3) assms(4,5) by (auto simp: to_stack_def Let_def align_up_id end_fixed_def split: if_splits)
  show ?case
  proof (cases j)
    case 0
    then show ?thesis using a l by (simp add: Let_def split: prod.splits)
  next
    case (Suc j')
    then show ?thesis using a Suc.IH [OF s, of j'] Suc.prems(4) by (auto simp: Let_def split: prod.splits)
  qed
qed simp

lemma xalloc_pointers:
  assumes "xg s = min i 6" "xv s = 0" "xoff s = 8 * (i - 6)" "\<forall>a \<in> set as. \<exists>c. a = ([c], 8, 8) \<and> is_int_class c"
  shows "(\<forall>j < length as. snd (xalloc_all s as) ! j = (if i + j < 6 then LRegs [xx_gprcnt2reg ! (i + j)] else LMem (8 * (i + j - 6))))
    \<and> xoff (fst (xalloc_all s as)) = 8 * (i + length as - 6)"
  using assms
proof (induction as arbitrary: s i)
  case (Cons a as)
  from Cons.prems(4) obtain c where c: "a = ([c], 8, 8)" "is_int_class c" by auto
  obtain s1 l where a: "xalloc s [c] 8 8 = (s1, l)" by fastforce
  have l: "l = (if i < 6 then LRegs [xx_gprcnt2reg ! i] else LMem (8 * (i - 6)))"
    using a c(2) Cons.prems(1-3) int_not_sse by (auto simp: xalloc_def Let_def align_up_id split: if_splits)
  have s: "xg s1 = min (i + 1) 6" "xv s1 = 0" "xoff s1 = 8 * (i + 1 - 6)"
    using a c(2) Cons.prems(1-3) int_not_sse by (auto simp: xalloc_def Let_def align_up_id split: if_splits)
  note IH = Cons.IH [OF s]
  have "snd (xalloc_all s (a # as)) ! j = (if i + j < 6 then LRegs [xx_gprcnt2reg ! (i + j)] else LMem (8 * (i + j - 6)))"
    if "j < length (a # as)" for j
    using that a c l IH Cons.prems(4) by (cases j) (auto simp: Let_def split: prod.splits)
  then show ?case using a c IH Cons.prems(4) by (auto simp: Let_def split: prod.splits)
qed simp

abbreviation stars :: "nat \<Rightarrow> string" where
  "stars m \<equiv> replicate (Suc m) (CHR ''*'') @ [NUL]"

lemma stars_encode: "stars m = encode_sig (Simple (CHR ''*''), None) (replicate m (Simple (CHR ''*''), None))"
  by (simp add: encode_sig_def encode_item_def map_replicate_const concat_replicate_trivial)

lemma stars_parse:
  assumes "m \<le> 64"
  shows "parse_signature junk (stars m) = Inr (ffi_type_pointer, replicate m ffi_type_pointer, 0)"
proof -
  let ?a = "(Simple (CHR ''*''), None) :: sig_item"
  have ok: "ok_item ?a" "type_of False (fst ?a) = ffi_type_pointer" "\<not> is_block (fst ?a)" by code_simp+
  have "blk_mask k 0 (replicate m ?a) = 0" for k using ok(3) by (induction m arbitrary: k) simp_all
  then show ?thesis
    using parse_signature_encode [of ?a "replicate m ?a" junk] ok assms
    unfolding stars_encode by (simp add: list_all_iff comp_def map_replicate_const)
qed

abbreviation ptrs :: "nat \<Rightarrow> ffi_type list" where
  "ptrs m \<equiv> replicate m ffi_type_pointer"

lemma ptrs_scalar: "list_all scalar_type (ptrs m)"
  using pointer_facts(1) by (simp add: list_all_iff)

definition aa_ptr_loc :: "nat \<Rightarrow> nat \<Rightarrow> loc" where
  "aa_ptr_loc nf i = (if i < nf then LRegs [TE_X i] else LMem (8 * (i - nf)))"

definition xx_ptr_loc :: "nat \<Rightarrow> loc" where
  "xx_ptr_loc i = (if i < 6 then LRegs [xx_gprcnt2reg ! i] else LMem (8 * (i - 6)))"

lemma aa_ptrs:
  assumes p: "my_aa_fi_prep_cif_core abi True nf m rtype (ptrs m) (Some (newFnInfo m)) = Inr (cif, Some ai)"
    and n: "0 < nf" "nf \<le> 8" "m \<le> 64" and i: "i < m"
  shows "one_place (fi_ainfo ai ! i) (aa_ptr_loc nf i)"
proof -
  have ty: "aa_arg_types cif = ptrs m"
    using p by (rule prep_core_Inr) (use aa_init_args_id xx_init_args_nonzero [OF scalars_init [OF ptrs_scalar]] in blast)
  have "sum_list (map arg_room (ptrs m)) < 2 ^ 32" using scalars_room [OF ptrs_scalar, of m] n(3) by simp
  with prep_core_refines [of abi True nf "ptrs m" rtype "newFnInfo m" cif ai] p ty pointer_facts(5)
  obtain ks st ls where pl: "all_placed (fi_ainfo ai) (ptrs m) ks ls"
    and al: "alloc_all init_nstate nf 0 (map2 abs_arg ks (ptrs m)) = (st, ls)"
    by (auto simp: newFnInfo_def)
  have "length ks = m" "\<And>j. j < m \<Longrightarrow> ks ! j = KInt"
    using pl pointer_facts(2) by (auto simp: all_placed_def)
  then have "ks = replicate m KInt" by (intro nth_equalityI) simp_all
  then have "map2 abs_arg ks (ptrs m) = replicate m (KInt, 8, 8)"
    using pointer_facts(3,4) by (simp add: zip_replicate abs_arg_def)
  with al have ls: "ls ! i = aa_ptr_loc nf i"
    using alloc_pointers [of init_nstate 0 nf i m] n i by (simp add: init_nstate_def aa_ptr_loc_def)
  have "placed (fi_ainfo ai ! i) ffi_type_pointer KInt (ls ! i)"
    using pl i pointer_facts(2) by (auto simp: all_placed_def)
  then show ?thesis
    unfolding ls by (rule placed_one) (auto simp: aa_ptr_loc_def split: if_splits)
qed

lemma classified_pointer: "eightbytes junk ffi_type_pointer cs \<Longrightarrow> \<exists>c. cs = [c] \<and> is_int_class c"
  by (auto simp: eightbytes_def mem_class_def classified_def ffi_basic_defs is_scalar_int_def do_integer_def set_class_def
      bindR_Inr_iff take_Suc_conv_app_nth split: if_splits)

lemma xx_ptrs:
  assumes p: "my_xx_fi_prep_cif junk abi m ffi_type_pointer (ptrs m) (Some (newFnInfo m)) = Inr (cif, Some xi)"
    and n: "m \<le> 64" and r: "\<not> te_is_indirect (fi_rinfo xi)"
  shows "(\<forall>i < m. one_place (fi_ainfo xi ! i) (xx_ptr_loc i)) \<and> unat (fi_bytes xi) = 8 * (m - 6)"
proof -
  have ty: "xx_arg_types cif = ptrs m" using p by (rule xx_prep_Inr) (use scalars_init [OF ptrs_scalar] in simp)
  have "sum_list (map arg_room (ptrs m)) + 8 < 2 ^ 32" using scalars_room [OF ptrs_scalar, of m] n by simp
  with xx_prep_refines [of junk abi "ptrs m" ffi_type_pointer "newFnInfo m" cif xi] p ty pointer_facts(5) newFnInfo_zero
  obtain g css st ls where pl: "xall_placed junk (fi_ainfo xi) (ptrs m) css ls"
    and al: "xalloc_all \<lparr>xg = g, xv = 0, xoff = 0\<rparr> (map2 xabs_arg css (ptrs m)) = (st, ls)"
    and bytes: "unat (fi_bytes xi) = align_up (xoff st) 8" and g: "g = 0"
    using r by (auto simp: le_Suc_eq)
  have c: "\<exists>c. css ! j = [c] \<and> is_int_class c" if "j < m" for j
    using pl that classified_pointer by (auto simp: xall_placed_def)
  have len: "length css = m" using pl by (simp add: xall_placed_def)
  have "\<forall>a \<in> set (map2 xabs_arg css (ptrs m)). \<exists>c. a = ([c], 8, 8) \<and> is_int_class c"
    using c len pointer_facts(3,4) by (auto simp: set_zip xabs_arg_def)
  from xalloc_pointers [OF _ _ _ this, of "\<lparr>xg = g, xv = 0, xoff = 0\<rparr>" 0] al g len
  have ls: "\<And>i. i < m \<Longrightarrow> ls ! i = xx_ptr_loc i" "xoff st = 8 * (m - 6)" by (auto simp: xx_ptr_loc_def)
  have "one_place (fi_ainfo xi ! i) (ls ! i)" if "i < m" for i
    by (rule placed_one [of _ ffi_type_pointer KInt]) (use pl that ls in \<open>auto simp: xall_placed_def xx_ptr_loc_def split: if_splits\<close>)
  then show ?thesis using ls bytes by (simp add: align_up_id)
qed

lemma stars_handle:
  assumes m: "m \<le> 64" and nf: "0 < unat nfixed" "unat nfixed \<le> 8" "unat nfixed \<le> m" and junk: "junk \<noteq> []"
  obtains aa xx where "handle junk (stars m) True True nfixed = Inr (True, Some aa, Some xx)"
    "entry_ok aa xx" "fi_nargs xx = m" "\<And>i. i < m \<Longrightarrow> size_of (fi_ainfo xx ! i) = 8"
    "\<And>i. i < m \<Longrightarrow> one_place (fi_ainfo aa ! i) (aa_ptr_loc (unat nfixed) i)"
    "\<And>i. i < m \<Longrightarrow> one_place (fi_ainfo xx ! i) (xx_ptr_loc i)" "unat (fi_bytes xx) = 8 * (m - 6)"
    "result_regs ffi_type_pointer (fi_rinfo aa) (fi_rinfo xx)"
proof -
  note sig = stars_parse [OF m, of junk]
  have pl: "plain_type ffi_type_pointer" using pointer_facts(1) by simp
  have nfx: "nfixed = InvalidValue \<or> 1 \<le> unat nfixed \<and> unat nfixed \<le> length (ptrs m)" using nf by simp
  from handle_scalars [OF sig _ _ pl ptrs_scalar _ junk nfx] m obtain aa xx where
    h: "handle junk (stars m) True True nfixed = Inr (True, Some aa, Some xx)" by (auto simp: NUL_def)
  have res: "result_regs ffi_type_pointer (fi_rinfo aa) (fi_rinfo xx)" by (rule handle_result [OF h sig ptrs_scalar pl junk])
  from h sig obtain rtype' atypes' where x: "handle_xx junk ffi_type_pointer (ptrs m) 0 = Inr (Some (xx, rtype', atypes'))"
    and a: "handle_aa rtype' atypes' 0 nfixed = Inr (Some aa)"
    by (auto elim!: handle_both)
  from handle_xx_Some [OF x, unfolded length_replicate] obtain xcif xi where xp: "my_xx_fi_prep_cif junk XX_FI_UNIX64 m ffi_type_pointer (ptrs m) (Some (newFnInfo m)) = Inr (xcif, Some xi)"
    and xm: "mark_blocks 0 xi = Inr xx" and "atypes' = xx_arg_types xcif"
    by metis
  moreover from xp have "xx_arg_types xcif = ptrs m" by (rule xx_prep_Inr) (use scalars_init [OF ptrs_scalar] in simp)
  ultimately have at: "atypes' = ptrs m" by simp
  have "nfixed \<noteq> InvalidValue" using nf(2) by (auto simp: InvalidValue_def unsigned_minus_1_eq_mask mask_eq_exp_minus_1)
  with a at obtain acif ai where ap: "my_aa_fi_prep_cif_core AA_FI_SYSV True (unat nfixed) m rtype' (ptrs m) (Some (newFnInfo m)) = Inr (acif, Some ai)"
    and am: "mark_blocks 0 ai = Inr aa"
    by (auto simp: handle_aa_def Let_def ffi_status_Some my_aa_fi_prep_cif_var_def split: option.splits)
  have ind: "\<not> te_is_indirect (fi_rinfo xi)" using res mark_blocks_frame(1) [OF xm] by (simp add: result_regs_def)
  note xs = xx_ptrs [OF xp m ind]
  have len: "length (fi_ainfo xi) = m" "length (fi_ainfo ai) = m"
    using blocks_Some(1) [OF xx_prep_blocks [OF xp, unfolded blocks_newFnInfo]]
      blocks_Some(1) [OF aa_prep_blocks [OF ap, unfolded blocks_newFnInfo]] by simp_all
  note ok = scalar_entry_ok [OF h sig ptrs_scalar]
  show thesis
  proof
    show "one_place (fi_ainfo aa ! i) (aa_ptr_loc (unat nfixed) i)" if "i < m" for i
      using aa_ptrs [OF ap nf(1,2) m that] mark_blocks_nth(3) [OF am, of i] len that by simp
    show "one_place (fi_ainfo xx ! i) (xx_ptr_loc i)" if "i < m" for i
      using xs mark_blocks_nth(3) [OF xm, of i] len that by simp
    show "size_of (fi_ainfo xx ! i) = 8" if "i < m" for i
      using ok(4) [of i] that pointer_facts(3) by simp
    show "unat (fi_bytes xx) = 8 * (m - 6)" using xs mark_blocks_frame(2) [OF xm] by simp
  qed (use h ok(1,3) res in simp_all)
qed

text \<open>Argument \<open>i\<close> of a call of pointers, as the x86-64 code finds it and as the guest left it.\<close>

definition x64_arg :: "x64_in \<Rightarrow> nat \<Rightarrow> u64" where
  "x64_arg inp i =
     (if i < 6 then in_gpr inp ! i
      else load (\<lambda>a. case a of AB k \<Rightarrow> in_stack inp ! k | _ \<Rightarrow> 0) (AB (8 * (i - 6))) 8)"

definition guest_arg :: "mstate \<Rightarrow> u64 \<Rightarrow> nat \<Rightarrow> nat \<Rightarrow> u64" where
  "guest_arg st sp nf i = (if i < nf then xreg st i else load st (MB (sp + of_nat (8 * (i - nf)))) 8)"

lemma aa_ptr_byte:
  assumes "one_place x (aa_ptr_loc nf i)" "k < 8" "nf \<le> 8"
  shows "st (aa_byte st sp x k) = get_byte (guest_arg st sp nf i) k"
proof (cases "i < nf")
  case True
  then have r: "\<not> te_is_mem x" "\<not> te_is_indirect x" "reg_of x 0 = TE_X i"
    using assms(1) by (simp_all add: one_place_def aa_ptr_loc_def)
  have "i < 8" using True assms(3) by simp
  then have "a64_place (TE_X i) = XB (8 * i)" "\<not> vec_reg (TE_X i)"
    by (auto simp: a64_place_def a64_enum_2_ptr_def vec_reg_def te_reg_defs)
  then show ?thesis
    using r True assms(2) get_byte_load [of k 8 st "XB (8 * i)"] by (simp add: aa_byte_def piece_def guest_arg_def xreg_def)
next
  case False
  then have r: "te_is_mem x" "\<not> te_is_indirect x" "unat (te_get_mem x) = 8 * (i - nf)"
    using assms(1) by (simp_all add: one_place_def aa_ptr_loc_def)
  have "ucast (te_get_mem x) = (of_nat (8 * (i - nf)) :: u64)"
    unfolding r(3) [symmetric] by (simp add: unsigned_of_nat)
  then show ?thesis
    using r False assms(2) get_byte_load [of k 8 st "MB (sp + of_nat (8 * (i - nf)))"]
    by (simp add: aa_byte_def guest_arg_def)
qed

lemma xx_ptr_byte:
  assumes "one_place x (xx_ptr_loc i)" "k < 8"
  shows "xx_byte x k = AB ((if i < 6 then 8 * i else 184 + 8 * (i - 6)) + k)"
proof (cases "i < 6")
  case True
  then have r: "\<not> te_is_mem x" "reg_of x 0 = xx_gprcnt2reg ! i"
    using assms(1) by (simp_all add: one_place_def xx_ptr_loc_def)
  have "\<forall>i<6. slot (xx_gprcnt2reg ! i) = 8 * i" by code_simp
  then show ?thesis using r True assms(2) by (simp add: xx_byte_def)
next
  case False
  then show ?thesis
    using assms by (simp add: xx_byte_def one_place_def xx_ptr_loc_def args_layout)
qed

lemma trampoline_args:
  assumes "\<And>i k. i < m \<Longrightarrow> k < 8 \<Longrightarrow> st (AB ((if i < 6 then 8 * i else 184 + 8 * (i - 6)) + k)) = get_byte (v i) k"
    and "8 * (m - 6) \<le> unat sz" "i < m"
  shows "x64_arg (trampoline_in sz st) i = v i"
proof (cases "i < 6")
  case True
  have "load st (AB (8 * i)) 8 = v i" by (rule load_bytes) (use assms(1) [OF assms(3)] True in simp)
  moreover have "[0, 8, 0x10, 0x18, 0x20, 0x28] ! i = 8 * i"
    using True by (auto simp: less_Suc_eq numeral_eq_Suc)
  moreover have "in_gpr (trampoline_in sz st) ! i = load st (AB ([0, 8, 0x10, 0x18, 0x20, 0x28] ! i)) 8"
    using True by (simp add: trampoline_in_def Let_def nth_map del: list.map)
  ultimately show ?thesis using True by (simp add: x64_arg_def)
next
  case False
  let ?bs = "in_stack (trampoline_in sz st)"
  have "?bs ! (8 * (i - 6) + k) = get_byte (v i) k" if "k < 8" for k
  proof -
    have "8 * (i - 6) + k < unat sz" using assms(2,3) that False by linarith
    then show ?thesis using assms(1) [OF assms(3) that] False by (simp add: trampoline_in_def Let_def add.assoc)
  qed
  then show ?thesis using False by (auto simp: x64_arg_def intro: load_bytes)
qed

text \<open>A call of the x86-64 code at \<open>pc\<close> with the arguments \<open>args\<close>.\<close>

definition calls_with :: "host \<Rightarrow> cpu \<Rightarrow> nat \<Rightarrow> (nat \<Rightarrow> u64) \<Rightarrow> cpu result \<Rightarrow> bool" where
  "calls_with h env m args call \<longleftrightarrow>
     (\<exists>bytes st1. (\<forall>i<m. x64_arg (trampoline_in (ALIGN2POW bytes 16) st1) i = args i)
        \<and> calls_in h env (cpu_pc env) bytes st1 call)"

lemma star_call:
  assumes m: "m \<le> 64" and nf: "0 < unat nfixed" "unat nfixed \<le> 8" "unat nfixed \<le> m" and junk: "junk \<noteq> []"
  shows "\<exists>info. parsed_or_abort (handle junk (stars m) True True nfixed) = Inr info
    \<and> calls_with h env m (guest_arg (cpu_st env) (xreg (cpu_st env) REG_SP_NUM) (unat nfixed)) (ellipsis_call h env info)"
proof -
  let ?st = "cpu_st env" let ?sp = "xreg ?st REG_SP_NUM"
  obtain aa xx where h: "handle junk (stars m) True True nfixed = Inr (True, Some aa, Some xx)"
    "entry_ok aa xx" "fi_nargs xx = m" "\<And>i. i < m \<Longrightarrow> size_of (fi_ainfo xx ! i) = 8"
    "\<And>i. i < m \<Longrightarrow> one_place (fi_ainfo aa ! i) (aa_ptr_loc (unat nfixed) i)"
    "\<And>i. i < m \<Longrightarrow> one_place (fi_ainfo xx ! i) (xx_ptr_loc i)" "unat (fi_bytes xx) = 8 * (m - 6)"
    "result_regs ffi_type_pointer (fi_rinfo aa) (fi_rinfo xx)"
    using stars_handle [OF m nf junk] by blast
  from entry_moves [OF h(2), of 0 ?sp ?st] obtain st1 where st1: "abi_dy_a2x_entry_trans_internal aa xx 0 ?sp ?st = Inr st1"
    "\<And>i k. i < m \<Longrightarrow> k < 8 \<Longrightarrow> st1 (xx_byte (fi_ainfo xx ! i) k) = ?st (aa_byte ?st ?sp (fi_ainfo aa ! i) k)"
    "\<And>a. not_AB a \<Longrightarrow> st1 a = ?st a"
    using h(3,4) by auto
  let ?sz = "ALIGN2POW (fi_bytes xx) 16"
  have sz: "8 * (m - 6) \<le> unat ?sz"
    using ALIGN2POW_16 [of "fi_bytes xx"] align_up_bounds(1) [of 16 "8 * (m - 6)"] h(7) m by simp
  have "x64_arg (trampoline_in ?sz st1) i = guest_arg ?st ?sp (unat nfixed) i" if "i < m" for i
  proof (rule trampoline_args [OF _ sz that])
    fix i k assume i: "i < m" "k < (8 :: nat)"
    show "st1 (AB ((if i < 6 then 8 * i else 184 + 8 * (i - 6)) + k)) = get_byte (guest_arg ?st ?sp (unat nfixed) i) k"
      using st1(2) [OF i] xx_ptr_byte [OF h(6) [OF i(1)] i(2)] aa_ptr_byte [OF h(5) [OF i(1)] i(2) nf(2), of ?st ?sp] by simp
  qed
  then have "calls_with h env m (guest_arg ?st ?sp (unat nfixed)) (ellipsis_call h env (aa, xx))"
    unfolding calls_with_def ellipsis_call_at using call_at_calls_in [OF h(8) st1(1,3), of h "cpu_pc env"] by blast
  moreover have "parsed_or_abort (handle junk (stars m) True True nfixed) = Inr (aa, xx)"
    using h(1) by (simp add: parsed_or_abort_def non_null_def)
  ultimately show ?thesis by blast
qed

section \<open>Nil-terminated lists\<close>

lemma count_to_nil_eq:
  assumes "\<And>j. j < k \<Longrightarrow> load st (MB (sp + of_nat (8 * j))) 8 \<noteq> 0" "load st (MB (sp + of_nat (8 * k))) 8 = 0" "k < n"
  shows "count_to_nil n st sp c = Inr (c + of_nat k)"
  using assms
proof (induction k arbitrary: n sp c)
  case 0
  then show ?case by (cases n) simp_all
next
  case (Suc k)
  then obtain n' where n: "n = Suc n'" by (cases n) simp_all
  have "count_to_nil n' st (sp + 8) (c + 1) = Inr (c + 1 + of_nat k)"
  proof (rule Suc.IH)
    show "load st (MB (sp + 8 + of_nat (8 * j))) 8 \<noteq> 0" if "j < k" for j
      using Suc.prems(1) [of "Suc j"] that by (simp add: add.assoc)
    show "load st (MB (sp + 8 + of_nat (8 * k))) 8 = 0" using Suc.prems(2) by (simp add: add.assoc)
  qed (use Suc.prems(3) n in simp)
  then show ?case using Suc.prems(1) [of 0] n by (simp add: add.assoc)
qed

lemma nil_types:
  assumes "unat nfixed + k + 1 \<le> 64"
  shows "star_types (1 + nfixed + (1 + of_nat k)) = Inr (stars (unat nfixed + k + 1))"
proof -
  let ?n = "unat nfixed + k + 2"
  have u: "unat (of_nat j :: u32) = j" if "j < 100" for j
    using that by (simp add: unsigned_of_nat take_bit_nat_eq_self)
  have e: "1 + nfixed + (1 + of_nat k) = (of_nat ?n :: u32)" by simp
  have "(of_nat ?n :: u32) + 1 = of_nat (Suc ?n)" by simp
  then have "unat ((of_nat ?n :: u32) + 1) = Suc ?n" using u [of "Suc ?n"] assms by simp
  then have "(of_nat ?n :: u32) + 1 \<noteq> 0" by auto
  then show ?thesis unfolding e using u [of ?n] assms by (simp add: star_types_def)
qed

lemma objc_nil_terminated: "my_objc_nil_terminated_vari n junk h env nf = my_c_nil_terminated_vari n junk h env (nf + 2)"
  by (simp add: my_objc_nil_terminated_vari_def my_c_nil_terminated_vari_def Let_def)

text \<open>C23. Functions with a nil-terminated list of pointers are called with exactly the arguments of
  the guest: with \<open>nfixed\<close> fixed arguments in the first registers and \<open>k\<close> words other than nil and
  then nil on the guest's stack, the handler calls the x86-64 code at \<open>pc\<close> once, with guest memory
  and registers unchanged, where argument \<open>i\<close>, in the \<open>i\<close>-th integer register or at its place
  on the stack, is argument \<open>i\<close> of the guest, nil included; afterwards \<open>X0\<close> has the value
  returned in \<open>rax\<close>, and everything else is as the called code left it.  A method has two
  more fixed arguments than it is registered with.\<close>

theorem nil_terminated_call:
  assumes "\<And>j. j < k \<Longrightarrow> load (cpu_st env) (MB (sp + of_nat (8 * j))) 8 \<noteq> 0"
    and "load (cpu_st env) (MB (sp + of_nat (8 * k))) 8 = 0"
    and "sp = xreg (cpu_st env) REG_SP_NUM" "0 < unat nfixed" "unat nfixed \<le> 8" "unat nfixed + k + 1 \<le> 64"
    and "junk \<noteq> []" "k < n"
    and "call = my_c_nil_terminated_vari n junk h env nfixed \<or> call = my_objc_nil_terminated_vari n junk h env (nfixed - 2)"
  shows "calls_with h env (unat nfixed + k + 1) (guest_arg (cpu_st env) sp (unat nfixed)) call"
proof -
  let ?m = "unat nfixed + k + 1"
  have le_m: "unat nfixed \<le> ?m" by simp
  from star_call [OF assms(6,4,5) le_m assms(7)] obtain info where i: "parsed_or_abort (handle junk (stars ?m) True True nfixed) = Inr info"
    "calls_with h env ?m (guest_arg (cpu_st env) (xreg (cpu_st env) REG_SP_NUM) (unat nfixed)) (ellipsis_call h env info)"
    by blast
  have "count_to_nil n (cpu_st env) sp 1 = Inr (1 + of_nat k)" by (rule count_to_nil_eq [OF assms(1,2,8)])
  then have "my_c_nil_terminated_vari n junk h env nfixed = ellipsis_call h env info"
    using nil_types [OF assms(6)] i(1) assms(3)
    by (simp add: my_c_nil_terminated_vari_def get_vari_fn_info_from_types_def)
  then have "call = ellipsis_call h env info" using assms(9) by (auto simp: objc_nil_terminated)
  then show ?thesis using i(2) assms(3) by simp
qed

section \<open>Witness\<close>

abbreviation nil_host :: host where
  "nil_host \<equiv> \<lparr>x64 = \<lambda>pc inp st. Inr (\<lparr>out_rax = x64_arg inp 2, out_rdx = 0, out_xmm0 = (0, 0), out_xmm1 = (0, 0)\<rparr>, st),
     UTF8String = \<lambda>_ _. None, CFStringGetLength = \<lambda>_ _. 0, CFStringGetMaximumSizeForEncoding = id,
     CFStringGetCString = \<lambda>_ _ _. None, sym = \<lambda>_. 0\<rparr>"

abbreviation nil_cpu :: cpu where
  "nil_cpu \<equiv> \<lparr>cpu_pc = 4096, cpu_st = (\<lambda>a. if a = XB 249 then 0x20 else if a = MB 0x2000 then 7 else 0)\<rparr>"

theorem nil_terminated_call_witness:
  "\<exists>env'. my_c_nil_terminated_vari 2 wit_junk nil_host nil_cpu 2 = Inr env' \<and> xreg (cpu_st env') 0 = 7"
proof -
  let ?st = "cpu_st nil_cpu"
  have sp: "xreg ?st REG_SP_NUM = 0x2000" by code_simp
  have w: "load ?st (MB (0x2000 + of_nat (8 * 0))) 8 \<noteq> 0" "load ?st (MB (0x2000 + of_nat (8 * 1))) 8 = 0"
    "guest_arg ?st 0x2000 2 2 = 7" by code_simp+
  have "calls_with nil_host nil_cpu (unat (2 :: u32) + 1 + 1) (guest_arg ?st 0x2000 (unat (2 :: u32)))
      (my_c_nil_terminated_vari 2 wit_junk nil_host nil_cpu 2)"
    by (rule nil_terminated_call [where n = 2 and junk = wit_junk]) (use sp w in auto)
  then obtain bytes st1 where
    a: "\<forall>i < 4. x64_arg (trampoline_in (ALIGN2POW bytes 16) st1) i = guest_arg ?st 0x2000 2 i"
    and c: "calls_in nil_host nil_cpu 4096 bytes st1 (my_c_nil_terminated_vari 2 wit_junk nil_host nil_cpu 2)"
    by (auto simp: calls_with_def)
  from a have "x64_arg (trampoline_in (ALIGN2POW bytes 16) st1) 2 = 7" using w(3) by simp
  then show ?thesis using c by (auto simp: calls_in_def)
qed

end
