(* ===== verification/Handlers_Table.thy ===== *)
theory Handlers_Table
  imports Handlers_Nil
begin

text \<open>
  The registration of the handlers, \<open>register_important_funcs\<close> in
  \<open>accel/tcg/translate-all.c\<close>, and the functions of \<open>tcg/abibridge/AArch64tox64.inc.c\<close> that make
  the registered stubs.
\<close>

section \<open>Stubs\<close>

datatype stub =
  Printf_family u32 | Scanf_family u32 | Nslog | Nslogv | Cfstring u32
| Vprintf_family u32 | Vscanf_family u32 | Vcfstring u32
| C_nil_vari u32 | C_nil_valist u32 | Objc_nil_vari u32
| Objc_types_vari u32 u32 | Objc_fmt_vari u32 u32 | Objc_fmt_valist u32 u32
| Env_stub string | Spec_x64 string | Lazy_binder

text \<open>
  What a stub does.  The handlers behind the stubs made by \<open>spec_x64func_code_gen\<close>, the lazy
  binder and four of the handlers that take the environment alone are the parameter \<open>other\<close>.
\<close>

definition run_stub :: "nat \<Rightarrow> x86_64_reg_class list \<Rightarrow> host \<Rightarrow> (stub \<Rightarrow> cpu \<Rightarrow> cpu result) \<Rightarrow> stub \<Rightarrow> cpu \<Rightarrow> cpu result" where
  "run_stub n junk h other s =
     (case s of
        Printf_family idxOfFmt \<Rightarrow> tcg_target_Q_code_gen (my_printf_family n junk h) (ucast idxOfFmt)
      | Scanf_family idxOfFmt \<Rightarrow> tcg_target_Q_code_gen (my_scanf_family n junk h) (ucast idxOfFmt)
      | Nslog \<Rightarrow> tcg_target_v_code_gen (my_nslog n junk h)
      | Nslogv \<Rightarrow> tcg_target_v_code_gen (my_nslogv n junk h)
      | Cfstring idxOfFmt \<Rightarrow> tcg_target_Q_code_gen (my_cfstring_family n junk h) (ucast idxOfFmt)
      | Vprintf_family idxOfValist \<Rightarrow> tcg_target_Q_code_gen (my_vprintf_family n junk h) (ucast idxOfValist)
      | Vscanf_family idxOfValist \<Rightarrow> tcg_target_Q_code_gen (my_vscanf_family n junk h) (ucast idxOfValist)
      | Vcfstring idxOfValist \<Rightarrow> tcg_target_Q_code_gen (my_vcfstring_family n junk h) (ucast idxOfValist)
      | C_nil_vari nfixed \<Rightarrow> tcg_target_Q_code_gen (my_c_nil_terminated_vari n junk h) (ucast nfixed)
      | C_nil_valist idxOfValist \<Rightarrow> tcg_target_Q_code_gen (my_c_nil_terminated_valist n junk h) (ucast idxOfValist)
      | Objc_nil_vari nfixed \<Rightarrow> tcg_target_Q_code_gen (my_objc_nil_terminated_vari n junk h) (ucast nfixed)
      | Objc_types_vari idxOfTy nfixed \<Rightarrow>
          tcg_target_QQ_code_gen (my_objc_types_vari n junk h) (ucast idxOfTy) (ucast nfixed)
      | Objc_fmt_vari idxOfFmt nfixed \<Rightarrow>
          tcg_target_QQ_code_gen (my_objc_fmt_str_vari n junk h) (ucast idxOfFmt) (ucast nfixed)
      | Objc_fmt_valist idxOfFmt idxOfValist \<Rightarrow>
          tcg_target_QQ_code_gen (my_objc_fmt_str_valist n junk h) (ucast idxOfFmt) (ucast idxOfValist)
      | Env_stub f \<Rightarrow>
          tcg_target_v_code_gen
            (if f = ''my_fcntl'' then my_fcntl junk h else if f = ''my_ioctl'' then my_ioctl junk h
             else if f = ''my_open'' then my_open junk h else if f = ''my_sem_open'' then my_sem_open junk h
             else other s)
      | _ \<Rightarrow> other s)"

section \<open>The table\<close>

text \<open>
  In the order of the registrations.  Functions that a getter returns stand under their own
  names, methods under the names of the functions that return their implementations.
\<close>

definition register_important_funcs :: "(string \<times> stub) list" where
  "register_important_funcs =
     [(''objc_msgSend'', Spec_x64 ''my_objc_msgSend''),
      (''objc_msgSendSuper'', Spec_x64 ''my_objc_msgSendSuper''),
      (''objc_msgSendSuper2'', Spec_x64 ''my_objc_msgSendSuper2''),
      (''objc_msgForward'', Spec_x64 ''my_objc_msgForward''),
      (''stub_binding_helper'', Lazy_binder),
      (''dyld_stub_binder'', Lazy_binder),
      (''method_setImplementation'', Spec_x64 ''my_method_setImplementation''),
      (''MTLCreateSystemDefaultDevice'', Env_stub ''my_MTLCreateSystemDefaultDevice''),
      (''malloc_printf'', Printf_family 0),
      (''printf'', Printf_family 0),
      (''asprintf'', Printf_family 1),
      (''dprintf'', Printf_family 1),
      (''fprintf'', Printf_family 1),
      (''sprintf'', Printf_family 1),
      (''printf_l'', Printf_family 1),
      (''snprintf'', Printf_family 2),
      (''asprintf_l'', Printf_family 2),
      (''fprintf_l'', Printf_family 2),
      (''sprintf_l'', Printf_family 2),
      (''asl_log'', Printf_family 3),
      (''_os_log_internal'', Printf_family 3),
      (''__sprintf_chk'', Printf_family 3),
      (''snprintf_l'', Printf_family 3),
      (''__snprintf_chk'', Printf_family 4),
      (''vprintf'', Vprintf_family 1),
      (''vasprintf'', Vprintf_family 2),
      (''vdprintf'', Vprintf_family 2),
      (''vfprintf'', Vprintf_family 2),
      (''vsprintf'', Vprintf_family 2),
      (''vprintf_l'', Vprintf_family 2),
      (''vsnprintf'', Vprintf_family 3),
      (''vasprintf_l'', Vprintf_family 3),
      (''vfprintf_l'', Vprintf_family 3),
      (''vsprintf_l'', Vprintf_family 3),
      (''vsnprintf_l'', Vprintf_family 4),
      (''__vsprintf_chk'', Vprintf_family 4),
      (''__vsnprintf_chk'', Vprintf_family 5),
      (''scanf'', Scanf_family 0),
      (''fscanf'', Scanf_family 1),
      (''sscanf'', Scanf_family 1),
      (''vscanf'', Vscanf_family 1),
      (''__svfscanf'', Vscanf_family 2),
      (''vfscanf'', Vscanf_family 2),
      (''vsscanf'', Vscanf_family 2),
      (''NSLog'', Nslog),
      (''NSLogv'', Nslogv),
      (''CFStringCreateWithFormat'', Cfstring 2),
      (''CFStringAppendFormat'', Cfstring 2),
      (''CFStringCreateWithFormatAndArguments'', Vcfstring 3),
      (''CFStringAppendFormatAndArguments'', Vcfstring 3),
      (''execl'', C_nil_vari 2),
      (''execlp'', C_nil_vari 2),
      (''CGColorConversionInfoCreateFromList'', C_nil_vari 4),
      (''CGColorConversionInfoCreateFromListWithArguments'', C_nil_valist 4),
      (''AudioUnitSetProperty'', Env_stub ''my_AudioUnitSetProperty''),
      (''_Block_object_assign'', Env_stub ''my__Block_object_assign''),
      (''class_replaceMethod'', Env_stub ''my_class_replaceMethod''),
      (''fcntl'', Env_stub ''my_fcntl''),
      (''ioctl'', Env_stub ''my_ioctl''),
      (''open'', Env_stub ''my_open''),
      (''sem_open'', Env_stub ''my_sem_open''),
      (''sigsetjmp'', Spec_x64 ''call_arm_sigsetjmp''),
      (''setjmp'', Spec_x64 ''call_arm_setjmp''),
      (''_setjmp'', Spec_x64 ''call__arm_setjmp''),
      (''siglongjmp'', Spec_x64 ''call_arm_siglongjmp''),
      (''longjmp'', Spec_x64 ''call_arm_longjmp''),
      (''_longjmp'', Spec_x64 ''call__arm_longjmp''),
      (''dlopen'', Spec_x64 ''call_dlopen''),
      (''dlsym'', Spec_x64 ''call_dlsym''),
      (''sigaction'', Spec_x64 ''call_sigaction''),
      (''signal'', Spec_x64 ''call_signal''),
      (''sigaltstack'', Spec_x64 ''call_sigaltstack''),
      (''siginterrupt'', Spec_x64 ''call_siginterrupt''),
      (''CIFilter_apply'', Objc_nil_vari 1),
      (''MPSStateResourceList_resourceListWithBufferSizes'', Objc_nil_vari 1),
      (''MPSStateResourceList_resourceListWithTextureDescriptors'', Objc_nil_vari 1),
      (''NSArray_arrayWithObjects'', Objc_nil_vari 1),
      (''NSArray_initWithObjects'', Objc_nil_vari 1),
      (''NSDictionary_dictionaryWithObjectsAndKeys'', Objc_nil_vari 1),
      (''NSDictionary_initWithObjectsAndKeys'', Objc_nil_vari 1),
      (''__NSDictionaryI_dictionaryWithObjectsAndKeys'', Objc_nil_vari 1),
      (''__NSDictionaryI_initWithObjectsAndKeys'', Objc_nil_vari 1),
      (''NSOrderedSet_initWithObjects'', Objc_nil_vari 1),
      (''NSOrderedSet_orderedSetWithObjects'', Objc_nil_vari 1),
      (''NSSet_initWithObjects'', Objc_nil_vari 1),
      (''NSSet_setWithObjects'', Objc_nil_vari 1),
      (''UIAppearance_appearanceWhenContainedIn'', Objc_nil_vari 1),
      (''CIFilter_filterWithName_keysAndValues'', Objc_nil_vari 2),
      (''CISampler_initWithImage_keysAndValues'', Objc_nil_vari 2),
      (''CISampler_samplerWithImage_keysAndValues'', Objc_nil_vari 2),
      (''MPSNDArrayDescriptor_descriptorWithDataType_dimensionSizes'', Objc_nil_vari 2),
      (''UIAppearance_appearanceForTraitCollection_whenContainedIn'', Objc_nil_vari 2),
      (''UIActionSheet_initWithTitle_delegate_cancelButtonTitle_destructiveButtonTitle_otherButtonTitles'', Objc_nil_vari 5),
      (''UIAlertView_initWithTitle_message_delegate_cancelButtonTitle_otherButtonTitles'', Objc_nil_vari 5),
      (''NSExpression_expressionWithFormat'', Objc_fmt_vari 0 1),
      (''NSMutableString_appendFormat'', Objc_fmt_vari 0 1),
      (''NSPredicate_predicateWithFormat'', Objc_fmt_vari 0 1),
      (''NSString_deferredLocalizedIntentsStringWithFormat'', Objc_fmt_vari 0 1),
      (''NSString_initWithFormat'', Objc_fmt_vari 0 1),
      (''NSString_localizedStringWithFormat'', Objc_fmt_vari 0 1),
      (''NSString_stringByAppendingFormat'', Objc_fmt_vari 0 1),
      (''NSString_stringWithFormat'', Objc_fmt_vari 0 1),
      (''__NSCFString_appendFormat'', Objc_fmt_vari 0 1),
      (''NSString_deferredLocalizedIntentsStringWithFormat_fromTable'', Objc_fmt_vari 0 2),
      (''NSString_initWithFormat_locale'', Objc_fmt_vari 0 2),
      (''NSException_raise_format'', Objc_fmt_vari 1 2),
      (''NSAssertionHandler_handleFailureInFunction_file_lineNumber_description'', Objc_fmt_vari 3 4),
      (''NSAssertionHandler_handleFailureInMethod_object_file_lineNumber_description'', Objc_fmt_vari 4 5),
      (''NSExpression_expressionWithFormat_arguments'', Objc_fmt_valist 0 1),
      (''NSPredicate_predicateWithFormat_arguments'', Objc_fmt_valist 0 1),
      (''NSString_initWithFormat_arguments'', Objc_fmt_valist 0 1),
      (''NSString_initWithFormat_locale_arguments'', Objc_fmt_valist 0 2),
      (''NSString_deferredLocalizedIntentsStringWithFormat_fromTable_arguments'', Objc_fmt_valist 0 2),
      (''NSException_raise_format_arguments'', Objc_fmt_valist 1 2),
      (''NSCoder_decodeValuesOfObjCTypes'', Objc_types_vari 0 1),
      (''NSCoder_encodeValuesOfObjCTypes'', Objc_types_vari 0 1)]"

text \<open>A second registration of the same address keeps the first one's block.\<close>

definition stub_at :: "host \<Rightarrow> u64 \<Rightarrow> stub option" where
  "stub_at h pc = map_of (map (\<lambda>(f, s). (sym h f, s)) register_important_funcs) pc"

section \<open>The functions with a \<open>va_list\<close>\<close>

text \<open>
  The function that the handler of a registered \<open>va_list\<close> function calls instead, and the stub it
  should be registered with: one that takes its format and its fixed arguments at the same places.
\<close>

definition counterpart :: "string \<Rightarrow> stub \<Rightarrow> (string \<times> stub) option" where
  "counterpart f s =
     (case s of
        Vprintf_family i \<Rightarrow> map_option (\<lambda>e. (e, Printf_family (i - 1))) (map_of vprintf_replacements f)
      | Vscanf_family i \<Rightarrow> map_option (\<lambda>e. (e, Scanf_family (i - 1))) (map_of vscanf_replacements f)
      | Vcfstring i \<Rightarrow> map_option (\<lambda>e. (e, Cfstring (i - 1))) (map_of vcfstring_replacements f)
      | Objc_fmt_valist i v \<Rightarrow> map_option (\<lambda>e. (e, Objc_fmt_vari i v)) (map_of objc_valist_replacements f)
      | C_nil_valist i \<Rightarrow> map_option (\<lambda>e. (e, C_nil_vari i)) (map_of nil_valist_replacements f)
      | Nslogv \<Rightarrow> Some (''NSLog'', Nslog)
      | _ \<Rightarrow> None)"

definition takes_valist :: "stub \<Rightarrow> bool" where
  "takes_valist s =
     (case s of
        Vprintf_family i \<Rightarrow> True | Vscanf_family i \<Rightarrow> True | Vcfstring i \<Rightarrow> True
      | Objc_fmt_valist i v \<Rightarrow> True | C_nil_valist i \<Rightarrow> True | Nslogv \<Rightarrow> True | _ \<Rightarrow> False)"

text \<open>The register indices that the handlers assert or index with.\<close>

definition indices_ok :: "stub \<Rightarrow> bool" where
  "indices_ok s =
     (case s of
        Printf_family i \<Rightarrow> i \<le> 7 | Scanf_family i \<Rightarrow> i \<le> 7 | Cfstring i \<Rightarrow> i \<le> 7
      | Vprintf_family i \<Rightarrow> 1 \<le> i \<and> i \<le> 7 | Vscanf_family i \<Rightarrow> 1 \<le> i \<and> i \<le> 7 | Vcfstring i \<Rightarrow> 1 \<le> i \<and> i \<le> 7
      | C_nil_vari n \<Rightarrow> 1 \<le> n \<and> n \<le> 8 | C_nil_valist i \<Rightarrow> 1 \<le> i \<and> i \<le> 7 | Objc_nil_vari n \<Rightarrow> n + 2 \<le> 8
      | Objc_types_vari i n \<Rightarrow> i + 2 \<le> 7 \<and> i < n \<and> n + 2 \<le> 8 | Objc_fmt_vari i n \<Rightarrow> i + 2 \<le> 7 \<and> i < n \<and> n + 2 \<le> 8
      | Objc_fmt_valist i v \<Rightarrow> i + 2 \<le> 7 \<and> i < v \<and> v + 2 \<le> 7 | _ \<Rightarrow> True)"

text \<open>C24. Every registered stub passes its handler register indices within the argument registers, and
  every registered function with a \<open>va_list\<close>, except for the one with a nil-terminated list, has
  a counterpart with an ellipsis that is itself registered, with the format and the fixed arguments
  at the same places.\<close>

theorem registered_stubs_consistent:
  assumes "(f, s) \<in> set register_important_funcs"
  shows "indices_ok s
    \<and> (takes_valist s \<and> f \<noteq> ''CGColorConversionInfoCreateFromListWithArguments'' \<longrightarrow>
         (\<exists>e s'. counterpart f s = Some (e, s') \<and> (e, s') \<in> set register_important_funcs))"
proof -
  have i: "list_all (\<lambda>(f, s). indices_ok s) register_important_funcs" by code_simp
  have c: "list_all (\<lambda>(f, s). takes_valist s \<and> f \<noteq> ''CGColorConversionInfoCreateFromListWithArguments'' \<longrightarrow>
      (case counterpart f s of None \<Rightarrow> False | Some (e, s') \<Rightarrow> (e, s') \<in> set register_important_funcs))
    register_important_funcs" by code_simp
  show ?thesis using i c assms by (fastforce simp: list_all_iff split: option.splits)
qed

theorem registered_stubs_consistent_witness:
  "(''vsnprintf'', Vprintf_family 3) \<in> set register_important_funcs
   \<and> (\<exists>e s'. counterpart ''vsnprintf'' (Vprintf_family 3) = Some (e, s') \<and> (e, s') \<in> set register_important_funcs)"
proof -
  have m: "(''vsnprintf'', Vprintf_family 3) \<in> set register_important_funcs" by (simp add: register_important_funcs_def)
  from registered_stubs_consistent [OF m] show ?thesis using m by (simp add: takes_valist_def)
qed

lemma sym_table_lookup:
  "inj_on (sym h) (insert f (fst ` set tbl)) \<Longrightarrow> map_of (sym_table h tbl) (sym h f) = map_option (sym h) (map_of tbl f)"
  by (induction tbl) (auto simp: sym_table_def inj_on_def)

text \<open>
  The exception: the handler of \<open>CGColorConversionInfoCreateFromListWithArguments\<close> compares \<open>pc\<close>
  with the address of the getter of that function, so it never gets to the call.
\<close>

theorem color_conversion_valist_aborts:
  assumes "sym h ''CGColorConversionInfoCreateFromListWithArguments_ptr'' \<noteq> sym h ''CGColorConversionInfoCreateFromListWithArguments''"
    and "cpu_pc env = sym h ''CGColorConversionInfoCreateFromListWithArguments''"
  shows "(''CGColorConversionInfoCreateFromListWithArguments'', C_nil_valist 4) \<in> set register_important_funcs
    \<and> (\<forall>env'. my_c_nil_terminated_valist n junk h env 4 \<noteq> Inr env')"
proof -
  have "replace_pc (sym_table h nil_valist_replacements) (cpu_pc env) = Inl Abort"
    using assms by (auto simp: replace_pc_def sym_table_def nil_valist_replacements_def)
  then show ?thesis
    by (auto simp: my_c_nil_terminated_valist_def valist_call_def bindR_Inr_iff register_important_funcs_def)
qed

section \<open>Return to the guest\<close>

lemma xreg_store: "xreg (store (XB (8 * r)) 8 v st) r = v"
proof -
  have "store (XB (8 * r)) 8 v st (addr_add (XB (8 * r)) i) = get_byte v i" if "i < 8" for i
    using that by (intro store_at) (simp_all add: not_MB_def)
  then show ?thesis unfolding xreg_def by (intro load_bytes) simp
qed

lemma returned:
  "bindR r (\<lambda>env'. Inr (update_pc_from_lr lr env')) = Inr e \<Longrightarrow> cpu_pc e = lr \<and> xreg (cpu_st e) 30 = lr"
  using xreg_store [of 30] by (auto simp: bindR_Inr_iff update_pc_from_lr_def set_xreg_def)



end
