(* ===== verification/Handlers_Fmt.thy ===== *)
theory Handlers_Fmt
  imports Handlers_Table
begin

text \<open>
  The handlers of functions with a \<open>printf\<close> format, from the format string to the call: the parser
  of formats, the preparation for both conventions, the translation of the arguments and of the
  result work together on every well-formed format.
\<close>

section \<open>From the format to the call\<close>

definition format_types :: "nat \<Rightarrow> piece list \<Rightarrow> ffi_type list" where
  "format_types nfixed ps = replicate nfixed ffi_type_pointer @ map code_type (concat (map codes ps))"

lemma code_type_scalar: "c \<in> set ''iId*c'' \<Longrightarrow> scalar_type (code_type c)"
proof -
  have "\<forall>c \<in> set ''iId*c''. scalar_type (code_type c)" by code_simp
  then show "c \<in> set ''iId*c'' \<Longrightarrow> scalar_type (code_type c)" by blast
qed

lemma format_types_scalar: "list_all scalar_type (format_types nf ps)"
proof -
  have "list_all scalar_type (map code_type (concat (map codes ps)))"
  proof -
    have "scalar_type (code_type c)" if "c \<in> set (codes p)" for c p
      using code_type_scalar [OF codes_simple [OF that]] .
    then show ?thesis by (simp only: list_all_iff set_map set_concat) blast
  qed
  then show ?thesis using pointer_facts(1) by (auto simp: format_types_def list_all_iff)
qed

lemma format_handle:
  assumes "list_all ok_piece ps" "convs ps < n" "0 < unat nfixed" "unat nfixed + length (concat (map codes ps)) \<le> 64" "junk \<noteq> []"
  shows "\<exists>aa xx. parse_fmtstr n junk (concat (map render ps) @ [NUL]) nfixed True True = Inr (True, Some aa, Some xx)
    \<and> (\<forall>h env sp pc. forwards h env sp pc (format_types (unat nfixed) ps) aa xx (call_at h env sp pc aa xx))"
proof -
  let ?types = "(replicate (Suc (unat nfixed)) (CHR ''*'') @ concat (map codes ps)) @ [NUL]"
  note sig = printf_signature [OF assms(4), of junk, folded format_types_def]
  have len: "length (format_types (unat nfixed) ps) \<le> 64" "unat nfixed \<le> length (format_types (unat nfixed) ps)"
    using assms(4) by (simp_all add: format_types_def)
  have "?types \<noteq> []" "hd ?types \<noteq> NUL" "plain_type ffi_type_pointer" using pointer_facts(1) by (simp_all add: NUL_def)
  note r = handle_scalars [OF sig this format_types_scalar len(1) assms(5), of nfixed]
  obtain aa xx where h: "handle junk ?types True True nfixed = Inr (True, Some aa, Some xx)"
    using r assms(3) len(2) by (simp only: One_nat_def Suc_le_eq simp_thms) blast
  have "parse_fmtstr n junk (concat (map render ps) @ [NUL]) nfixed True True = Inr (True, Some aa, Some xx)"
    using printf_types_pieces [OF assms(1,2,4)] h by (simp add: parse_fmtstr_def get_vari_fn_info_from_types_def)
  then show ?thesis using forwards_call [OF h sig format_types_scalar assms(5)] by blast
qed


section \<open>Witness\<close>

abbreviation fmt_host :: host where
  "fmt_host \<equiv> \<lparr>x64 = \<lambda>pc inp st. Inr (\<lparr>out_rax = 5, out_rdx = 0, out_xmm0 = (0, 0), out_xmm1 = (0, 0)\<rparr>, st),
     UTF8String = \<lambda>_ _. None, CFStringGetLength = \<lambda>_ _. 0, CFStringGetMaximumSizeForEncoding = id,
     CFStringGetCString = \<lambda>_ _ _. None, sym = \<lambda>_. 0\<rparr>"

abbreviation fmt_cpu :: cpu where
  "fmt_cpu \<equiv> \<lparr>cpu_pc = 4096, cpu_st = (\<lambda>a. if a = XB 1 then 0x10 else if a = MB 0x1000 then 37 else if a = MB 0x1001 then 100
     else if a = XB 249 then 0x20 else if a = MB 0x2000 then 42 else 0)\<rparr>"


end
