(* ===== verification/Proto_Db.thy ===== *)
theory Proto_Db
  imports Marshal_Exit
begin

text \<open>
  \<open>tcg/abibridge/jsonParser.c\<close>: the descriptions of known functions, read from a table that has
  one array of numbers per function name; with the lookup of \<open>tcg/abibridge/mpack/mpack.c\<close>.
\<close>

section \<open>The table\<close>

text \<open>
  The entries of the root map, with the values of their arrays, and whether the tree is in error.
  A lookup of a key that is missing or not unique puts the tree in error, and in error every
  lookup gives a nil node.
\<close>

record proto_db =
  db_entries :: "(string \<times> u64 list) list"
  db_error :: bool

definition mpack_node_map_cstr :: "proto_db \<Rightarrow> string \<Rightarrow> proto_db \<times> u64 list option" where
  "mpack_node_map_cstr db name =
     (if db_error db then (db, None)
      else (case filter (\<lambda>(k, _). k = name) (db_entries db) of
              [(_, row)] \<Rightarrow> (db, Some row)
            | _ \<Rightarrow> (db\<lparr>db_error := True\<rparr>, None)))"

section \<open>Reading a row\<close>

fun next_uint64_value :: "u64 list \<Rightarrow> (u64 \<times> u64 list) result" where
  "next_uint64_value [] = Inl Undefined"
| "next_uint64_value (v # fwd) = Inr (v, fwd)"

definition next_uint_value :: "u64 list \<Rightarrow> (u32 \<times> u64 list) result" where
  "next_uint_value fwd = bindR (next_uint64_value fwd) (\<lambda>(v, fwd'). Inr (ucast v, fwd'))"

definition read_info :: "u64 list \<Rightarrow> (ABIArgInfo \<times> u64 list) result" where
  "read_info fwd =
     bindR (next_uint64_value fwd) (\<lambda>(v, fwd1).
     bindR (next_uint_value fwd1) (\<lambda>(s, fwd2).
     bindR (next_uint_value fwd2) (\<lambda>(k, fwd3).
     Inr (\<lparr>ai_val = v, ai_size = s, ai_mask = k\<rparr>, fwd3))))"

fun read_infos :: "nat \<Rightarrow> u64 list \<Rightarrow> (ABIArgInfo list \<times> u64 list) result" where
  "read_infos 0 fwd = Inr ([], fwd)"
| "read_infos (Suc n) fwd =
     bindR (read_info fwd) (\<lambda>(x, fwd1). bindR (read_infos n fwd1) (\<lambda>(xs, fwd2). Inr (x # xs, fwd2)))"

fun read_uints :: "nat \<Rightarrow> u64 list \<Rightarrow> (u32 list \<times> u64 list) result" where
  "read_uints 0 fwd = Inr ([], fwd)"
| "read_uints (Suc n) fwd =
     bindR (next_uint_value fwd) (\<lambda>(x, fwd1). bindR (read_uints n fwd1) (\<lambda>(xs, fwd2). Inr (x # xs, fwd2)))"

text \<open>An offset list: its length, and its elements, behind which the terminator is stored.\<close>

definition STFP_LIST_TERMINATOR :: u32 where "STFP_LIST_TERMINATOR = 0xffffffff"

definition read_stfp :: "u64 list \<Rightarrow> (u32 list \<times> u64 list) result" where
  "read_stfp fwd =
     bindR (next_uint_value fwd) (\<lambda>(len, fwd1).
     if 1 + len = 0 then Inl Undefined
     else bindR (read_uints (unat len) fwd1) (\<lambda>(xs, fwd2). Inr (xs @ [STFP_LIST_TERMINATOR], fwd2)))"

fun read_arg_stfps :: "ABIArgInfo list \<Rightarrow> u64 list \<Rightarrow> (u32 list option list \<times> u64 list) result" where
  "read_arg_stfps [] fwd = Inr ([], fwd)"
| "read_arg_stfps (x # xs) fwd =
     bindR (if te_is_stfp x then bindR (read_stfp fwd) (\<lambda>(l, fwd1). Inr (Some l, fwd1)) else Inr (None, fwd)) (\<lambda>(l, fwd1).
     bindR (read_arg_stfps xs fwd1) (\<lambda>(ls, fwd2). Inr (l # ls, fwd2)))"

section \<open>Functions by name\<close>

text \<open>The two descriptions and the offset lists, which only the x86-64 one has.\<close>

record proto =
  pr_aa :: ABIFnInfo
  pr_xx :: ABIFnInfo
  pr_retStfp :: "u32 list option"
  pr_argStfp :: "u32 list option list option"

definition zero_proto :: proto where
  "zero_proto =
     (let z = \<lparr>fi_ainfo = [], fi_rinfo = zeroArgInfo, fi_nargs = 0, fi_bytes = 0, fi_ssecount = 0,
               fi_isCxxStructor = False, fi_variadic = False\<rparr>
      in \<lparr>pr_aa = z, pr_xx = z, pr_retStfp = None, pr_argStfp = None\<rparr>)"

definition read_common :: "u64 list \<Rightarrow> (proto \<times> u64 list) result" where
  "read_common row =
     bindR (read_info row) (\<lambda>(ra, f1).
     bindR (read_info f1) (\<lambda>(rx, f2).
     bindR (next_uint_value f2) (\<lambda>(nargs, f3).
     if push_bit 4 (ucast nargs :: u64) \<noteq> ucast (push_bit 4 nargs) then Inl Undefined
     else
       bindR (read_infos (unat nargs) f3) (\<lambda>(aas, f4).
       bindR (read_infos (unat nargs) f4) (\<lambda>(xxs, f5).
       bindR (next_uint_value f5) (\<lambda>(ab, f6).
       bindR (next_uint_value f6) (\<lambda>(xb, f7).
       bindR (next_uint_value f7) (\<lambda>(sse, f8).
       bindR (next_uint_value f8) (\<lambda>(cxx, f9).
       bindR (next_uint_value f9) (\<lambda>(var, f10).
       let c = (ucast cxx :: u8) \<noteq> 0; v = (ucast var :: u8) \<noteq> 0 in
       Inr (\<lparr>pr_aa = \<lparr>fi_ainfo = aas, fi_rinfo = ra, fi_nargs = unat nargs, fi_bytes = ab, fi_ssecount = 0,
                      fi_isCxxStructor = c, fi_variadic = v\<rparr>,
             pr_xx = \<lparr>fi_ainfo = xxs, fi_rinfo = rx, fi_nargs = unat nargs, fi_bytes = xb, fi_ssecount = unat sse,
                      fi_isCxxStructor = c, fi_variadic = v\<rparr>,
             pr_retStfp = None, pr_argStfp = None\<rparr>, f10)))))))))))"

definition read_proto :: "u64 list \<Rightarrow> (bool \<times> proto) result" where
  "read_proto row =
     bindR (read_common row) (\<lambda>(p, f).
     if fi_variadic (pr_aa p) then Inr (False, p)
     else
       bindR (if te_is_stfp (fi_rinfo (pr_xx p))
              then bindR (read_stfp f) (\<lambda>(l, f1). Inr (p\<lparr>pr_retStfp := Some l\<rparr>, f1))
              else Inr (p, f)) (\<lambda>(p1, f1).
       if f1 = [] then Inr (True, p1)
       else
         bindR (read_arg_stfps (fi_ainfo (pr_xx p1)) f1) (\<lambda>(ls, f2).
         bindR (assertR (f2 = [])) (\<lambda>_. Inr (True, p1\<lparr>pr_argStfp := Some ls\<rparr>)))))"

definition get_fn_info_from_name :: "proto_db \<Rightarrow> string \<Rightarrow> proto_db \<times> (bool \<times> proto) result" where
  "get_fn_info_from_name db name =
     (case mpack_node_map_cstr db name of
        (db', None) \<Rightarrow> (db', Inr (False, zero_proto))
      | (db', Some row) \<Rightarrow> (db', read_proto row))"

section \<open>The format of a row\<close>

definition info_row :: "ABIArgInfo \<Rightarrow> u64 list" where
  "info_row x = [ai_val x, ucast (ai_size x), ucast (ai_mask x)]"

definition stfp_row :: "u32 list \<Rightarrow> u64 list" where
  "stfp_row l = of_nat (length l - 1) # map ucast (butlast l)"

definition flag :: "bool \<Rightarrow> u64" where
  "flag b = (if b then 1 else 0)"

definition common_row :: "proto \<Rightarrow> u64 list" where
  "common_row p =
     info_row (fi_rinfo (pr_aa p)) @ info_row (fi_rinfo (pr_xx p)) @ [of_nat (fi_nargs (pr_aa p))]
     @ concat (map info_row (fi_ainfo (pr_aa p))) @ concat (map info_row (fi_ainfo (pr_xx p)))
     @ [ucast (fi_bytes (pr_aa p)), ucast (fi_bytes (pr_xx p)), of_nat (fi_ssecount (pr_xx p)),
        flag (fi_isCxxStructor (pr_aa p)), flag (fi_variadic (pr_aa p))]"

definition proto_row :: "proto \<Rightarrow> u64 list" where
  "proto_row p =
     common_row p
     @ (case pr_retStfp p of None \<Rightarrow> [] | Some l \<Rightarrow> stfp_row l)
     @ (case pr_argStfp p of None \<Rightarrow> [] | Some ls \<Rightarrow> concat (map (\<lambda>l. case l of None \<Rightarrow> [] | Some l \<Rightarrow> stfp_row l) ls))"

text \<open>
  What a row can describe: equal numbers of arguments, offset lists exactly where the masks of the
  x86-64 side say so, and no list at all for the arguments when no argument has one.
\<close>

definition ok_stfp :: "u32 list \<Rightarrow> bool" where
  "ok_stfp l \<longleftrightarrow> l \<noteq> [] \<and> last l = STFP_LIST_TERMINATOR \<and> length l < 2 ^ 16"

definition ok_common :: "proto \<Rightarrow> bool" where
  "ok_common p \<longleftrightarrow>
     fi_nargs (pr_aa p) = length (fi_ainfo (pr_aa p)) \<and> fi_nargs (pr_xx p) = length (fi_ainfo (pr_aa p))
     \<and> length (fi_ainfo (pr_xx p)) = length (fi_ainfo (pr_aa p)) \<and> length (fi_ainfo (pr_aa p)) < 2 ^ 16
     \<and> fi_ssecount (pr_aa p) = 0 \<and> fi_ssecount (pr_xx p) \<le> 8
     \<and> fi_isCxxStructor (pr_xx p) = fi_isCxxStructor (pr_aa p) \<and> fi_variadic (pr_xx p) = fi_variadic (pr_aa p)"

definition ok_proto :: "proto \<Rightarrow> bool" where
  "ok_proto p \<longleftrightarrow> ok_common p \<and> \<not> fi_variadic (pr_aa p)
     \<and> (case pr_retStfp p of None \<Rightarrow> \<not> te_is_stfp (fi_rinfo (pr_xx p)) | Some l \<Rightarrow> te_is_stfp (fi_rinfo (pr_xx p)) \<and> ok_stfp l)
     \<and> (case pr_argStfp p of
          None \<Rightarrow> \<not> list_ex te_is_stfp (fi_ainfo (pr_xx p))
        | Some ls \<Rightarrow> list_ex te_is_stfp (fi_ainfo (pr_xx p))
            \<and> list_all2 (\<lambda>x l. case l of None \<Rightarrow> \<not> te_is_stfp x | Some l \<Rightarrow> te_is_stfp x \<and> ok_stfp l) (fi_ainfo (pr_xx p)) ls)"

section \<open>Reading what was written\<close>

lemma ucast_ucast32: "ucast (ucast (x :: u32) :: u64) = x"
  by (rule bit_word_eqI) (simp add: bit_ucast_iff)

lemma ucast_of_nat32: "n < 2 ^ 16 \<Longrightarrow> ucast (of_nat n :: u64) = (of_nat n :: u32)"
  by (simp add: unsigned_of_nat take_bit_nat_eq_self)

lemma unat_of_nat32: "n < 2 ^ 16 \<Longrightarrow> unat (ucast (of_nat n :: u64) :: u32) = n"
  by (simp only: ucast_of_nat32) (simp add: unsigned_of_nat take_bit_nat_eq_self)

lemma no_truncation:
  assumes "n < 2 ^ 16"
  shows "push_bit 4 (ucast (ucast (of_nat n :: u64) :: u32) :: u64) = ucast (push_bit 4 (ucast (of_nat n :: u64) :: u32))"
proof -
  have "push_bit 4 (of_nat n :: u32) = of_nat (16 * n)" "push_bit 4 (of_nat n :: u64) = of_nat (16 * n)"
    by (simp_all add: push_bit_eq_mult)
  moreover have "ucast (of_nat (16 * n) :: u32) = (of_nat (16 * n) :: u64)" "ucast (of_nat n :: u32) = (of_nat n :: u64)"
    using assms by (simp_all only: unsigned_of_nat) (simp_all add: take_bit_nat_eq_self del: of_nat_mult)
  ultimately show ?thesis by (simp only: ucast_of_nat32 [OF assms])
qed

lemma read_info_row: "read_info (info_row x @ f) = Inr (x, f)"
  by (simp add: read_info_def info_row_def next_uint_value_def ucast_ucast32)

lemma read_infos_row: "read_infos (length xs) (concat (map info_row xs) @ f) = Inr (xs, f)"
  by (induction xs) (simp_all add: read_info_row)

lemma read_uints_row: "read_uints (length xs) (map ucast xs @ f) = Inr (xs, f)"
  by (induction xs) (simp_all add: next_uint_value_def ucast_ucast32)

lemma read_stfp_row:
  assumes "ok_stfp l"
  shows "read_stfp (stfp_row l @ f) = Inr (l, f)"
proof -
  have n: "length l - 1 < 2 ^ 16" and l: "butlast l @ [STFP_LIST_TERMINATOR] = l"
    using assms append_butlast_last_id [of l] by (auto simp: ok_stfp_def)
  have "1 + ucast (of_nat (length l - 1) :: u64) = (of_nat (length l) :: u32)"
    unfolding ucast_of_nat32 [OF n] using assms by (cases l) (simp_all add: ok_stfp_def)
  moreover have "unat (of_nat (length l) :: u32) = length l"
    using assms by (simp add: ok_stfp_def unsigned_of_nat take_bit_nat_eq_self)
  ultimately have "1 + ucast (of_nat (length l - 1) :: u64) \<noteq> (0 :: u32)"
    using assms by (auto simp: ok_stfp_def)
  then show ?thesis
    using read_uints_row [of "butlast l" f] unat_of_nat32 [OF n] l
    by (simp add: read_stfp_def stfp_row_def next_uint_value_def)
qed

lemma read_arg_stfps_row:
  assumes "list_all2 (\<lambda>x l. case l of None \<Rightarrow> \<not> te_is_stfp x | Some l \<Rightarrow> te_is_stfp x \<and> ok_stfp l) xs ls"
  shows "read_arg_stfps xs (concat (map (\<lambda>l. case l of None \<Rightarrow> [] | Some l \<Rightarrow> stfp_row l) ls) @ f) = Inr (ls, f)"
  using assms
  by (induction rule: list_all2_induct) (auto simp: read_stfp_row split: option.splits)

lemma read_common_row:
  assumes "ok_common p"
  shows "read_common (common_row p @ f) = Inr (p\<lparr>pr_retStfp := None, pr_argStfp := None\<rparr>, f)"
proof -
  let ?n = "length (fi_ainfo (pr_aa p))"
  have n: "?n < 2 ^ 16" "fi_ssecount (pr_xx p) < 2 ^ 16" using assms by (simp_all add: ok_common_def)
  have x: "read_infos ?n (concat (map info_row (fi_ainfo (pr_xx p))) @ g) = Inr (fi_ainfo (pr_xx p), g)" for g
    using read_infos_row [of "fi_ainfo (pr_xx p)" g] assms by (simp add: ok_common_def)
  have fl: "((ucast (ucast (flag b) :: u32) :: u8) \<noteq> 0) = b" for b by (simp add: flag_def)
  show ?thesis
    using assms
    unfolding read_common_def common_row_def append_assoc read_info_row bindR_simps prod.case
    by (simp add: next_uint_value_def no_truncation [OF n(1)] unat_of_nat32 [OF n(1)] unat_of_nat32 [OF n(2)]
        read_infos_row x ucast_ucast32 fl ok_common_def Let_def)
qed

lemma arg_rows_nonempty:
  assumes "list_all2 (\<lambda>x l. case l of None \<Rightarrow> \<not> te_is_stfp x | Some l \<Rightarrow> te_is_stfp x \<and> ok_stfp l) xs ls" "list_ex te_is_stfp xs"
  shows "\<exists>l \<in> set ls. (case l of None \<Rightarrow> [] | Some l \<Rightarrow> stfp_row l) \<noteq> []"
  using assms by (induction rule: list_all2_induct) (auto simp: stfp_row_def split: option.splits)

text \<open>C26. Round trip of the function table: from a row that describes a function that is not variadic,
  \<open>get_fn_info_from_name\<close> recovers exactly the two descriptions and the offset lists that were
  written, whatever the other entries are, and leaves the table as it was.\<close>

theorem get_fn_info_roundtrip:
  assumes "ok_proto p" "\<not> db_error db" "filter (\<lambda>(k, _). k = name) (db_entries db) = [(name, proto_row p)]"
  shows "get_fn_info_from_name db name = (db, Inr (True, p))"
proof -
  let ?p0 = "p\<lparr>pr_retStfp := None, pr_argStfp := None\<rparr>"
  let ?args = "case pr_argStfp p of None \<Rightarrow> [] | Some ls \<Rightarrow> concat (map (\<lambda>l. case l of None \<Rightarrow> [] | Some l \<Rightarrow> stfp_row l) ls)"
  have c: "read_common (common_row p @ f) = Inr (?p0, f)" for f
    using assms(1) by (intro read_common_row) (simp add: ok_proto_def)
  have r: "(if te_is_stfp (fi_rinfo (pr_xx ?p0)) then bindR (read_stfp ((case pr_retStfp p of None \<Rightarrow> [] | Some l \<Rightarrow> stfp_row l) @ f))
        (\<lambda>(l, f1). Inr (?p0\<lparr>pr_retStfp := Some l\<rparr>, f1)) else Inr (?p0, (case pr_retStfp p of None \<Rightarrow> [] | Some l \<Rightarrow> stfp_row l) @ f))
      = Inr (p\<lparr>pr_argStfp := None\<rparr>, f)" for f
    using assms(1) by (cases p) (auto simp: ok_proto_def read_stfp_row split: option.splits)
  have v: "\<not> fi_variadic (pr_aa ?p0)" using assms(1) by (simp add: ok_proto_def)
  have e: "?args = [] \<longleftrightarrow> pr_argStfp p = None"
  proof (cases "pr_argStfp p")
    case (Some ls)
    with assms(1) have "\<exists>l \<in> set ls. (case l of None \<Rightarrow> [] | Some l \<Rightarrow> stfp_row l) \<noteq> []"
      by (intro arg_rows_nonempty [of "fi_ainfo (pr_xx p)"]) (simp_all add: ok_proto_def)
    with Some show ?thesis by auto
  qed simp
  have "read_proto (proto_row p) = Inr (True, p)"
    using v read_arg_stfps_row [of "fi_ainfo (pr_xx p)" _ "[]"] assms(1) e
    unfolding read_proto_def proto_row_def c bindR_simps prod.case if_not_P [OF v] r
    by (cases p) (auto simp: ok_proto_def split: option.splits)
  then show ?thesis using assms(2,3) by (simp add: get_fn_info_from_name_def mpack_node_map_cstr_def)
qed

definition wit_proto :: proto where
  "wit_proto =
     (let x = \<lparr>ai_val = 5, ai_size = 8, ai_mask = 16\<rparr>; y = \<lparr>ai_val = 7, ai_size = 4, ai_mask = 0\<rparr> in
      \<lparr>pr_aa = \<lparr>fi_ainfo = [x, y], fi_rinfo = y, fi_nargs = 2, fi_bytes = 0, fi_ssecount = 0,
                fi_isCxxStructor = False, fi_variadic = False\<rparr>,
       pr_xx = \<lparr>fi_ainfo = [x, y], fi_rinfo = y, fi_nargs = 2, fi_bytes = 8, fi_ssecount = 3,
                fi_isCxxStructor = False, fi_variadic = False\<rparr>,
       pr_retStfp = None, pr_argStfp = Some [Some [24, 65544, STFP_LIST_TERMINATOR], None]\<rparr>)"

theorem get_fn_info_roundtrip_witness:
  "snd (get_fn_info_from_name \<lparr>db_entries = [(''_f'', [1]), (''_g'', proto_row wit_proto)], db_error = False\<rparr> ''_g'')
     = Inr (True, wit_proto)
   \<and> proto_row wit_proto = [7, 4, 0, 7, 4, 0, 2, 5, 8, 16, 7, 4, 0, 5, 8, 16, 7, 4, 0, 0, 8, 3, 0, 0, 2, 24, 65544]"
proof -
  let ?db = "\<lparr>db_entries = [(''_f'', [1]), (''_g'', proto_row wit_proto)], db_error = False\<rparr>"
  have ok: "ok_proto wit_proto" by (simp add: ok_proto_def ok_common_def wit_proto_def te_is_stfp_def te_mask_defs ok_stfp_def Let_def)
  have "get_fn_info_from_name ?db ''_g'' = (?db, Inr (True, wit_proto))"
    by (rule get_fn_info_roundtrip [OF ok]) simp_all
  moreover have "proto_row wit_proto = [7, 4, 0, 7, 4, 0, 2, 5, 8, 16, 7, 4, 0, 5, 8, 16, 7, 4, 0, 0, 8, 3, 0, 0, 2, 24, 65544]"
    by code_simp
  ultimately show ?thesis by simp
qed

end
