(* ===== verification/Spec2Isabelle.thy ===== *)
theory Spec2Isabelle
  imports Aa_Hfa Aa_Locations Xx_Classify Xx_Locations Types_Handle Fmtstr_Scanf Marshal_Exit Handlers_Fmt Proto_Db
begin

text \<open>
  Verification of the call bridge of iqemu64.

  iqemu64 runs AArch64 programs for iOS on x86-64 hosts.  Guest code is translated by QEMU; calls of
  library functions are not emulated but bridged: the arguments are taken from where the AArch64
  procedure call standard puts them, moved to where the System V convention of x86-64 wants them,
  the host function is called, and its result is moved back.  The development models this bridge,
  the part of the program that is not unchanged QEMU.

  \<^bold>\<open>Parts and theories.\<close>
  \<^item> \<open>Prelude\<close>: the machine integers, failures (\<open>Abort\<close> for \<open>abort\<close> and failed assertions,
    \<open>BadTypedef\<close> and \<open>BadAbi\<close> for the two error codes, \<open>Undefined\<close> for behaviour that C does not
    define, \<open>OutOfFuel\<close>), \<open>bindR\<close>, and general lemmas.
  \<^item> \<open>Abi_ArgInfo\<close> (\<open>include/tcg/ABIArgInfo.h\<close>, \<open>aa_reg.h\<close>, \<open>xx_reg.h\<close>): the packed description of
    where one argument lives, \<open>te_set_reg\<close> and \<open>te_get_reg\<close>, \<open>te_set_mem\<close>, \<open>te_num_of_reg\<close>, and the
    laws that hold between them.
  \<^item> \<open>Ffi_Type\<close> (\<open>te_ffi.h\<close>, \<open>types.c\<close>): type descriptors and \<open>initialize_aggregate\<close>, with the C
    layout rules.
  \<^item> \<open>Aa_Cif\<close> (\<open>aa_prep_cif.c\<close>): placement of arguments and results on AArch64.  \<open>Aa_Alloc\<close> states
    the allocation rules of the procedure call standard abstractly and proves the refinement,
    \<open>Aa_Locations\<close> concludes that no two arguments share storage and that variable arguments are
    on the stack, \<open>Aa_Hfa\<close> that homogeneous floating-point aggregates are recognised exactly.
  \<^item> \<open>Xx_Cif\<close> (\<open>xx_prep_cif.c\<close>): classification and placement on x86-64, with \<open>Xx_Classify\<close>,
    \<open>Xx_Alloc\<close> and \<open>Xx_Locations\<close> in the same roles.
  \<^item> \<open>Types_Parser\<close> (\<open>typesParser.c\<close>): the parser of Objective-C type encodings and \<open>handle\<close>, which
    combines it with both placements.  \<open>Types_Fuel\<close> shows that it terminates on every string,
    \<open>Types_Roundtrip\<close> that it inverts printing, \<open>Types_Handle\<close> that the two sides agree.
  \<^item> \<open>Fmtstr_Parser\<close> (\<open>fmtstrParser.c\<close>): format strings of \<open>printf\<close> and \<open>scanf\<close>; \<open>Fmtstr_Spec\<close> and
    \<open>Fmtstr_Scanf\<close> give the argument types of well-formed formats.
  \<^item> \<open>Marshal\<close> (\<open>AArch64tox64.inc.c\<close>, \<open>abi_dy_a2x_entry_translation\<close> and
    \<open>abi_dy_a2x_exit_translation\<close>): moving arguments and results, on a state that has one byte per
    address; \<open>Marshal_Args\<close>, \<open>Marshal_Entry\<close> and \<open>Marshal_Exit\<close> show that every byte arrives and
    nothing else changes.
  \<^item> \<open>Bridge_Scalars\<close> and \<open>Bridge_Live\<close>: the composition, from the type encoding of a call with
    scalar arguments to the registers of the callee and back.
  \<^item> \<open>Handlers\<close> (\<open>AArch64tox64.inc.c\<close>, \<open>objc-helper.m\<close>, \<open>tcg-target.inc.c\<close>, \<open>translate-all.c\<close>):
    the handlers of variadic functions, the call trampoline and the stubs; \<open>Handlers_Call\<close>,
    \<open>Handlers_Nil\<close>, \<open>Handlers_Fmt\<close> show what the called function receives, \<open>Handlers_Table\<close>
    is the table of registered functions.
  \<^item> \<open>Proto_Db\<close> (\<open>jsonParser.c\<close>, \<open>mpack.c\<close>): the table of descriptions of known functions.

  \<^bold>\<open>Conventions.\<close>  A C string is a list of characters with its terminating NUL; reading behind the
  list is \<open>Undefined\<close>.  Memory that C leaves uninitialised (the class arrays of
  \<open>classify_argument\<close>) is the parameter \<open>junk\<close>.  Code that is not part of the sources is a
  parameter: the called x86-64 functions, the addresses of symbols, the Objective-C and Core
  Foundation string functions.  Memory allocation is assumed to succeed.

  \<^bold>\<open>Fuel.\<close>  The parser of type encodings takes \<open>2 * length s + 2\<close> units, which is enough for every
  string (\<open>Types_Fuel\<close>).  The format parser can loop forever on some inputs; for well-formed
  formats a bound is proved, for the others the divergence.  The handlers take the fuel of the
  loops over strings and lists in guest memory.

  \<^bold>\<open>Not modelled.\<close>  Emission of host instructions for functions with a fixed description (the
  static counterpart of \<open>Marshal\<close>), the trampolines for callbacks and Objective-C methods, and all
  of QEMU around the bridge: instruction decoders, the intermediate code and its back ends, devices.
  System calls, the loader and signals are calls of the host system.
\<close>

end
